theory Spec2Isabelle
  imports Complex_Main "HOL-Library.Word"
begin

unbundle bit_operations_syntax

section \<open>Data model of ImageSubtract.cc\<close>

subsection \<open>Pixel and double arithmetic\<close>

text \<open>
  The source is a template over the pixel type \<open>ImageT\<close> (float or double) and the
  variance type \<open>VarT\<close>; the matrices hold \<open>double\<close>. The arithmetic of these types
  (IEEE rounding, not-a-number, the conversions between them) is not part of the source,
  so the model takes it as a record of operations: \<open>'p\<close> is \<open>ImageT\<close>, \<open>'v\<close> is
  \<open>VarT\<close> and \<open>'d\<close> is \<open>double\<close>. No law of arithmetic is built in; a theorem
  that needs one states it as a hypothesis.
\<close>

record ('p, 'v, 'd) arith =
  p_add :: "'p \<Rightarrow> 'p \<Rightarrow> 'p"
  p_sub :: "'p \<Rightarrow> 'p \<Rightarrow> 'p"
  p_mul :: "'p \<Rightarrow> 'p \<Rightarrow> 'p"
  p_of_d :: "'d \<Rightarrow> 'p"
  d_of_p :: "'p \<Rightarrow> 'd"
  d_of_v :: "'v \<Rightarrow> 'd"
  v_of_d :: "'d \<Rightarrow> 'v"
  d_of_int :: "int \<Rightarrow> 'd"
  int_of_d :: "'d \<Rightarrow> int"
  d_zero :: "'d"
  d_one :: "'d"
  d_neg :: "'d \<Rightarrow> 'd"
  d_add :: "'d \<Rightarrow> 'd \<Rightarrow> 'd"
  d_mul :: "'d \<Rightarrow> 'd \<Rightarrow> 'd"
  d_div :: "'d \<Rightarrow> 'd \<Rightarrow> 'd"
  d_sqrt :: "'d \<Rightarrow> 'd"
  d_isnan :: "'d \<Rightarrow> bool"
  d_lt :: "'d \<Rightarrow> 'd \<Rightarrow> bool"
  d_ne :: "'d \<Rightarrow> 'd \<Rightarrow> bool"

subsection \<open>Images, locators, kernels\<close>

text \<open>
  An \<open>Image\<close> is its dimensions, its origin in the parent image (\<open>XY0\<close>) and a
  pixel lookup by position (column, row) inside the image. An
  \<open>xy_locator\<close> is a position inside one image: \<open>xy_at\<close> makes one, \<open>*loc\<close> reads
  the pixel under it, \<open>++loc.x()\<close> moves it one column and \<open>loc += (dx, dy)\<close> moves
  it by a pair. The source does no bounds check on a locator.
\<close>

record 'a image =
  getWidth :: int
  getHeight :: int
  getX0 :: int
  getY0 :: int
  pixel :: "int \<times> int \<Rightarrow> 'a"

type_synonym 'a xy_locator = "'a image \<times> int \<times> int"

definition xy_at :: "'a image \<Rightarrow> int \<Rightarrow> int \<Rightarrow> 'a xy_locator" where
  "xy_at img x y = (img, x, y)"

fun deref :: "'a xy_locator \<Rightarrow> 'a" where
  "deref (img, x, y) = pixel img (x, y)"

fun incr_x :: "'a xy_locator \<Rightarrow> 'a xy_locator" where
  "incr_x (img, x, y) = (img, x + 1, y)"

fun advance :: "'a xy_locator \<Rightarrow> int \<times> int \<Rightarrow> 'a xy_locator" where
  "advance (img, x, y) (dx, dy) = (img, x + dx, y + dy)"

text \<open>
  A basis kernel: its width, height and centre pixel; \<open>kernelData\<close> stands for the rest
  of the kernel object (its pixels), which only the convolution reads.
\<close>

record 'k Kernel =
  kWidth :: int
  kHeight :: int
  getCtrX :: int
  getCtrY :: int
  kernelData :: 'k

subsection \<open>Eigen matrices and vectors\<close>

record 'd MatrixXd =
  rows :: nat
  cols :: nat
  coeff :: "nat \<times> nat \<Rightarrow> 'd"

record 'd VectorXd =
  vrows :: nat
  vcoeff :: "nat \<Rightarrow> 'd"

definition MatrixZero :: "('p, 'v, 'd) arith \<Rightarrow> nat \<Rightarrow> nat \<Rightarrow> 'd MatrixXd" where
  "MatrixZero ar r c = \<lparr>rows = r, cols = c, coeff = (\<lambda>_. d_zero ar)\<rparr>"

definition VectorZero :: "('p, 'v, 'd) arith \<Rightarrow> nat \<Rightarrow> 'd VectorXd" where
  "VectorZero ar r = \<lparr>vrows = r, vcoeff = (\<lambda>_. d_zero ar)\<rparr>"

text \<open>\<open>M(i, j) = v\<close>, \<open>M(i, j) += v\<close> and \<open>B(i) += v\<close>.\<close>

definition set_coeff :: "'d MatrixXd \<Rightarrow> nat \<Rightarrow> nat \<Rightarrow> 'd \<Rightarrow> 'd MatrixXd" where
  "set_coeff M i j v = M\<lparr>coeff := (coeff M)((i, j) := v)\<rparr>"

definition add_coeff ::
  "('p, 'v, 'd) arith \<Rightarrow> 'd MatrixXd \<Rightarrow> nat \<Rightarrow> nat \<Rightarrow> 'd \<Rightarrow> 'd MatrixXd" where
  "add_coeff ar M i j v = set_coeff M i j (d_add ar (coeff M (i, j)) v)"

definition add_vcoeff ::
  "('p, 'v, 'd) arith \<Rightarrow> 'd VectorXd \<Rightarrow> nat \<Rightarrow> 'd \<Rightarrow> 'd VectorXd" where
  "add_vcoeff ar B i v = B\<lparr>vcoeff := (vcoeff B)(i := d_add ar (vcoeff B i) v)\<rparr>"

section \<open>PsfMatchingFunctor::apply: assembling the normal equations\<close>

subsection \<open>The pixel walk (lines 143 to 216)\<close>

text \<open>
  The state of the walk: the matrix and the vector being accumulated, and the locators
  the source steps by hand: one into the image to convolve, one into the image not to
  convolve, one into the variance estimate and one into every basis-convolved image.
\<close>

record ('p, 'v, 'd) walk =
  wM :: "'d MatrixXd"
  wB :: "'d VectorXd"
  imageToConvolveLocator :: "'p xy_locator"
  imageToNotConvolveLocator :: "'p xy_locator"
  varianceLocator :: "'v xy_locator"
  convolvedLocatorList :: "'p xy_locator list"

text \<open>The loop over kernel index j (lines 177 to 186), for a fixed kernel index i.\<close>

definition kidxj_body ::
  "('p, 'v, 'd) arith \<Rightarrow> 'p xy_locator list \<Rightarrow> 'd \<Rightarrow> nat \<Rightarrow> 'p \<Rightarrow>
   'd MatrixXd \<Rightarrow> nat \<Rightarrow> 'd MatrixXd" where
  "kidxj_body ar locs iVariance kidxi cdImagei M kidxj =
     (let cdImagej = deref (locs ! kidxj)
      in add_coeff ar M kidxi kidxj
           (d_mul ar (d_of_p ar (p_mul ar cdImagei cdImagej)) iVariance))"

text \<open>The loop over kernel index i (lines 172 to 192).\<close>

definition kidxi_body ::
  "('p, 'v, 'd) arith \<Rightarrow> 'p xy_locator list \<Rightarrow> nat \<Rightarrow> 'p \<Rightarrow> 'd \<Rightarrow>
   'd MatrixXd \<times> 'd VectorXd \<Rightarrow> nat \<Rightarrow> 'd MatrixXd \<times> 'd VectorXd" where
  "kidxi_body ar locs nParameters ncImage iVariance MB kidxi =
     (let cdImagei = deref (locs ! kidxi);
          M1 = foldl (kidxj_body ar locs iVariance kidxi cdImagei) (fst MB)
                 [kidxi ..< length locs];
          B1 = add_vcoeff ar (snd MB) kidxi
                 (d_mul ar (d_of_p ar (p_mul ar ncImage cdImagei)) iVariance);
          M2 = add_coeff ar M1 kidxi (nParameters - 1)
                 (d_mul ar (d_of_p ar cdImagei) iVariance)
      in (M2, B1))"

text \<open>The body of the column loop (lines 166 to 204): one pixel.\<close>

definition pixel_body ::
  "('p, 'v, 'd) arith \<Rightarrow> nat \<Rightarrow> ('p, 'v, 'd) walk \<Rightarrow> ('p, 'v, 'd) walk" where
  "pixel_body ar nParameters s =
     (let ncImage = deref (imageToNotConvolveLocator s);
          iVariance = d_div ar (d_one ar) (d_of_v ar (deref (varianceLocator s)));
          locs = convolvedLocatorList s;
          MB = foldl (kidxi_body ar locs nParameters ncImage iVariance) (wM s, wB s)
                 [0 ..< length locs];
          B2 = add_vcoeff ar (snd MB) (nParameters - 1) (d_mul ar (d_of_p ar ncImage) iVariance);
          M2 = add_coeff ar (fst MB) (nParameters - 1) (nParameters - 1)
                 (d_mul ar (d_one ar) iVariance)
      in s\<lparr>wM := M2, wB := B2,
            imageToConvolveLocator := incr_x (imageToConvolveLocator s),
            imageToNotConvolveLocator := incr_x (imageToNotConvolveLocator s),
            varianceLocator := incr_x (varianceLocator s),
            convolvedLocatorList := map incr_x locs\<rparr>)"

text \<open>\<open>for (int col = startCol; col < endCol; ++col)\<close>\<close>

function col_loop ::
  "('p, 'v, 'd) arith \<Rightarrow> nat \<Rightarrow> int \<Rightarrow> int \<Rightarrow> ('p, 'v, 'd) walk \<Rightarrow> ('p, 'v, 'd) walk" where
  "col_loop ar nParameters col endCol s =
     (if col < endCol then col_loop ar nParameters (col + 1) endCol (pixel_body ar nParameters s)
      else s)"
  by pat_completeness auto
termination
  by (relation "measure (\<lambda>(ar, n, col, endCol, s). nat (endCol - col))") auto

declare col_loop.simps [simp del]

text \<open>The body of the row loop (lines 165 to 214): one row, then the step to the next.\<close>

definition row_body ::
  "('p, 'v, 'd) arith \<Rightarrow> nat \<Rightarrow> int \<Rightarrow> int \<Rightarrow> int \<times> int \<Rightarrow>
   ('p, 'v, 'd) walk \<Rightarrow> ('p, 'v, 'd) walk" where
  "row_body ar nParameters startCol endCol rowStep s =
     (let s1 = col_loop ar nParameters startCol endCol s
      in s1\<lparr>imageToConvolveLocator := advance (imageToConvolveLocator s1) rowStep,
             imageToNotConvolveLocator := advance (imageToNotConvolveLocator s1) rowStep,
             varianceLocator := advance (varianceLocator s1) rowStep,
             convolvedLocatorList :=
               map (\<lambda>l. advance l rowStep) (convolvedLocatorList s1)\<rparr>)"

text \<open>\<open>for (int row = startRow; row < endRow; ++row)\<close>\<close>

function row_loop ::
  "('p, 'v, 'd) arith \<Rightarrow> nat \<Rightarrow> int \<Rightarrow> int \<Rightarrow> int \<times> int \<Rightarrow> int \<Rightarrow> int \<Rightarrow>
   ('p, 'v, 'd) walk \<Rightarrow> ('p, 'v, 'd) walk" where
  "row_loop ar nParameters startCol endCol rowStep row endRow s =
     (if row < endRow
      then row_loop ar nParameters startCol endCol rowStep (row + 1) endRow
             (row_body ar nParameters startCol endCol rowStep s)
      else s)"
  by pat_completeness auto
termination
  by (relation "measure (\<lambda>(ar, n, sc, ec, rs, row, endRow, s). nat (endRow - row))") auto

declare row_loop.simps [simp del]

subsection \<open>Filling in the rest of M (lines 241 to 246)\<close>

definition mirror_body :: "nat \<Rightarrow> 'd MatrixXd \<Rightarrow> nat \<Rightarrow> 'd MatrixXd" where
  "mirror_body kidxi M kidxj = set_coeff M kidxj kidxi (coeff M (kidxi, kidxj))"

definition fill_in_rest_of_M :: "nat \<Rightarrow> 'd MatrixXd \<Rightarrow> 'd MatrixXd" where
  "fill_in_rest_of_M nParameters M =
     foldl (\<lambda>M kidxi. foldl (mirror_body kidxi) M [kidxi + 1 ..< nParameters])
       M [0 ..< nParameters]"

subsection \<open>The normal equations of one fit (lines 83 to 246)\<close>

text \<open>
  The valid window comes from the first basis kernel and the first basis-convolved image
  (lines 143 to 146).
\<close>

definition window_start :: "'k Kernel \<Rightarrow> int \<times> int" where
  "window_start k = (getCtrX k, getCtrY k)"

definition window_end :: "'k Kernel \<Rightarrow> 'p image \<Rightarrow> int \<times> int" where
  "window_end k c =
     (getWidth c - (kWidth k - getCtrX k) + 1, getHeight c - (kHeight k - getCtrY k) + 1)"

definition walk_init ::
  "('p, 'v, 'd) arith \<Rightarrow> nat \<Rightarrow> 'p image list \<Rightarrow> 'p image \<Rightarrow> 'p image \<Rightarrow> 'v image \<Rightarrow>
   int \<Rightarrow> int \<Rightarrow> ('p, 'v, 'd) walk" where
  "walk_init ar nParameters convolvedImageList imageToConvolve imageToNotConvolve
       varianceEstimate startCol startRow =
     \<lparr>wM = MatrixZero ar nParameters nParameters,
      wB = VectorZero ar nParameters,
      imageToConvolveLocator = xy_at imageToConvolve startCol startRow,
      imageToNotConvolveLocator = xy_at imageToNotConvolve startCol startRow,
      varianceLocator = xy_at varianceEstimate startCol startRow,
      convolvedLocatorList = map (\<lambda>c. xy_at c startCol startRow) convolvedImageList\<rparr>"

definition pixel_walk ::
  "('p, 'v, 'd) arith \<Rightarrow> 'p image list \<Rightarrow> 'p image \<Rightarrow> 'p image \<Rightarrow> 'v image \<Rightarrow>
   int \<times> int \<Rightarrow> int \<times> int \<Rightarrow> ('p, 'v, 'd) walk" where
  "pixel_walk ar convolvedImageList imageToConvolve imageToNotConvolve varianceEstimate
       start end =
     (let nParameters = length convolvedImageList + 1;
          startCol = fst start; startRow = snd start;
          endCol = fst end; endRow = snd end;
          rowStep = (- (endCol - startCol), 1)
      in row_loop ar nParameters startCol endCol rowStep startRow endRow
           (walk_init ar nParameters convolvedImageList imageToConvolve imageToNotConvolve
              varianceEstimate startCol startRow))"

definition normal_equations ::
  "('p, 'v, 'd) arith \<Rightarrow> 'p image list \<Rightarrow> 'p image \<Rightarrow> 'p image \<Rightarrow> 'v image \<Rightarrow>
   int \<times> int \<Rightarrow> int \<times> int \<Rightarrow> 'd MatrixXd \<times> 'd VectorXd" where
  "normal_equations ar convolvedImageList imageToConvolve imageToNotConvolve varianceEstimate
       start end =
     (let s = pixel_walk ar convolvedImageList imageToConvolve imageToNotConvolve
                varianceEstimate start end
      in (fill_in_rest_of_M (length convolvedImageList + 1) (wM s), wB s))"

subsection \<open>The window and the sums the walk computes\<close>

text \<open>
  The pixels of the window from \<open>start\<close> (inclusive) to \<open>end\<close> (exclusive), in
  row-major order: rows outermost, columns innermost.
\<close>

definition window_pixels :: "int \<times> int \<Rightarrow> int \<times> int \<Rightarrow> (int \<times> int) list" where
  "window_pixels start end =
     concat (map (\<lambda>row. map (\<lambda>col. (col, row)) [fst start .. fst end - 1])
               [snd start .. snd end - 1])"

text \<open>
  The walk state whose locators all stand on pixel \<open>p\<close>, and what one run of the
  column loop's body adds to (M, B) from that pixel.
\<close>

definition walk_at ::
  "'p image list \<Rightarrow> 'p image \<Rightarrow> 'p image \<Rightarrow> 'v image \<Rightarrow> int \<times> int \<Rightarrow>
   'd MatrixXd \<times> 'd VectorXd \<Rightarrow> ('p, 'v, 'd) walk" where
  "walk_at convolvedImageList imageToConvolve imageToNotConvolve varianceEstimate p MB =
     \<lparr>wM = fst MB, wB = snd MB,
      imageToConvolveLocator = (imageToConvolve, p),
      imageToNotConvolveLocator = (imageToNotConvolve, p),
      varianceLocator = (varianceEstimate, p),
      convolvedLocatorList = map (\<lambda>c. (c, p)) convolvedImageList\<rparr>"

definition accumulate ::
  "('p, 'v, 'd) arith \<Rightarrow> 'p image list \<Rightarrow> 'p image \<Rightarrow> 'p image \<Rightarrow> 'v image \<Rightarrow>
   'd MatrixXd \<times> 'd VectorXd \<Rightarrow> int \<times> int \<Rightarrow> 'd MatrixXd \<times> 'd VectorXd" where
  "accumulate ar convolvedImageList imageToConvolve imageToNotConvolve varianceEstimate MB p =
     (let s = pixel_body ar (length convolvedImageList + 1)
                (walk_at convolvedImageList imageToConvolve imageToNotConvolve
                   varianceEstimate p MB)
      in (wM s, wB s))"

text \<open>
  The quantities of the fit at one pixel: the value of the k-th basis-convolved image, and
  the inverse-variance weight \<open>1.0 / variance\<close>. A sum over the window is taken in
  the order of the walk, starting from the zero the matrix is initialised with.
\<close>

definition convolved_pixel :: "'p image list \<Rightarrow> nat \<Rightarrow> int \<times> int \<Rightarrow> 'p" where
  "convolved_pixel convolvedImageList k p = pixel (convolvedImageList ! k) p"

definition inverse_variance :: "('p, 'v, 'd) arith \<Rightarrow> 'v image \<Rightarrow> int \<times> int \<Rightarrow> 'd" where
  "inverse_variance ar varianceEstimate p =
     d_div ar (d_one ar) (d_of_v ar (pixel varianceEstimate p))"

definition row_major_sum ::
  "('p, 'v, 'd) arith \<Rightarrow> (int \<times> int \<Rightarrow> 'd) \<Rightarrow> (int \<times> int) list \<Rightarrow> 'd" where
  "row_major_sum ar f ps = foldl (d_add ar) (d_zero ar) (map f ps)"

section \<open>PsfMatchingFunctor::apply: solving and storing (lines 260 to 357)\<close>

subsection \<open>The policy, the functor and its exceptions\<close>

text \<open>The entries the source reads from the policy, under the names it reads them by.\<close>

record 'd policy =
  kernelCols :: int
  kernelRows :: int
  fpNpixMin :: int
  fpNpixMax :: int
  fpGrowKsize :: 'd
  minCleanFp :: int
  detThreshold :: 'd
  detThresholdScaling :: 'd
  detThresholdMin :: 'd
  detThresholdType :: string

text \<open>
  \<open>new LinearCombinationKernel(basisList, values)\<close>: the fitted kernel is the basis list
  with one coefficient per basis kernel. Its constructor belongs to the image library; the
  model keeps its two arguments.
\<close>

datatype ('k, 'd) lc_kernel = LinearCombinationKernel "'k Kernel list" "'d list"

text \<open>
  The members of the functor. The two kernel pointers are null (\<open>None\<close>) until a fit
  stores a kernel.
\<close>

record ('k, 'd) PsfMatchingFunctor =
  basisList :: "'k Kernel list"
  background :: 'd
  backgroundError :: 'd
  kernel :: "('k, 'd) lc_kernel option"
  kernelError :: "('k, 'd) lc_kernel option"

text \<open>
  The exceptions of the source, one constructor per \<open>throw\<close>: the index is the
  \<open>%d\<close> of the message.
  \<^item> \<open>KernelSolutionFailed\<close>: Unable to determine kernel solution in PsfMatchingFunctor::apply
  \<^item> \<open>KernelSolutionNaN idx\<close>: Unable to determine kernel solution idx (nan)
  \<^item> \<open>KernelUncertaintyNaN idx\<close>: Unable to determine kernel uncertainty idx (nan)
  \<^item> \<open>KernelUncertaintyNegative idx\<close>: Unable to determine kernel uncertainty, negative variance idx
  \<^item> \<open>BackgroundUncertaintyNaN\<close>: Unable to determine background uncertainty (nan)
  \<^item> \<open>BackgroundUncertaintyNegative\<close>: Unable to determine background uncertainty, negative variance
  \<^item> \<open>NoFootprints\<close>: Unable to find any footprints for Psf matching
  \<^item> \<open>VectorLength\<close>: \<open>std::vector\<close> constructed with a negative size
  \<^item> \<open>EmptyBasisList\<close>: the first basis kernel is read from an empty list (undefined
    behaviour in the source, a failure in the model)
  \<^item> \<open>LengthError\<close>: an image operator of the image library applied to images of
    different dimensions
  \<^item> \<open>NotPositive\<close>: nRows and nCols must be positive
  \<^item> \<open>NotImplemented\<close>: Not implemented
\<close>

datatype exn =
    KernelSolutionFailed
  | KernelSolutionNaN nat
  | KernelUncertaintyNaN nat
  | KernelUncertaintyNegative nat
  | BackgroundUncertaintyNaN
  | BackgroundUncertaintyNegative
  | NoFootprints
  | VectorLength
  | EmptyBasisList
  | LengthError
  | NotPositive
  | NotImplemented

subsection \<open>The operations of Eigen and of the convolution\<close>

text \<open>
  The decompositions, products and inverses of Eigen are not part of the source; the model
  takes them as a record of operations. A \<open>solve(B, &Soln)\<close> gets the vector
  \<open>Soln\<close> as it stands and returns its success flag with \<open>Soln\<close> as it leaves it.
  \<open>eigensolver\<close> returns the eigenvectors and eigenvalues, or \<open>None\<close> when an
  exception is raised inside the \<open>try\<close> block.
\<close>

record 'd eigen =
  ldlt_solve :: "'d MatrixXd \<Rightarrow> 'd VectorXd \<Rightarrow> 'd VectorXd \<Rightarrow> bool \<times> 'd VectorXd"
  llt_solve :: "'d MatrixXd \<Rightarrow> 'd VectorXd \<Rightarrow> 'd VectorXd \<Rightarrow> bool \<times> 'd VectorXd"
  lu_solve :: "'d MatrixXd \<Rightarrow> 'd VectorXd \<Rightarrow> 'd VectorXd \<Rightarrow> bool \<times> 'd VectorXd"
  eigensolver :: "'d MatrixXd \<Rightarrow> ('d MatrixXd \<times> 'd VectorXd) option"
  mat_mul :: "'d MatrixXd \<Rightarrow> 'd MatrixXd \<Rightarrow> 'd MatrixXd"
  mat_vec :: "'d MatrixXd \<Rightarrow> 'd VectorXd \<Rightarrow> 'd VectorXd"
  asDiagonal :: "'d VectorXd \<Rightarrow> 'd MatrixXd"
  inverse_m :: "'d MatrixXd \<Rightarrow> 'd MatrixXd"
  llt_matrixL :: "'d MatrixXd \<Rightarrow> 'd MatrixXd"

definition transpose_m :: "'d MatrixXd \<Rightarrow> 'd MatrixXd" where
  "transpose_m M = \<lparr>rows = cols M, cols = rows M, coeff = (\<lambda>(i, j). coeff M (j, i))\<rparr>"

subsection \<open>The solver cascade (lines 260 to 291)\<close>

text \<open>
  The loop over the eigenvalues (lines 276 to 280): an eigenvalue that compares unequal to
  0.0 is replaced by its inverse.
\<close>

definition invert_eigenvalue :: "('p, 'v, 'd) arith \<Rightarrow> 'd VectorXd \<Rightarrow> nat \<Rightarrow> 'd VectorXd" where
  "invert_eigenvalue ar eValues i =
     (if d_ne ar (vcoeff eValues i) (d_zero ar)
      then eValues\<lparr>vcoeff := (vcoeff eValues)(i := d_div ar (d_one ar) (vcoeff eValues i))\<rparr>
      else eValues)"

definition invert_eigenvalues :: "('p, 'v, 'd) arith \<Rightarrow> 'd VectorXd \<Rightarrow> 'd VectorXd" where
  "invert_eigenvalues ar eValues = foldl (invert_eigenvalue ar) eValues [0 ..< vrows eValues]"

text \<open>
  What the loop is to compute: every eigenvalue that compares unequal to zero inverted,
  the others left as they are.
\<close>

definition pseudo_inverse_values :: "('p, 'v, 'd) arith \<Rightarrow> 'd VectorXd \<Rightarrow> 'd VectorXd" where
  "pseudo_inverse_values ar eValues =
     eValues\<lparr>vcoeff := (\<lambda>i. if i < vrows eValues \<and> d_ne ar (vcoeff eValues i) (d_zero ar)
                            then d_div ar (d_one ar) (vcoeff eValues i)
                            else vcoeff eValues i)\<rparr>"

text \<open>
  The cascade returns the trace messages it writes and either the exception it throws or
  the solution.
\<close>

definition solve_cascade ::
  "('p, 'v, 'd) arith \<Rightarrow> 'd eigen \<Rightarrow> nat \<Rightarrow> 'd MatrixXd \<Rightarrow> 'd VectorXd \<Rightarrow>
   string list \<times> (exn + 'd VectorXd)" where
  "solve_cascade ar eg nParameters M B =
     (let Soln = VectorZero ar nParameters;
          (ok, Soln) = ldlt_solve eg M B Soln
      in if ok then ([], Inr Soln)
         else
          (let (ok, Soln) = llt_solve eg M B Soln
           in if ok then ([''Unable to determine kernel via Cholesky LDL^T''], Inr Soln)
              else
               (let (ok, Soln) = lu_solve eg M B Soln
                in if ok
                   then ([''Unable to determine kernel via Cholesky LDL^T'',
                          ''Unable to determine kernel via Cholesky LL^T''], Inr Soln)
                   else
                    (case eigensolver eg M of
                       Some (R, eValues) \<Rightarrow>
                         ([''Unable to determine kernel via Cholesky LDL^T'',
                           ''Unable to determine kernel via Cholesky LL^T'',
                           ''Unable to determine kernel via LU''],
                          Inr (mat_vec eg
                                 (mat_mul eg
                                    (mat_mul eg R (asDiagonal eg (invert_eigenvalues ar eValues)))
                                    (transpose_m R))
                                 B))
                     | None \<Rightarrow>
                         ([''Unable to determine kernel via Cholesky LDL^T'',
                           ''Unable to determine kernel via Cholesky LL^T'',
                           ''Unable to determine kernel via LU'',
                           ''Unable to determine kernel via eigen-values''],
                          Inl KernelSolutionFailed)))))"

subsection \<open>The error covariance (lines 310 to 312)\<close>

definition error_covariance :: "'d eigen \<Rightarrow> 'd MatrixXd \<Rightarrow> 'd MatrixXd" where
  "error_covariance eg M =
     (let Cov = mat_mul eg (transpose_m M) M;
          L = llt_matrixL eg Cov
      in mat_mul eg (inverse_m eg (transpose_m L)) (inverse_m eg L))"

subsection \<open>Checking and storing the solution (lines 319 to 357)\<close>

text \<open>A loop over a list of indices whose body may throw: the first exception ends it.\<close>

fun for_each :: "'i list \<Rightarrow> ('i \<Rightarrow> 's \<Rightarrow> exn + 's) \<Rightarrow> 's \<Rightarrow> exn + 's" where
  "for_each [] body s = Inr s"
| "for_each (i # is) body s =
     (case body i s of Inl e \<Rightarrow> Inl e | Inr s' \<Rightarrow> for_each is body s')"

text \<open>
  The body of the loops over the kernel pixels (lines 324 to 340); the state is the running
  index \<open>idx\<close> and the two vectors of values.
\<close>

definition translate_body ::
  "('p, 'v, 'd) arith \<Rightarrow> 'd VectorXd \<Rightarrow> 'd MatrixXd \<Rightarrow> nat \<times> 'd list \<times> 'd list \<Rightarrow>
   exn + nat \<times> 'd list \<times> 'd list" where
  "translate_body ar Soln Error2 s =
     (case s of (idx, kValues, kErrValues) \<Rightarrow>
        if d_isnan ar (vcoeff Soln idx) then Inl (KernelSolutionNaN idx)
        else if d_isnan ar (coeff Error2 (idx, idx)) then Inl (KernelUncertaintyNaN idx)
        else if d_lt ar (coeff Error2 (idx, idx)) (d_zero ar)
        then Inl (KernelUncertaintyNegative idx)
        else Inr (idx + 1,
                  kValues[idx := vcoeff Soln idx],
                  kErrValues[idx := d_sqrt ar (coeff Error2 (idx, idx))]))"

definition translate ::
  "('p, 'v, 'd) arith \<Rightarrow> int \<Rightarrow> int \<Rightarrow> 'd VectorXd \<Rightarrow> 'd MatrixXd \<Rightarrow>
   exn + nat \<times> 'd list \<times> 'd list" where
  "translate ar kCols kRows Soln Error2 =
     (if kCols * kRows < 0 then Inl VectorLength
      else for_each [0 ..< nat kRows]
             (\<lambda>row. for_each [0 ..< nat kCols] (\<lambda>col. translate_body ar Soln Error2))
             (0, replicate (nat (kCols * kRows)) (d_zero ar),
                 replicate (nat (kCols * kRows)) (d_zero ar)))"

text \<open>Entry \<open>idx\<close> passes the three checks of the loop body.\<close>

definition entry_ok :: "('p, 'v, 'd) arith \<Rightarrow> 'd VectorXd \<Rightarrow> 'd MatrixXd \<Rightarrow> nat \<Rightarrow> bool" where
  "entry_ok ar Soln Error2 idx =
     (\<not> d_isnan ar (vcoeff Soln idx) \<and> \<not> d_isnan ar (coeff Error2 (idx, idx)) \<and>
      \<not> d_lt ar (coeff Error2 (idx, idx)) (d_zero ar))"

text \<open>
  Lines 319 to 357. The result is the exception thrown, if any, and the functor as the
  call leaves it: an exception does not undo the assignments made before it.
\<close>

definition store_solution ::
  "('p, 'v, 'd) arith \<Rightarrow> int \<Rightarrow> int \<Rightarrow> nat \<Rightarrow> 'd VectorXd \<Rightarrow> 'd MatrixXd \<Rightarrow>
   ('k, 'd) PsfMatchingFunctor \<Rightarrow> (exn + unit) \<times> ('k, 'd) PsfMatchingFunctor" where
  "store_solution ar kCols kRows nParameters Soln Error2 this =
     (case translate ar kCols kRows Soln Error2 of
        Inl e \<Rightarrow> (Inl e, this)
      | Inr (idx, kValues, kErrValues) \<Rightarrow>
          (let this1 = this\<lparr>kernel := Some (LinearCombinationKernel (basisList this) kValues)\<rparr>;
               this2 = this1\<lparr>kernelError :=
                         Some (LinearCombinationKernel (basisList this1) kErrValues)\<rparr>
           in if d_isnan ar (coeff Error2 (nParameters - 1, nParameters - 1))
              then (Inl BackgroundUncertaintyNaN, this2)
              else if d_lt ar (coeff Error2 (nParameters - 1, nParameters - 1)) (d_zero ar)
              then (Inl BackgroundUncertaintyNegative, this2)
              else (Inr (),
                    this2\<lparr>background := vcoeff Soln (nParameters - 1),
                          backgroundError :=
                            d_sqrt ar (coeff Error2 (nParameters - 1, nParameters - 1))\<rparr>)))"

subsection \<open>The whole of PsfMatchingFunctor::apply (lines 70 to 358)\<close>

text \<open>\<open>reset()\<close>: its body is commented out in the source, so it changes nothing.\<close>

definition reset :: "('k, 'd) PsfMatchingFunctor \<Rightarrow> ('k, 'd) PsfMatchingFunctor" where
  "reset this = this"

text \<open>
  \<open>math::convolve\<close> into a new image of the dimensions of the image to convolve; the
  pixels it writes are a parameter.
\<close>

definition convolve ::
  "('p image \<Rightarrow> 'k Kernel \<Rightarrow> int \<times> int \<Rightarrow> 'p) \<Rightarrow> 'p image \<Rightarrow> 'k Kernel \<Rightarrow> 'p image" where
  "convolve conv inImage k =
     \<lparr>getWidth = getWidth inImage, getHeight = getHeight inImage, getX0 = 0, getY0 = 0,
      pixel = conv inImage k\<rparr>"

definition PsfMatchingFunctor_apply ::
  "('p, 'v, 'd) arith \<Rightarrow> 'd eigen \<Rightarrow> ('p image \<Rightarrow> 'k Kernel \<Rightarrow> int \<times> int \<Rightarrow> 'p) \<Rightarrow>
   'p image \<Rightarrow> 'p image \<Rightarrow> 'v image \<Rightarrow> 'd policy \<Rightarrow>
   ('k, 'd) PsfMatchingFunctor \<Rightarrow> (exn + unit) \<times> ('k, 'd) PsfMatchingFunctor" where
  "PsfMatchingFunctor_apply ar eg conv imageToConvolve imageToNotConvolve varianceEstimate pol this0 =
     (let this = reset this0;
          kCols = kernelCols pol;
          kRows = kernelRows pol;
          nKernelParameters = length (basisList this);
          nBackgroundParameters = 1;
          nParameters = nKernelParameters + nBackgroundParameters;
          convolvedImageList = map (convolve conv imageToConvolve) (basisList this)
      in case basisList this of
           [] \<Rightarrow> (Inl EmptyBasisList, this)
         | k # _ \<Rightarrow>
             (let (M, B) = normal_equations ar convolvedImageList imageToConvolve
                             imageToNotConvolve varianceEstimate
                             (window_start k) (window_end k (hd convolvedImageList))
              in case snd (solve_cascade ar eg nParameters M B) of
                   Inl e \<Rightarrow> (Inl e, this)
                 | Inr Soln \<Rightarrow>
                     store_solution ar kCols kRows nParameters Soln (error_covariance eg M)
                       this))"

text \<open>The steps of apply, named: the normal equations, the solution and the covariance.\<close>

definition fit_equations ::
  "('p, 'v, 'd) arith \<Rightarrow> ('p image \<Rightarrow> 'k Kernel \<Rightarrow> int \<times> int \<Rightarrow> 'p) \<Rightarrow>
   'p image \<Rightarrow> 'p image \<Rightarrow> 'v image \<Rightarrow> 'k Kernel list \<Rightarrow> 'd MatrixXd \<times> 'd VectorXd" where
  "fit_equations ar conv itc nc var basis =
     normal_equations ar (map (convolve conv itc) basis) itc nc var
       (window_start (hd basis)) (window_end (hd basis) (convolve conv itc (hd basis)))"

definition fit_solution ::
  "('p, 'v, 'd) arith \<Rightarrow> 'd eigen \<Rightarrow> ('p image \<Rightarrow> 'k Kernel \<Rightarrow> int \<times> int \<Rightarrow> 'p) \<Rightarrow>
   'p image \<Rightarrow> 'p image \<Rightarrow> 'v image \<Rightarrow> 'k Kernel list \<Rightarrow> exn + 'd VectorXd" where
  "fit_solution ar eg conv itc nc var basis =
     snd (solve_cascade ar eg (length basis + 1)
            (fst (fit_equations ar conv itc nc var basis))
            (snd (fit_equations ar conv itc nc var basis)))"

definition fit_covariance ::
  "('p, 'v, 'd) arith \<Rightarrow> 'd eigen \<Rightarrow> ('p image \<Rightarrow> 'k Kernel \<Rightarrow> int \<times> int \<Rightarrow> 'p) \<Rightarrow>
   'p image \<Rightarrow> 'p image \<Rightarrow> 'v image \<Rightarrow> 'k Kernel list \<Rightarrow> 'd MatrixXd" where
  "fit_covariance ar eg conv itc nc var basis =
     error_covariance eg (fst (fit_equations ar conv itc nc var basis))"

section \<open>getCollectionOfFootprintsForPsfMatching (lines 573 to 710)\<close>

subsection \<open>Masked images, footprints and the detection library\<close>

text \<open>
  A \<open>MaskedImage\<close> is an image, a mask of 16-bit pixels and a variance, of the same
  dimensions and origin.
\<close>

record ('p, 'v) MaskedImage =
  getImage :: "'p image"
  getMask :: "16 word image"
  getVariance :: "'v image"

record BBox =
  bbX0 :: int
  bbY0 :: int
  bbX1 :: int
  bbY1 :: int

definition bbox_shift :: "BBox \<Rightarrow> int \<Rightarrow> int \<Rightarrow> BBox" where
  "bbox_shift b dx dy = \<lparr>bbX0 = bbX0 b + dx, bbY0 = bbY0 b + dy, bbX1 = bbX1 b + dx, bbY1 = bbY1 b + dy\<rparr>"

text \<open>A footprint: its pixel count, its bounding box and its pixels.\<close>

record Footprint =
  getNpix :: int
  getBBox :: BBox
  fpPixels :: "(int \<times> int) list"

text \<open>
  Detection, growing and sub-image extraction belong to the image library and are
  parameters of the model:
  \<^item> \<open>getFootprints img value type npixMin\<close> is
    \<open>DetectionSet(img, createThreshold(value, type), "", npixMin).getFootprints()\<close>;
  \<^item> \<open>growFootprint fp n isotropic\<close>;
  \<^item> \<open>subImage img bbox\<close> is the constructor \<open>MaskedImage(img, bbox)\<close>, \<open>None\<close> when
    it throws.
\<close>

record ('p, 'v, 'd) detection =
  getFootprints :: "('p, 'v) MaskedImage \<Rightarrow> 'd \<Rightarrow> string \<Rightarrow> 32 word \<Rightarrow> Footprint list"
  growFootprint :: "Footprint \<Rightarrow> int \<Rightarrow> bool \<Rightarrow> Footprint"
  subImage :: "('p, 'v) MaskedImage \<Rightarrow> BBox \<Rightarrow> ('p, 'v) MaskedImage option"

text \<open>
  Modelled from the spec: the functor \<open>FindSetBits\<close> is declared in ImageSubtract.h,
  which is not among the sources. The spec has it check the region for any masked or bad
  pixel: \<open>apply\<close> followed by \<open>getBits\<close> is the bitwise OR of the mask pixels under the
  pixels of the footprint, starting from zero at every \<open>apply\<close>.
\<close>

definition FindSetBits :: "16 word image \<Rightarrow> Footprint \<Rightarrow> 16 word" where
  "FindSetBits msk fp = foldl (\<lambda>bits p. bits OR pixel msk p) 0 (fpPixels fp)"

subsection \<open>One footprint (lines 633 to 695)\<close>

text \<open>Why a footprint is left out, one constructor per \<open>continue\<close> of the loop body.\<close>

datatype rejection =
    TooManyPix
  | ExtractionFailed
  | BadPixToConvolve
  | BadPixNotToConvolve

text \<open>Line 595: the number of pixels to grow each footprint by.\<close>

definition fpGrowPix :: "('p, 'v, 'd) arith \<Rightarrow> 'd policy \<Rightarrow> int" where
  "fpGrowPix ar pol =
     int_of_d ar
       (d_mul ar (fpGrowKsize pol)
          (d_of_int ar (if kernelCols pol > kernelRows pol then kernelCols pol
                        else kernelRows pol)))"

text \<open>
  The two sub-images of lines 668 and 669: the second is only made when the first did not
  throw, and either exception is caught by the same handler.
\<close>

definition extract_both ::
  "('p, 'v, 'd) detection \<Rightarrow> ('p, 'v) MaskedImage \<Rightarrow> ('p, 'v) MaskedImage \<Rightarrow> BBox \<Rightarrow> bool" where
  "extract_both det imageToConvolve imageToNotConvolve fpBBox =
     (case subImage det imageToConvolve fpBBox of
        None \<Rightarrow> False
      | Some subImageToConvolve \<Rightarrow>
          (case subImage det imageToNotConvolve fpBBox of
             None \<Rightarrow> False
           | Some subImageToNotConvolve \<Rightarrow> True))"

definition examine_footprint ::
  "('p, 'v, 'd) detection \<Rightarrow> 32 word \<Rightarrow> int \<Rightarrow> ('p, 'v) MaskedImage \<Rightarrow> ('p, 'v) MaskedImage \<Rightarrow>
   Footprint \<Rightarrow> rejection + Footprint" where
  "examine_footprint det fpNpixMax_u growPix imageToConvolve imageToNotConvolve fp =
     (if (word_of_int (getNpix fp) :: 32 word) > fpNpixMax_u then Inl TooManyPix
      else
       (let fpGrow = growFootprint det fp growPix False;
            fpBBox = bbox_shift (getBBox fpGrow)
                       (- getX0 (getImage imageToConvolve)) (- getY0 (getImage imageToConvolve))
        in if \<not> extract_both det imageToConvolve imageToNotConvolve fpBBox
           then Inl ExtractionFailed
           else if FindSetBits (getMask imageToConvolve) fpGrow > 0 then Inl BadPixToConvolve
           else if FindSetBits (getMask imageToNotConvolve) fpGrow > 0
           then Inl BadPixNotToConvolve
           else Inr fpGrow))"

subsection \<open>One pass over the detected footprints (lines 612 to 698)\<close>

text \<open>
  The loop over \<open>footprintListIn\<close>; its state is \<open>footprintListOut\<close> and
  \<open>nCleanFp\<close>.
\<close>

fun examine_all ::
  "('p, 'v, 'd) detection \<Rightarrow> 32 word \<Rightarrow> int \<Rightarrow> ('p, 'v) MaskedImage \<Rightarrow> ('p, 'v) MaskedImage \<Rightarrow>
   Footprint list \<Rightarrow> Footprint list \<times> int \<Rightarrow> Footprint list \<times> int" where
  "examine_all det fpNpixMax_u growPix itc itnc [] acc = acc"
| "examine_all det fpNpixMax_u growPix itc itnc (fp # fps) (footprintListOut, nCleanFp) =
     (case examine_footprint det fpNpixMax_u growPix itc itnc fp of
        Inl r \<Rightarrow> examine_all det fpNpixMax_u growPix itc itnc fps (footprintListOut, nCleanFp)
      | Inr fpGrow \<Rightarrow>
          examine_all det fpNpixMax_u growPix itc itnc fps
            (footprintListOut @ [fpGrow], nCleanFp + 1))"

text \<open>
  The clean footprints found at one threshold: both lists are cleared, the detection is
  run and its footprints are examined.
\<close>

definition one_pass ::
  "('p, 'v, 'd) arith \<Rightarrow> ('p, 'v, 'd) detection \<Rightarrow> 'd policy \<Rightarrow>
   ('p, 'v) MaskedImage \<Rightarrow> ('p, 'v) MaskedImage \<Rightarrow> 'd \<Rightarrow> Footprint list \<times> int" where
  "one_pass ar det pol imageToConvolve imageToNotConvolve detThreshold_now =
     (let footprintListIn = getFootprints det imageToConvolve detThreshold_now
                              (detThresholdType pol) (word_of_int (fpNpixMin pol))
      in examine_all det (word_of_int (fpNpixMax pol)) (fpGrowPix ar pol)
           imageToConvolve imageToNotConvolve footprintListIn ([], 0))"

subsection \<open>The loop over the thresholds (lines 610 to 699)\<close>

text \<open>
  The state of the loop is (nCleanFp, detThreshold, footprintListOut). The loop may run
  for ever, so the model returns \<open>None\<close> when it does.
\<close>

definition loop_cond ::
  "('p, 'v, 'd) arith \<Rightarrow> 'd policy \<Rightarrow> int \<times> 'd \<times> Footprint list \<Rightarrow> bool" where
  "loop_cond ar pol s =
     (case s of (nCleanFp, detThreshold_now, footprintListOut) \<Rightarrow>
        nCleanFp < minCleanFp pol \<and> d_lt ar (detThresholdMin pol) detThreshold_now)"

definition loop_body ::
  "('p, 'v, 'd) arith \<Rightarrow> ('p, 'v, 'd) detection \<Rightarrow> 'd policy \<Rightarrow>
   ('p, 'v) MaskedImage \<Rightarrow> ('p, 'v) MaskedImage \<Rightarrow>
   int \<times> 'd \<times> Footprint list \<Rightarrow> int \<times> 'd \<times> Footprint list" where
  "loop_body ar det pol imageToConvolve imageToNotConvolve s =
     (case s of (nCleanFp, detThreshold_now, footprintListOut) \<Rightarrow>
        (let (footprintListOut', nCleanFp') =
               one_pass ar det pol imageToConvolve imageToNotConvolve detThreshold_now
         in (nCleanFp', d_mul ar detThreshold_now (detThresholdScaling pol), footprintListOut')))"

partial_function (option) threshold_loop ::
  "('p, 'v, 'd) arith \<Rightarrow> ('p, 'v, 'd) detection \<Rightarrow> 'd policy \<Rightarrow>
   ('p, 'v) MaskedImage \<Rightarrow> ('p, 'v) MaskedImage \<Rightarrow>
   int \<times> 'd \<times> Footprint list \<Rightarrow> (int \<times> 'd \<times> Footprint list) option" where
  "threshold_loop ar det pol imageToConvolve imageToNotConvolve s =
     (if loop_cond ar pol s
      then threshold_loop ar det pol imageToConvolve imageToNotConvolve
             (loop_body ar det pol imageToConvolve imageToNotConvolve s)
      else Some s)"

definition getCollectionOfFootprintsForPsfMatching ::
  "('p, 'v, 'd) arith \<Rightarrow> ('p, 'v, 'd) detection \<Rightarrow> ('p, 'v) MaskedImage \<Rightarrow>
   ('p, 'v) MaskedImage \<Rightarrow> 'd policy \<Rightarrow> (exn + Footprint list) option" where
  "getCollectionOfFootprintsForPsfMatching ar det imageToConvolve imageToNotConvolve pol =
     (case threshold_loop ar det pol imageToConvolve imageToNotConvolve
             (0, detThreshold pol, []) of
        None \<Rightarrow> None
      | Some (nCleanFp, detThreshold_end, footprintListOut) \<Rightarrow>
          Some (if length footprintListOut = 0 then Inl NoFootprints
                else Inr footprintListOut))"

subsection \<open>The checks on a region, as the claims word them\<close>

text \<open>
  The pixel count of the region exceeds the maximum, as line 634 compares them: both
  sides as unsigned 32-bit integers.
\<close>

definition exceeds_max :: "'d policy \<Rightarrow> Footprint \<Rightarrow> bool" where
  "exceeds_max pol fp = ((word_of_int (getNpix fp) :: 32 word) > word_of_int (fpNpixMax pol))"

text \<open>
  The checks of the claim, in its words: the grown region can be extracted from both
  images, and its extent holds no masked pixel of an image.
\<close>

definition extracts ::
  "('p, 'v, 'd) detection \<Rightarrow> ('p, 'v) MaskedImage \<Rightarrow> ('p, 'v) MaskedImage \<Rightarrow> Footprint \<Rightarrow> bool" where
  "extracts det itc itnc fpGrow =
     (let fpBBox = bbox_shift (getBBox fpGrow) (- getX0 (getImage itc)) (- getY0 (getImage itc))
      in subImage det itc fpBBox \<noteq> None \<and> subImage det itnc fpBBox \<noteq> None)"

definition unmasked :: "('p, 'v) MaskedImage \<Rightarrow> Footprint \<Rightarrow> bool" where
  "unmasked img fpGrow = list_all (\<lambda>p. pixel (getMask img) p = 0) (fpPixels fpGrow)"

definition passes_all_checks ::
  "('p, 'v, 'd) arith \<Rightarrow> ('p, 'v, 'd) detection \<Rightarrow> 'd policy \<Rightarrow>
   ('p, 'v) MaskedImage \<Rightarrow> ('p, 'v) MaskedImage \<Rightarrow> Footprint \<Rightarrow> bool" where
  "passes_all_checks ar det pol itc itnc fp =
     (let fpGrow = growFootprint det fp (fpGrowPix ar pol) False
      in \<not> exceeds_max pol fp \<and>
         extracts det itc itnc fpGrow \<and> unmasked itc fpGrow \<and> unmasked itnc fpGrow)"

subsection \<open>The thresholds and the states of the loop, pass by pass\<close>

text \<open>
  The threshold after k multiplications by the decay factor, and the state of the loop
  after k passes from its initial state.
\<close>

definition threshold_after :: "('p, 'v, 'd) arith \<Rightarrow> 'd policy \<Rightarrow> nat \<Rightarrow> 'd" where
  "threshold_after ar pol k =
     ((\<lambda>t. d_mul ar t (detThresholdScaling pol)) ^^ k) (detThreshold pol)"

definition state_after ::
  "('p, 'v, 'd) arith \<Rightarrow> ('p, 'v, 'd) detection \<Rightarrow> 'd policy \<Rightarrow>
   ('p, 'v) MaskedImage \<Rightarrow> ('p, 'v) MaskedImage \<Rightarrow> nat \<Rightarrow> int \<times> 'd \<times> Footprint list" where
  "state_after ar det pol itc itnc k =
     (loop_body ar det pol itc itnc ^^ k) (0, detThreshold pol, [])"

text \<open>
  The list of clean footprints the loop holds after k passes: empty before the first pass,
  and after it the list of the latest pass alone, made at the threshold of that pass.
\<close>

definition last_pass ::
  "('p, 'v, 'd) arith \<Rightarrow> ('p, 'v, 'd) detection \<Rightarrow> 'd policy \<Rightarrow>
   ('p, 'v) MaskedImage \<Rightarrow> ('p, 'v) MaskedImage \<Rightarrow> nat \<Rightarrow> Footprint list" where
  "last_pass ar det pol itc itnc k =
     (if k = 0 then []
      else fst (one_pass ar det pol itc itnc (threshold_after ar pol (k - 1))))"

text \<open>The test of the \<open>while\<close> (line 611) on the state that k passes leave.\<close>

definition running ::
  "('p, 'v, 'd) arith \<Rightarrow> ('p, 'v, 'd) detection \<Rightarrow> 'd policy \<Rightarrow>
   ('p, 'v) MaskedImage \<Rightarrow> ('p, 'v) MaskedImage \<Rightarrow> nat \<Rightarrow> bool" where
  "running ar det pol itc itnc k = loop_cond ar pol (state_after ar det pol itc itnc k)"

section \<open>convolveAndSubtract on an Image template (lines 439 to 554)\<close>

subsection \<open>The image operators of the image library\<close>

text \<open>
  \<open>image += scalar\<close>, \<open>image *= scalar\<close>, \<open>image -= other\<close> and \<open>image <<= other\<close>
  work pixel by pixel; a scalar is converted to the pixel type first. The last two throw
  when the dimensions differ.
\<close>

definition same_dimensions :: "'a image \<Rightarrow> 'b image \<Rightarrow> bool" where
  "same_dimensions a b = (getWidth a = getWidth b \<and> getHeight a = getHeight b)"

definition image_plus :: "('p, 'v, 'd) arith \<Rightarrow> 'p image \<Rightarrow> 'd \<Rightarrow> 'p image" where
  "image_plus ar a c = a\<lparr>pixel := (\<lambda>p. p_add ar (pixel a p) (p_of_d ar c))\<rparr>"

definition image_times :: "('p, 'v, 'd) arith \<Rightarrow> 'p image \<Rightarrow> 'd \<Rightarrow> 'p image" where
  "image_times ar a c = a\<lparr>pixel := (\<lambda>p. p_mul ar (pixel a p) (p_of_d ar c))\<rparr>"

definition image_minus :: "('p, 'v, 'd) arith \<Rightarrow> 'p image \<Rightarrow> 'p image \<Rightarrow> exn + 'p image" where
  "image_minus ar a b =
     (if same_dimensions a b
      then Inr (a\<lparr>pixel := (\<lambda>p. p_sub ar (pixel a p) (pixel b p))\<rparr>)
      else Inl LengthError)"

definition image_assign :: "'a image \<Rightarrow> 'a image \<Rightarrow> exn + 'a image" where
  "image_assign a b = (if same_dimensions a b then Inr (a\<lparr>pixel := pixel b\<rparr>) else Inl LengthError)"

text \<open>
  \<open>MaskedImage(dimensions)\<close> followed by \<open>setXY0\<close>: three planes of the given
  dimensions and origin, with pixels of value zero.
\<close>

definition new_MaskedImage ::
  "('p, 'v, 'd) arith \<Rightarrow> int \<Rightarrow> int \<Rightarrow> int \<Rightarrow> int \<Rightarrow> ('p, 'v) MaskedImage" where
  "new_MaskedImage ar w h x0 y0 =
     \<lparr>getImage = \<lparr>getWidth = w, getHeight = h, getX0 = x0, getY0 = y0,
                   pixel = (\<lambda>p. p_of_d ar (d_zero ar))\<rparr>,
      getMask = \<lparr>getWidth = w, getHeight = h, getX0 = x0, getY0 = y0, pixel = (\<lambda>p. 0)\<rparr>,
      getVariance = \<lparr>getWidth = w, getHeight = h, getX0 = x0, getY0 = y0, pixel = (\<lambda>p. v_of_d ar (d_zero ar))\<rparr>\<rparr>"

subsection \<open>addSomethingToImage (lines 439 to 467)\<close>

text \<open>
  The background is a scalar or a function of the position. \<open>positionToIndex\<close> of the
  image library rounds a position to the nearest index; the source calls it on integers,
  where it is the integer itself, and stores the result in a double.
\<close>

datatype 'd background = Scalar 'd | Function "'d \<Rightarrow> 'd \<Rightarrow> 'd"

definition positionToIndex :: "('p, 'v, 'd) arith \<Rightarrow> int \<Rightarrow> 'd" where
  "positionToIndex ar i = d_of_int ar i"

text \<open>
  The loop over one row (lines 450 to 453): the state is \<open>xPos\<close> and the image; the
  sum is taken in double and converted back to the pixel type.
\<close>

definition add_function_pixel ::
  "('p, 'v, 'd) arith \<Rightarrow> ('d \<Rightarrow> 'd \<Rightarrow> 'd) \<Rightarrow> int \<Rightarrow> 'd \<Rightarrow> 'd \<times> 'p image \<Rightarrow> int \<Rightarrow>
   'd \<times> 'p image" where
  "add_function_pixel ar f y yPos s x =
     (case s of (xPos, img) \<Rightarrow>
        (d_add ar xPos (d_one ar),
         img\<lparr>pixel := (pixel img)
                 ((x, y) := p_of_d ar (d_add ar (d_of_p ar (pixel img (x, y))) (f xPos yPos)))\<rparr>))"

definition add_function_row ::
  "('p, 'v, 'd) arith \<Rightarrow> ('d \<Rightarrow> 'd \<Rightarrow> 'd) \<Rightarrow> 'p image \<Rightarrow> int \<Rightarrow> 'p image" where
  "add_function_row ar f img y =
     (let yPos = positionToIndex ar y;
          xPos = positionToIndex ar 0
      in snd (foldl (add_function_pixel ar f y yPos) (xPos, img) [0 .. getWidth img - 1]))"

fun addSomethingToImage ::
  "('p, 'v, 'd) arith \<Rightarrow> 'p image \<Rightarrow> 'd background \<Rightarrow> 'p image" where
  "addSomethingToImage ar img (Function f) =
     foldl (add_function_row ar f) img [0 .. getHeight img - 1]"
| "addSomethingToImage ar img (Scalar v) =
     (if d_ne ar v (d_zero ar) then image_plus ar img v else img)"

subsection \<open>convolveAndSubtract (lines 524 to 554)\<close>

definition convolveAndSubtract ::
  "('p, 'v, 'd) arith \<Rightarrow> ('p image \<Rightarrow> 'k Kernel \<Rightarrow> int \<times> int \<Rightarrow> 'p) \<Rightarrow>
   'p image \<Rightarrow> ('p, 'v) MaskedImage \<Rightarrow> 'k Kernel \<Rightarrow> 'd background \<Rightarrow> bool \<Rightarrow>
   exn + ('p, 'v) MaskedImage" where
  "convolveAndSubtract ar conv imageToConvolve imageToNotConvolve convolutionKernel
       bg invert =
     (let convolvedMaskedImage =
            new_MaskedImage ar (getWidth imageToConvolve) (getHeight imageToConvolve)
              (getX0 imageToConvolve) (getY0 imageToConvolve);
          img1 = (getImage convolvedMaskedImage)
                   \<lparr>pixel := conv imageToConvolve convolutionKernel\<rparr>;
          img2 = addSomethingToImage ar img1 bg
      in case image_minus ar img2 (getImage imageToNotConvolve) of
           Inl e \<Rightarrow> Inl e
         | Inr img3 \<Rightarrow>
             (let img4 = (if invert then image_times ar img3 (d_neg ar (d_one ar)) else img3)
              in case image_assign (getMask convolvedMaskedImage) (getMask imageToNotConvolve) of
                   Inl e \<Rightarrow> Inl e
                 | Inr msk \<Rightarrow>
                     (case image_assign (getVariance convolvedMaskedImage)
                             (getVariance imageToNotConvolve) of
                        Inl e \<Rightarrow> Inl e
                      | Inr var \<Rightarrow>
                          Inr \<lparr>getImage = img4, getMask = msk, getVariance = var\<rparr>)))"

subsection \<open>The difference image, as the claim words it\<close>

text \<open>
  The position at which the background function is evaluated for column x: \<open>xPos\<close>
  starts at \<open>positionToIndex(0)\<close> and is incremented once per pixel.
\<close>

definition xPos_at :: "('p, 'v, 'd) arith \<Rightarrow> int \<Rightarrow> 'd" where
  "xPos_at ar x = ((\<lambda>t. d_add ar t (d_one ar)) ^^ nat x) (positionToIndex ar 0)"

fun plus_background ::
  "('p, 'v, 'd) arith \<Rightarrow> 'd background \<Rightarrow> int \<Rightarrow> int \<Rightarrow> 'p \<Rightarrow> int \<times> int \<Rightarrow> 'p" where
  "plus_background ar (Scalar v) w h c p = p_add ar c (p_of_d ar v)"
| "plus_background ar (Function f) w h c p =
     (if 0 \<le> fst p \<and> fst p < w \<and> 0 \<le> snd p \<and> snd p < h
      then p_of_d ar (d_add ar (d_of_p ar c) (f (xPos_at ar (fst p)) (positionToIndex ar (snd p))))
      else c)"

definition difference_pixel ::
  "('p, 'v, 'd) arith \<Rightarrow> ('p image \<Rightarrow> 'k Kernel \<Rightarrow> int \<times> int \<Rightarrow> 'p) \<Rightarrow>
   'p image \<Rightarrow> ('p, 'v) MaskedImage \<Rightarrow> 'k Kernel \<Rightarrow> 'd background \<Rightarrow> bool \<Rightarrow> int \<times> int \<Rightarrow> 'p" where
  "difference_pixel ar conv template science k bg invert p =
     (let convolved = conv template k p;
          with_background = plus_background ar bg (getWidth template) (getHeight template)
                              convolved p;
          difference = p_sub ar with_background (pixel (getImage science) p)
      in if invert then p_mul ar difference (p_of_d ar (d_neg ar (d_one ar))) else difference)"

text \<open>
  The source does not add a scalar background that compares equal to 0.0 (line 463). The
  claim adds the background always; the two agree when adding such a background changes
  no pixel.
\<close>

fun zero_background_adds_nothing :: "('p, 'v, 'd) arith \<Rightarrow> 'd background \<Rightarrow> bool" where
  "zero_background_adds_nothing ar (Scalar v) =
     (d_ne ar v (d_zero ar) \<or> (\<forall>x. p_add ar x (p_of_d ar v) = x))"
| "zero_background_adds_nothing ar (Function f) = True"

section \<open>The basis sets (lines 378 to 425)\<close>

text \<open>
  \<open>generateDeltaFunctionKernelSet\<close>: the dimensions are unsigned 32-bit integers, cast
  to \<open>int\<close> for the loops. \<open>new DeltaFunctionKernel(width, height, PointI(col, row))\<close>
  belongs to the image library and is a parameter.
\<close>

definition push_delta_row ::
  "(32 word \<Rightarrow> 32 word \<Rightarrow> int \<times> int \<Rightarrow> 'k Kernel) \<Rightarrow> 32 word \<Rightarrow> 32 word \<Rightarrow>
   'k Kernel list \<Rightarrow> int \<Rightarrow> 'k Kernel list" where
  "push_delta_row newDelta width height kernelBasisList row =
     foldl (\<lambda>l col. l @ [newDelta width height (col, row)]) kernelBasisList
       [0 .. sint width - 1]"

definition generateDeltaFunctionKernelSet ::
  "(32 word \<Rightarrow> 32 word \<Rightarrow> int \<times> int \<Rightarrow> 'k Kernel) \<Rightarrow> 32 word \<Rightarrow> 32 word \<Rightarrow>
   exn + 'k Kernel list" where
  "generateDeltaFunctionKernelSet newDelta width height =
     (if width < 1 \<or> height < 1 then Inl NotPositive
      else Inr (foldl (push_delta_row newDelta width height) [] [0 .. sint height - 1]))"

text \<open>\<open>generateAlardLuptonKernelSet\<close>: both paths throw.\<close>

definition generateAlardLuptonKernelSet ::
  "32 word \<Rightarrow> 32 word \<Rightarrow> 'd list \<Rightarrow> 'd list \<Rightarrow> exn + 'k Kernel list" where
  "generateAlardLuptonKernelSet nRows nCols sigGauss degGauss =
     (if nCols < 1 \<or> nRows < 1 then Inl NotPositive else Inl NotImplemented)"

section \<open>An exact arithmetic with not-a-number, for concrete inputs\<close>

text \<open>
  Concrete inputs are evaluated with exact real arithmetic extended by one not-a-number
  value (\<open>None\<close>): an operation on a not-a-number is a not-a-number, a division by zero
  and the square root of a negative number are not-a-number, a comparison with a
  not-a-number is false and \<open>!=\<close> with a not-a-number is true. Pixels, variances and
  doubles all have this type, and the conversions between them are the identity.
\<close>

fun nan_lift2 :: "(real \<Rightarrow> real \<Rightarrow> real) \<Rightarrow> real option \<Rightarrow> real option \<Rightarrow> real option" where
  "nan_lift2 f (Some a) (Some b) = Some (f a b)"
| "nan_lift2 f _ _ = None"

fun nan_div :: "real option \<Rightarrow> real option \<Rightarrow> real option" where
  "nan_div (Some a) (Some b) = (if b = 0 then None else Some (a / b))"
| "nan_div _ _ = None"

fun nan_sqrt :: "real option \<Rightarrow> real option" where
  "nan_sqrt (Some a) = (if a < 0 then None else Some (sqrt a))"
| "nan_sqrt None = None"

fun nan_lt :: "real option \<Rightarrow> real option \<Rightarrow> bool" where
  "nan_lt (Some a) (Some b) = (a < b)"
| "nan_lt _ _ = False"

fun nan_ne :: "real option \<Rightarrow> real option \<Rightarrow> bool" where
  "nan_ne (Some a) (Some b) = (a \<noteq> b)"
| "nan_ne _ _ = True"

fun nan_trunc :: "real option \<Rightarrow> int" where
  "nan_trunc (Some a) = (if a < 0 then \<lceil>a\<rceil> else \<lfloor>a\<rfloor>)"
| "nan_trunc None = 0"

definition exact_arith :: "(real option, real option, real option) arith" where
  "exact_arith =
     \<lparr>p_add = nan_lift2 (+), p_sub = nan_lift2 (-), p_mul = nan_lift2 (*),
      p_of_d = (\<lambda>d. d), d_of_p = (\<lambda>p. p), d_of_v = (\<lambda>v. v), v_of_d = (\<lambda>d. d),
      d_of_int = (\<lambda>i. Some (of_int i)), int_of_d = nan_trunc,
      d_zero = Some 0, d_one = Some 1, d_neg = map_option uminus,
      d_add = nan_lift2 (+), d_mul = nan_lift2 (*), d_div = nan_div,
      d_sqrt = nan_sqrt, d_isnan = (\<lambda>d. d = None), d_lt = nan_lt, d_ne = nan_ne\<rparr>"

text \<open>
  Eigen on matrices of two rows and two columns, in the exact arithmetic. A product is the
  sum of the products of coefficients; the inverse is the adjugate over the determinant;
  the Cholesky factor is the lower-triangular L with L * L^T = A; the two Cholesky solvers
  succeed on a positive definite matrix and the LU solver on an invertible one; the
  eigensolver knows the eigenvectors of a diagonal matrix only (the identity) and raises an
  exception on any other.
\<close>

definition ex_mat_mul :: "real option MatrixXd \<Rightarrow> real option MatrixXd \<Rightarrow> real option MatrixXd" where
  "ex_mat_mul A C =
     \<lparr>rows = rows A, cols = cols C,
      coeff = (\<lambda>(i, j). foldl (nan_lift2 (+)) (Some 0)
                           (map (\<lambda>k. nan_lift2 (*) (coeff A (i, k)) (coeff C (k, j)))
                              [0 ..< cols A]))\<rparr>"

definition ex_mat_vec :: "real option MatrixXd \<Rightarrow> real option VectorXd \<Rightarrow> real option VectorXd" where
  "ex_mat_vec A x =
     \<lparr>vrows = rows A,
      vcoeff = (\<lambda>i. foldl (nan_lift2 (+)) (Some 0)
                      (map (\<lambda>k. nan_lift2 (*) (coeff A (i, k)) (vcoeff x k)) [0 ..< cols A]))\<rparr>"

definition ex_asDiagonal :: "real option VectorXd \<Rightarrow> real option MatrixXd" where
  "ex_asDiagonal x =
     \<lparr>rows = vrows x, cols = vrows x,
      coeff = (\<lambda>(i, j). if i = j then vcoeff x i else Some 0)\<rparr>"

definition ex_det :: "real option MatrixXd \<Rightarrow> real option" where
  "ex_det A =
     nan_lift2 (-) (nan_lift2 (*) (coeff A (0, 0)) (coeff A (1, 1)))
                   (nan_lift2 (*) (coeff A (0, 1)) (coeff A (1, 0)))"

definition ex_inverse :: "real option MatrixXd \<Rightarrow> real option MatrixXd" where
  "ex_inverse A =
     \<lparr>rows = 2, cols = 2,
      coeff = (\<lambda>(i, j).
         if i = 0 \<and> j = 0 then nan_div (coeff A (1, 1)) (ex_det A)
         else if i = 0 \<and> j = 1 then nan_div (map_option uminus (coeff A (0, 1))) (ex_det A)
         else if i = 1 \<and> j = 0 then nan_div (map_option uminus (coeff A (1, 0))) (ex_det A)
         else if i = 1 \<and> j = 1 then nan_div (coeff A (0, 0)) (ex_det A)
         else Some 0)\<rparr>"

definition ex_matrixL :: "real option MatrixXd \<Rightarrow> real option MatrixXd" where
  "ex_matrixL A =
     (let l00 = nan_sqrt (coeff A (0, 0));
          l10 = nan_div (coeff A (1, 0)) l00;
          l11 = nan_sqrt (nan_lift2 (-) (coeff A (1, 1)) (nan_lift2 (*) l10 l10))
      in \<lparr>rows = 2, cols = 2,
          coeff = (\<lambda>(i, j).
             if i = 0 \<and> j = 0 then l00
             else if i = 1 \<and> j = 0 then l10
             else if i = 1 \<and> j = 1 then l11
             else Some 0)\<rparr>)"

definition ex_positive_definite :: "real option MatrixXd \<Rightarrow> bool" where
  "ex_positive_definite A = (nan_lt (Some 0) (coeff A (0, 0)) \<and> nan_lt (Some 0) (ex_det A))"

definition ex_cholesky_solve ::
  "real option MatrixXd \<Rightarrow> real option VectorXd \<Rightarrow> real option VectorXd \<Rightarrow>
   bool \<times> real option VectorXd" where
  "ex_cholesky_solve A b x =
     (if ex_positive_definite A then (True, ex_mat_vec (ex_inverse A) b) else (False, x))"

definition ex_lu_solve ::
  "real option MatrixXd \<Rightarrow> real option VectorXd \<Rightarrow> real option VectorXd \<Rightarrow>
   bool \<times> real option VectorXd" where
  "ex_lu_solve A b x =
     (if nan_lt (Some 0) (ex_det A) \<or> nan_lt (ex_det A) (Some 0)
      then (True, ex_mat_vec (ex_inverse A) b) else (False, x))"

definition ex_eigensolver ::
  "real option MatrixXd \<Rightarrow> (real option MatrixXd \<times> real option VectorXd) option" where
  "ex_eigensolver A =
     (if coeff A (0, 1) = Some 0 \<and> coeff A (1, 0) = Some 0
      then Some (\<lparr>rows = 2, cols = 2, coeff = (\<lambda>(i, j). if i = j then Some 1 else Some 0)\<rparr>,
                 \<lparr>vrows = 2, vcoeff = (\<lambda>i. coeff A (i, i))\<rparr>)
      else None)"

definition exact_eigen :: "real option eigen" where
  "exact_eigen =
     \<lparr>ldlt_solve = ex_cholesky_solve, llt_solve = ex_cholesky_solve, lu_solve = ex_lu_solve,
      eigensolver = ex_eigensolver, mat_mul = ex_mat_mul, mat_vec = ex_mat_vec,
      asDiagonal = ex_asDiagonal, inverse_m = ex_inverse, llt_matrixL = ex_matrixL\<rparr>"

text \<open>
  A small fit: one basis kernel of 3 by 3 pixels centred on (1, 1), a delta function whose
  convolution leaves every pixel as it is, and images of 4 by 3 pixels, so that the window
  is the two pixels (1, 1) and (2, 1). The image to convolve holds 3 - 2 x at (x, y), which
  is 1 and -1 on the window; the image not to convolve holds that plus 3; the variance is 1
  everywhere.
\<close>

definition k33 :: "unit Kernel" where
  "k33 = \<lparr>kWidth = 3, kHeight = 3, getCtrX = 1, getCtrY = 1, kernelData = ()\<rparr>"

definition conv_delta :: "real option image \<Rightarrow> unit Kernel \<Rightarrow> int \<times> int \<Rightarrow> real option" where
  "conv_delta img k = pixel img"

definition img_c0 :: "real option image" where
  "img_c0 = \<lparr>getWidth = 4, getHeight = 3, getX0 = 0, getY0 = 0, pixel = (\<lambda>(x, y). Some (3 - 2 * of_int x))\<rparr>"

definition img_nc :: "real option image" where
  "img_nc = \<lparr>getWidth = 4, getHeight = 3, getX0 = 0, getY0 = 0, pixel = (\<lambda>(x, y). Some (6 - 2 * of_int x))\<rparr>"

definition img_var :: "real option image" where
  "img_var = \<lparr>getWidth = 4, getHeight = 3, getX0 = 0, getY0 = 0, pixel = (\<lambda>_. Some 1)\<rparr>"

text \<open>The same image not to convolve, but for one pixel outside the window.\<close>

definition img_nc' :: "real option image" where
  "img_nc' = \<lparr>getWidth = 4, getHeight = 3, getX0 = 0, getY0 = 0,
              pixel = (\<lambda>(x, y). if (x, y) = (0, 0) then Some 7 else Some (6 - 2 * of_int x))\<rparr>"

text \<open>The policy and the functor of the small fit: a kernel of one column and one row.\<close>

definition pol11 :: "real option policy" where
  "pol11 = \<lparr>kernelCols = 1, kernelRows = 1, fpNpixMin = 1, fpNpixMax = 100,
            fpGrowKsize = Some 1, minCleanFp = 1, detThreshold = Some 8,
            detThresholdScaling = Some (1 / 2), detThresholdMin = Some 1,
            detThresholdType = ''value''\<rparr>"

definition functor0 :: "(unit, real option) PsfMatchingFunctor" where
  "functor0 = \<lparr>basisList = [k33], background = Some 0, backgroundError = Some 0,
               kernel = None, kernelError = None\<rparr>"

text \<open>The normal equations of the small fit.\<close>

definition small_equations :: "real option MatrixXd \<times> real option VectorXd" where
  "small_equations =
     normal_equations exact_arith [convolve conv_delta img_c0 k33] img_c0 img_nc img_var
       (1, 1) (3, 2)"

text \<open>A singular system: M = diag(2, 0) and B = (4, 0).\<close>

definition singular_M :: "real option MatrixXd" where
  "singular_M = \<lparr>rows = 2, cols = 2,
                  coeff = (\<lambda>(i, j). if i = 0 \<and> j = 0 then Some 2 else Some 0)\<rparr>"

definition singular_B :: "real option VectorXd" where
  "singular_B = \<lparr>vrows = 2, vcoeff = (\<lambda>i. if i = 0 then Some 4 else Some 0)\<rparr>"

text \<open>
  An Eigen that answers every system with a given solution and every product with a given
  matrix: it feeds chosen values to the checks of lines 319 to 357.
\<close>

definition stub_eigen :: "real option VectorXd \<Rightarrow> real option MatrixXd \<Rightarrow> real option eigen" where
  "stub_eigen Soln E2 = exact_eigen\<lparr>ldlt_solve := (\<lambda>M B S. (True, Soln)), mat_mul := (\<lambda>A C. E2)\<rparr>"

definition vec2 :: "real option \<Rightarrow> real option \<Rightarrow> real option VectorXd" where
  "vec2 a b = \<lparr>vrows = 2, vcoeff = (\<lambda>i. if i = 0 then a else b)\<rparr>"

definition diag2 :: "real option \<Rightarrow> real option \<Rightarrow> real option MatrixXd" where
  "diag2 a b = \<lparr>rows = 2, cols = 2,
                coeff = (\<lambda>(i, j). if i = j then (if i = 0 then a else b) else Some 0)\<rparr>"

text \<open>
  A detection library for concrete inputs: every pixel above the threshold is a footprint
  of one pixel; growing by n adds to every pixel the pixels at city-block distance at most
  n and widens the bounding box by n; a sub-image exists when the box lies inside the
  image.
\<close>

definition pixel_footprint :: "int \<times> int \<Rightarrow> Footprint" where
  "pixel_footprint p =
     \<lparr>getNpix = 1,
      getBBox = \<lparr>bbX0 = fst p, bbY0 = snd p, bbX1 = fst p, bbY1 = snd p\<rparr>,
      fpPixels = [p]\<rparr>"

definition ex_getFootprints ::
  "(real option, real option) MaskedImage \<Rightarrow> real option \<Rightarrow> string \<Rightarrow> 32 word \<Rightarrow> Footprint list" where
  "ex_getFootprints img thr thresholdType npixMin =
     map pixel_footprint
       (filter (\<lambda>p. nan_lt thr (pixel (getImage img) p))
          (window_pixels (0, 0) (getWidth (getImage img), getHeight (getImage img))))"

definition city_block :: "int \<Rightarrow> int \<times> int \<Rightarrow> (int \<times> int) list" where
  "city_block n p =
     concat (map (\<lambda>dx. map (\<lambda>dy. (fst p + dx, snd p + dy)) [\<bar>dx\<bar> - n .. n - \<bar>dx\<bar>]) [- n .. n])"

definition ex_growFootprint :: "Footprint \<Rightarrow> int \<Rightarrow> bool \<Rightarrow> Footprint" where
  "ex_growFootprint fp n isotropic =
     \<lparr>getNpix = int (length (remdups (concat (map (city_block n) (fpPixels fp))))),
      getBBox = \<lparr>bbX0 = bbX0 (getBBox fp) - n, bbY0 = bbY0 (getBBox fp) - n,
                 bbX1 = bbX1 (getBBox fp) + n, bbY1 = bbY1 (getBBox fp) + n\<rparr>,
      fpPixels = remdups (concat (map (city_block n) (fpPixels fp)))\<rparr>"

definition ex_subImage ::
  "(real option, real option) MaskedImage \<Rightarrow> BBox \<Rightarrow> (real option, real option) MaskedImage option" where
  "ex_subImage img b =
     (if 0 \<le> bbX0 b \<and> 0 \<le> bbY0 b \<and> bbX1 b < getWidth (getImage img) \<and>
         bbY1 b < getHeight (getImage img)
      then Some img else None)"

definition exact_detection :: "(real option, real option, real option) detection" where
  "exact_detection =
     \<lparr>getFootprints = ex_getFootprints, growFootprint = ex_growFootprint,
      subImage = ex_subImage\<rparr>"

text \<open>
  Masked images of 5 by 3 pixels (rows 0 to 2). The first is blank. The second has three
  sources of value 3 over a background of 0: at (1, 1), at (3, 1), and at (4, 0) in the
  corner. The image not to convolve is blank, with one masked pixel at (3, 2) or none.
\<close>

definition plane :: "(int \<times> int \<Rightarrow> 'a) \<Rightarrow> 'a image" where
  "plane f = \<lparr>getWidth = 5, getHeight = 3, getX0 = 0, getY0 = 0, pixel = f\<rparr>"

definition blank :: "(real option, real option) MaskedImage" where
  "blank = \<lparr>getImage = plane (\<lambda>p. Some 0), getMask = plane (\<lambda>p. 0),
            getVariance = plane (\<lambda>p. Some 1)\<rparr>"

definition sources :: "(real option, real option) MaskedImage" where
  "sources =
     \<lparr>getImage = plane (\<lambda>p. if p = (1, 1) \<or> p = (3, 1) \<or> p = (4, 0) then Some 3 else Some 0),
      getMask = plane (\<lambda>p. 0), getVariance = plane (\<lambda>p. Some 1)\<rparr>"

definition masked :: "(real option, real option) MaskedImage" where
  "masked = \<lparr>getImage = plane (\<lambda>p. Some 0), getMask = plane (\<lambda>p. if p = (3, 2) then 1 else 0),
             getVariance = plane (\<lambda>p. Some 1)\<rparr>"

text \<open>The policy of the small fit with a decay factor of 1: the threshold never falls.\<close>

definition pol_no_decay :: "real option policy" where
  "pol_no_decay = pol11\<lparr>detThresholdScaling := Some 1\<rparr>"

text \<open>
  A policy whose threshold starts at 2 and stays there, above the floor of 1, and a policy
  that asks for no clean footprint at all.
\<close>

definition pol_quota :: "real option policy" where
  "pol_quota = pol11\<lparr>detThreshold := Some 2, detThresholdScaling := Some 1\<rparr>"

definition pol_zero_quota :: "real option policy" where
  "pol_zero_quota = pol11\<lparr>minCleanFp := 0\<rparr>"

text \<open>
  A science image of 4 by 3 pixels for the small fit: the image not to convolve, a mask
  with one bit set at (0, 0) and the variance of the small fit.
\<close>

definition science :: "(real option, real option) MaskedImage" where
  "science =
     \<lparr>getImage = img_nc,
      getMask = \<lparr>getWidth = 4, getHeight = 3, getX0 = 0, getY0 = 0,
                 pixel = (\<lambda>p. if p = (0, 0) then 1 else 0)\<rparr>,
      getVariance = img_var\<rparr>"

text \<open>A delta-function kernel of the image library, reduced to its geometry and its pixel.\<close>

definition delta11 :: "32 word \<Rightarrow> 32 word \<Rightarrow> int \<times> int \<Rightarrow> (int \<times> int) Kernel" where
  "delta11 w h p =
     \<lparr>kWidth = uint w, kHeight = uint h, getCtrX = (uint w - 1) div 2,
      getCtrY = (uint h - 1) div 2, kernelData = p\<rparr>"

section \<open>Properties of the assembly\<close>

subsection \<open>The mirroring step\<close>

lemma coeff_set_coeff:
  "coeff (set_coeff M i j v) (a, b) = (if a = i \<and> b = j then v else coeff M (a, b))"
  by (simp add: set_coeff_def)

lemma coeff_mirror_body:
  "coeff (mirror_body i M j) (a, b) = (if a = j \<and> b = i then coeff M (i, j) else coeff M (a, b))"
  by (simp add: mirror_body_def coeff_set_coeff)

lemma mirror_inner:
  "coeff (foldl (mirror_body i) M [Suc i ..< n]) (a, b) =
     (if b = i \<and> i < a \<and> a < n then coeff M (i, a) else coeff M (a, b))"
proof (induction n arbitrary: a b)
  case 0
  then show ?case by simp
next
  case (Suc n)
  show ?case
  proof (cases "Suc i \<le> n")
    case True
    then have "[Suc i ..< Suc n] = [Suc i ..< n] @ [n]" by simp
    then show ?thesis
      using True by (auto simp: coeff_mirror_body Suc.IH)
  next
    case False
    then show ?thesis by auto
  qed
qed

lemma mirror_outer:
  "k \<le> n \<Longrightarrow>
   coeff (foldl (\<lambda>M i. foldl (mirror_body i) M [Suc i ..< n]) M [0 ..< k]) (a, b) =
     (if b < k \<and> b < a \<and> a < n then coeff M (b, a) else coeff M (a, b))"
proof (induction k arbitrary: a b)
  case 0
  then show ?case by simp
next
  case (Suc k)
  then have IH: "\<And>a b. coeff (foldl (\<lambda>M i. foldl (mirror_body i) M [Suc i ..< n]) M [0 ..< k]) (a, b) =
     (if b < k \<and> b < a \<and> a < n then coeff M (b, a) else coeff M (a, b))"
    by simp
  show ?case
    by (simp add: mirror_inner IH) (auto simp: less_Suc_eq)
qed

lemma coeff_fill_in_rest_of_M:
  "coeff (fill_in_rest_of_M n M) (a, b) =
     (if b < a \<and> a < n then coeff M (b, a) else coeff M (a, b))"
  using mirror_outer [of n n M a b] by (simp add: fill_in_rest_of_M_def)

subsection \<open>The pixel walk\<close>

lemma pixel_body_at:
  "pixel_body ar (Suc (length cs)) (walk_at cs itc nc var (x, y) MB) =
     walk_at cs itc nc var (x + 1, y) (accumulate ar cs itc nc var MB (x, y))"
  by (simp add: accumulate_def pixel_body_def walk_at_def Let_def)

lemma col_loop_at:
  "col \<le> endCol \<Longrightarrow>
   col_loop ar (Suc (length cs)) col endCol (walk_at cs itc nc var (col, y) MB) =
     walk_at cs itc nc var (endCol, y)
       (foldl (accumulate ar cs itc nc var) MB (map (\<lambda>c. (c, y)) [col .. endCol - 1]))"
proof (induction "nat (endCol - col)" arbitrary: col MB)
  case 0
  then have "col = endCol" by simp
  then show ?case by (simp add: col_loop.simps [of _ _ endCol endCol])
next
  case (Suc n)
  then have lt: "col < endCol" and n: "n = nat (endCol - (col + 1))" and le: "col + 1 \<le> endCol"
    by auto
  have up: "[col .. endCol - 1] = col # [col + 1 .. endCol - 1]"
    using lt by (simp add: upto_rec1)
  show ?case
    using lt Suc.hyps(1) [OF n le]
    by (simp add: col_loop.simps [of _ _ col endCol] pixel_body_at up)
qed

lemma col_loop_empty:
  "endCol \<le> col \<Longrightarrow> col_loop ar n col endCol s = s"
  by (simp add: col_loop.simps [of _ _ col endCol])

lemma advance_walk_at:
  "(walk_at cs itc nc var (x, y) MB)
     \<lparr>imageToConvolveLocator := advance (imageToConvolveLocator (walk_at cs itc nc var (x, y) MB)) (dx, dy),
      imageToNotConvolveLocator := advance (imageToNotConvolveLocator (walk_at cs itc nc var (x, y) MB)) (dx, dy),
      varianceLocator := advance (varianceLocator (walk_at cs itc nc var (x, y) MB)) (dx, dy),
      convolvedLocatorList :=
        map (\<lambda>l. advance l (dx, dy)) (convolvedLocatorList (walk_at cs itc nc var (x, y) MB))\<rparr> =
   walk_at cs itc nc var (x + dx, y + dy) MB"
  by (simp add: walk_at_def comp_def)

lemma row_body_at:
  "startCol \<le> endCol \<Longrightarrow>
   row_body ar (Suc (length cs)) startCol endCol (startCol - endCol, 1)
       (walk_at cs itc nc var (startCol, y) MB) =
     walk_at cs itc nc var (startCol, y + 1)
       (foldl (accumulate ar cs itc nc var) MB (map (\<lambda>c. (c, y)) [startCol .. endCol - 1]))"
  by (simp add: row_body_def col_loop_at Let_def advance_walk_at)

lemma row_loop_at:
  "startCol \<le> endCol \<Longrightarrow> row \<le> endRow \<Longrightarrow>
   row_loop ar (Suc (length cs)) startCol endCol (startCol - endCol, 1) row endRow
       (walk_at cs itc nc var (startCol, row) MB) =
     walk_at cs itc nc var (startCol, endRow)
       (foldl (accumulate ar cs itc nc var) MB
          (window_pixels (startCol, row) (endCol, endRow)))"
proof (induction "nat (endRow - row)" arbitrary: row MB)
  case 0
  then have "row = endRow" by simp
  then show ?case
    by (simp add: row_loop.simps [of _ _ _ _ _ endRow endRow] window_pixels_def)
next
  case (Suc n)
  then have lt: "row < endRow" and n: "n = nat (endRow - (row + 1))" and le: "row + 1 \<le> endRow"
    by auto
  have up: "[row .. endRow - 1] = row # [row + 1 .. endRow - 1]"
    using lt by (simp add: upto_rec1)
  show ?case
    using lt Suc.hyps(1) [OF n Suc.prems(1) le] Suc.prems(1)
    by (simp add: row_loop.simps [of _ _ _ _ _ row endRow] row_body_at window_pixels_def up)
qed

lemma row_body_empty:
  "endCol \<le> startCol \<Longrightarrow>
   wM (row_body ar n startCol endCol rowStep s) = wM s \<and>
   wB (row_body ar n startCol endCol rowStep s) = wB s"
  by (simp add: row_body_def col_loop_empty Let_def)

lemma row_loop_empty:
  "endCol \<le> startCol \<Longrightarrow>
   wM (row_loop ar n startCol endCol rowStep row endRow s) = wM s \<and>
   wB (row_loop ar n startCol endCol rowStep row endRow s) = wB s"
proof (induction ar n startCol endCol rowStep row endRow s rule: row_loop.induct)
  case (1 ar n startCol endCol rowStep row endRow s)
  show ?case
  proof (cases "row < endRow")
    case True
    then show ?thesis
      using 1 by (simp add: row_loop.simps [of _ _ _ _ _ row endRow] row_body_empty)
  next
    case False
    then show ?thesis by (simp add: row_loop.simps [of _ _ _ _ _ row endRow])
  qed
qed

lemma row_loop_no_rows:
  "endRow \<le> row \<Longrightarrow> row_loop ar n startCol endCol rowStep row endRow s = s"
  by (simp add: row_loop.simps [of _ _ _ _ _ row endRow])

lemma window_pixels_empty:
  "fst e \<le> fst s \<or> snd e \<le> snd s \<Longrightarrow> window_pixels s e = []"
  by (auto simp: window_pixels_def)

lemma wM_walk_at [simp]: "wM (walk_at cs itc nc var p MB) = fst MB"
  and wB_walk_at [simp]: "wB (walk_at cs itc nc var p MB) = snd MB"
  by (simp_all add: walk_at_def)

lemma pixel_walk_fold:
  "(wM (pixel_walk ar cs itc nc var start end), wB (pixel_walk ar cs itc nc var start end)) =
     foldl (accumulate ar cs itc nc var)
       (MatrixZero ar (length cs + 1) (length cs + 1), VectorZero ar (length cs + 1))
       (window_pixels start end)"
proof -
  obtain sc sr where s: "start = (sc, sr)" by (cases start)
  obtain ec er where e: "end = (ec, er)" by (cases "end")
  have init: "walk_init ar (Suc (length cs)) cs itc nc var sc sr =
      walk_at cs itc nc var (sc, sr)
        (MatrixZero ar (Suc (length cs)) (Suc (length cs)), VectorZero ar (Suc (length cs)))"
    by (simp add: walk_init_def walk_at_def xy_at_def)
  show ?thesis
  proof (cases "sc \<le> ec \<and> sr \<le> er")
    case True
    then show ?thesis
      by (simp add: pixel_walk_def s e init row_loop_at)
  next
    case False
    then consider "ec < sc" | "er < sr" by linarith
    then show ?thesis
    proof cases
      case 1
      then show ?thesis
        by (simp add: pixel_walk_def s e row_loop_empty window_pixels_empty walk_init_def)
    next
      case 2
      then show ?thesis
        by (simp add: pixel_walk_def s e row_loop_no_rows window_pixels_empty walk_init_def)
    qed
  qed
qed

lemma normal_equations_fold:
  "normal_equations ar cs itc nc var start end =
     (let MB = foldl (accumulate ar cs itc nc var)
                 (MatrixZero ar (length cs + 1) (length cs + 1), VectorZero ar (length cs + 1))
                 (window_pixels start end)
      in (fill_in_rest_of_M (length cs + 1) (fst MB), snd MB))"
proof -
  let ?F = "foldl (accumulate ar cs itc nc var)
                 (MatrixZero ar (length cs + 1) (length cs + 1), VectorZero ar (length cs + 1))
                 (window_pixels start end)"
  have "wM (pixel_walk ar cs itc nc var start end) = fst ?F"
    and "wB (pixel_walk ar cs itc nc var start end) = snd ?F"
    using pixel_walk_fold [of ar cs itc nc var start "end", symmetric] by simp_all
  then show ?thesis
    by (simp add: normal_equations_def Let_def)
qed

lemma coeff_add_coeff:
  "coeff (add_coeff ar M i j v) (a, b) =
     (if a = i \<and> b = j then d_add ar (coeff M (a, b)) v else coeff M (a, b))"
  by (simp add: add_coeff_def coeff_set_coeff)

lemma vcoeff_add_vcoeff:
  "vcoeff (add_vcoeff ar B i v) a = (if a = i then d_add ar (vcoeff B a) v else vcoeff B a)"
  by (simp add: add_vcoeff_def)

lemma coeff_kidxj_body:
  "coeff (kidxj_body ar locs iv i cdi M j) (a, b) =
     (if a = i \<and> b = j
      then d_add ar (coeff M (a, b)) (d_mul ar (d_of_p ar (p_mul ar cdi (deref (locs ! j)))) iv)
      else coeff M (a, b))"
  by (simp add: kidxj_body_def coeff_add_coeff)

lemma kidxj_loop:
  "coeff (foldl (kidxj_body ar locs iv i cdi) M [i ..< n]) (a, b) =
     (if a = i \<and> i \<le> b \<and> b < n
      then d_add ar (coeff M (a, b)) (d_mul ar (d_of_p ar (p_mul ar cdi (deref (locs ! b)))) iv)
      else coeff M (a, b))"
proof (induction n arbitrary: a b)
  case 0
  then show ?case by simp
next
  case (Suc n)
  show ?case
  proof (cases "i \<le> n")
    case True
    then have "[i ..< Suc n] = [i ..< n] @ [n]" by simp
    then show ?thesis
      using True by (auto simp: coeff_kidxj_body Suc.IH)
  next
    case False
    then show ?thesis by auto
  qed
qed

lemma coeff_kidxi_body:
  "coeff (fst (kidxi_body ar locs (Suc (length locs)) nc iv MB i)) (a, b) =
     (if a = i \<and> i \<le> b \<and> b < length locs
      then d_add ar (coeff (fst MB) (a, b))
             (d_mul ar (d_of_p ar (p_mul ar (deref (locs ! i)) (deref (locs ! b)))) iv)
      else if a = i \<and> b = length locs
      then d_add ar (coeff (fst MB) (a, b)) (d_mul ar (d_of_p ar (deref (locs ! i))) iv)
      else coeff (fst MB) (a, b))"
  by (simp add: kidxi_body_def Let_def coeff_add_coeff kidxj_loop)

lemma vcoeff_kidxi_body:
  "vcoeff (snd (kidxi_body ar locs nP nc iv MB i)) a =
     (if a = i
      then d_add ar (vcoeff (snd MB) a)
             (d_mul ar (d_of_p ar (p_mul ar nc (deref (locs ! i)))) iv)
      else vcoeff (snd MB) a)"
  by (simp add: kidxi_body_def Let_def vcoeff_add_vcoeff)

lemma kidxi_loop_M:
  "coeff (fst (foldl (kidxi_body ar locs (Suc (length locs)) nc iv) MB [0 ..< k])) (a, b) =
     (if a < k \<and> a \<le> b \<and> b < length locs
      then d_add ar (coeff (fst MB) (a, b))
             (d_mul ar (d_of_p ar (p_mul ar (deref (locs ! a)) (deref (locs ! b)))) iv)
      else if a < k \<and> b = length locs
      then d_add ar (coeff (fst MB) (a, b)) (d_mul ar (d_of_p ar (deref (locs ! a))) iv)
      else coeff (fst MB) (a, b))"
proof (induction k arbitrary: a b)
  case 0
  then show ?case by simp
next
  case (Suc k)
  show ?case
    by (auto simp: coeff_kidxi_body Suc.IH less_Suc_eq)
qed

lemma kidxi_loop_B:
  "vcoeff (snd (foldl (kidxi_body ar locs nP nc iv) MB [0 ..< k])) a =
     (if a < k
      then d_add ar (vcoeff (snd MB) a)
             (d_mul ar (d_of_p ar (p_mul ar nc (deref (locs ! a)))) iv)
      else vcoeff (snd MB) a)"
proof (induction k arbitrary: a)
  case 0
  then show ?case by simp
next
  case (Suc k)
  show ?case
    by (auto simp: vcoeff_kidxi_body Suc.IH less_Suc_eq)
qed

lemma coeff_accumulate:
  "coeff (fst (accumulate ar cs itc nc var MB p)) (a, b) =
     (if a \<le> b \<and> b < length cs
      then d_add ar (coeff (fst MB) (a, b))
             (d_mul ar (d_of_p ar (p_mul ar (convolved_pixel cs a p) (convolved_pixel cs b p)))
                (inverse_variance ar var p))
      else if a < length cs \<and> b = length cs
      then d_add ar (coeff (fst MB) (a, b))
             (d_mul ar (d_of_p ar (convolved_pixel cs a p)) (inverse_variance ar var p))
      else if a = length cs \<and> b = length cs
      then d_add ar (coeff (fst MB) (a, b)) (d_mul ar (d_one ar) (inverse_variance ar var p))
      else coeff (fst MB) (a, b))"
proof -
  obtain x y where p: "p = (x, y)" by (cases p)
  let ?locs = "map (\<lambda>c. (c, x, y)) cs"
  have loop: "coeff (fst (foldl (kidxi_body ar ?locs (Suc (length cs)) ncv iv) MB
                  [0 ..< length cs])) (i, j) =
     (if i < length cs \<and> i \<le> j \<and> j < length cs
      then d_add ar (coeff (fst MB) (i, j))
             (d_mul ar (d_of_p ar (p_mul ar (deref (?locs ! i)) (deref (?locs ! j)))) iv)
      else if i < length cs \<and> j = length cs
      then d_add ar (coeff (fst MB) (i, j)) (d_mul ar (d_of_p ar (deref (?locs ! i))) iv)
      else coeff (fst MB) (i, j))" for ncv iv i j
    using kidxi_loop_M [of ar ?locs ncv iv MB "length cs" i j] by simp
  show ?thesis
    unfolding accumulate_def pixel_body_def walk_at_def Let_def p
    by (auto simp: coeff_add_coeff loop convolved_pixel_def inverse_variance_def)
qed

lemma vcoeff_accumulate:
  "vcoeff (snd (accumulate ar cs itc nc var MB p)) a =
     (if a < length cs
      then d_add ar (vcoeff (snd MB) a)
             (d_mul ar (d_of_p ar (p_mul ar (pixel nc p) (convolved_pixel cs a p)))
                (inverse_variance ar var p))
      else if a = length cs
      then d_add ar (vcoeff (snd MB) a)
             (d_mul ar (d_of_p ar (pixel nc p)) (inverse_variance ar var p))
      else vcoeff (snd MB) a)"
proof -
  obtain x y where p: "p = (x, y)" by (cases p)
  show ?thesis
    unfolding accumulate_def pixel_body_def walk_at_def Let_def p
    by (auto simp: vcoeff_add_vcoeff kidxi_loop_B convolved_pixel_def inverse_variance_def)
qed

lemma foldl_coeff:
  assumes "\<And>MB p. coeff (fst (f MB p)) e = d_add ar (coeff (fst MB) e) (t p)"
  shows "coeff (fst (foldl f MB ps)) e = foldl (d_add ar) (coeff (fst MB) e) (map t ps)"
  by (induction ps arbitrary: MB) (simp_all add: assms)

lemma foldl_vcoeff:
  assumes "\<And>MB p. vcoeff (snd (f MB p)) e = d_add ar (vcoeff (snd MB) e) (t p)"
  shows "vcoeff (snd (foldl f MB ps)) e = foldl (d_add ar) (vcoeff (snd MB) e) (map t ps)"
  by (induction ps arbitrary: MB) (simp_all add: assms)

lemma walk_M_entry:
  assumes "\<And>MB p. coeff (fst (accumulate ar cs itc nc var MB p)) e =
             d_add ar (coeff (fst MB) e) (t p)"
  shows "coeff (wM (pixel_walk ar cs itc nc var start end)) e =
           row_major_sum ar t (window_pixels start end)"
proof -
  have "wM (pixel_walk ar cs itc nc var start end) =
      fst (foldl (accumulate ar cs itc nc var)
       (MatrixZero ar (length cs + 1) (length cs + 1), VectorZero ar (length cs + 1))
       (window_pixels start end))"
    using pixel_walk_fold [of ar cs itc nc var start "end"] by (metis fst_conv)
  then show ?thesis
    using foldl_coeff [of "accumulate ar cs itc nc var" e ar t, OF assms]
    by (simp add: row_major_sum_def MatrixZero_def)
qed

lemma walk_B_entry:
  assumes "\<And>MB p. vcoeff (snd (accumulate ar cs itc nc var MB p)) e =
             d_add ar (vcoeff (snd MB) e) (t p)"
  shows "vcoeff (wB (pixel_walk ar cs itc nc var start end)) e =
           row_major_sum ar t (window_pixels start end)"
proof -
  have "wB (pixel_walk ar cs itc nc var start end) =
      snd (foldl (accumulate ar cs itc nc var)
       (MatrixZero ar (length cs + 1) (length cs + 1), VectorZero ar (length cs + 1))
       (window_pixels start end))"
    using pixel_walk_fold [of ar cs itc nc var start "end"] by (metis snd_conv)
  then show ?thesis
    using foldl_vcoeff [of "accumulate ar cs itc nc var" e ar t, OF assms]
    by (simp add: row_major_sum_def VectorZero_def)
qed

lemma fst_normal_equations:
  "fst (normal_equations ar cs itc nc var start end) =
     fill_in_rest_of_M (length cs + 1) (wM (pixel_walk ar cs itc nc var start end))"
  and snd_normal_equations:
  "snd (normal_equations ar cs itc nc var start end) =
     wB (pixel_walk ar cs itc nc var start end)"
  by (simp_all add: normal_equations_def Let_def)

lemma coeff_walk_upper:
  "i \<le> j \<Longrightarrow> j < length cs \<Longrightarrow>
   coeff (wM (pixel_walk ar cs itc nc var start end)) (i, j) =
     row_major_sum ar (\<lambda>p. d_mul ar (d_of_p ar (p_mul ar (convolved_pixel cs i p)
        (convolved_pixel cs j p))) (inverse_variance ar var p)) (window_pixels start end)"
  by (rule walk_M_entry) (simp add: coeff_accumulate)

lemma coeff_walk_cross:
  "i < length cs \<Longrightarrow>
   coeff (wM (pixel_walk ar cs itc nc var start end)) (i, length cs) =
     row_major_sum ar (\<lambda>p. d_mul ar (d_of_p ar (convolved_pixel cs i p))
        (inverse_variance ar var p)) (window_pixels start end)"
  by (rule walk_M_entry) (simp add: coeff_accumulate)

lemma coeff_walk_background:
  "coeff (wM (pixel_walk ar cs itc nc var start end)) (length cs, length cs) =
     row_major_sum ar (\<lambda>p. d_mul ar (d_one ar) (inverse_variance ar var p))
       (window_pixels start end)"
  by (rule walk_M_entry) (simp add: coeff_accumulate)

lemma vcoeff_walk_kernel:
  "i < length cs \<Longrightarrow>
   vcoeff (wB (pixel_walk ar cs itc nc var start end)) i =
     row_major_sum ar (\<lambda>p. d_mul ar (d_of_p ar (p_mul ar (pixel nc p)
        (convolved_pixel cs i p))) (inverse_variance ar var p)) (window_pixels start end)"
  by (rule walk_B_entry) (simp add: vcoeff_accumulate)

lemma vcoeff_walk_background:
  "vcoeff (wB (pixel_walk ar cs itc nc var start end)) (length cs) =
     row_major_sum ar (\<lambda>p. d_mul ar (d_of_p ar (pixel nc p)) (inverse_variance ar var p))
       (window_pixels start end)"
  by (rule walk_B_entry) (simp add: vcoeff_accumulate)

lemma foldl_preserve:
  assumes "\<And>a x. g (f a x) = g a"
  shows "g (foldl f a xs) = g a"
  by (induction xs arbitrary: a) (simp_all add: assms)

lemma dims_set_coeff [simp]:
  "rows (set_coeff M i j v) = rows M" "cols (set_coeff M i j v) = cols M"
  by (simp_all add: set_coeff_def)

lemma dims_add_coeff [simp]:
  "rows (add_coeff ar M i j v) = rows M" "cols (add_coeff ar M i j v) = cols M"
  by (simp_all add: add_coeff_def)

lemma vrows_add_vcoeff [simp]: "vrows (add_vcoeff ar B i v) = vrows B"
  by (simp add: add_vcoeff_def)

lemma dims_kidxj_loop:
  "rows (foldl (kidxj_body ar locs iv i cdi) M js) = rows M"
  "cols (foldl (kidxj_body ar locs iv i cdi) M js) = cols M"
  by (rule foldl_preserve, simp add: kidxj_body_def)+

lemma dims_kidxi_body:
  "rows (fst (kidxi_body ar locs nP ncv iv MB i)) = rows (fst MB)"
  "cols (fst (kidxi_body ar locs nP ncv iv MB i)) = cols (fst MB)"
  "vrows (snd (kidxi_body ar locs nP ncv iv MB i)) = vrows (snd MB)"
  by (simp_all add: kidxi_body_def Let_def dims_kidxj_loop)

lemma dims_kidxi_loop:
  "rows (fst (foldl (kidxi_body ar locs nP ncv iv) MB is)) = rows (fst MB)"
  "cols (fst (foldl (kidxi_body ar locs nP ncv iv) MB is)) = cols (fst MB)"
  "vrows (snd (foldl (kidxi_body ar locs nP ncv iv) MB is)) = vrows (snd MB)"
  by (rule foldl_preserve [where g = "\<lambda>MB. rows (fst MB)"], simp add: dims_kidxi_body,
      rule foldl_preserve [where g = "\<lambda>MB. cols (fst MB)"], simp add: dims_kidxi_body,
      rule foldl_preserve [where g = "\<lambda>MB. vrows (snd MB)"], simp add: dims_kidxi_body)

lemma dims_accumulate:
  "rows (fst (accumulate ar cs itc nc var MB p)) = rows (fst MB)"
  "cols (fst (accumulate ar cs itc nc var MB p)) = cols (fst MB)"
  "vrows (snd (accumulate ar cs itc nc var MB p)) = vrows (snd MB)"
  by (simp_all add: accumulate_def pixel_body_def Let_def dims_kidxi_loop walk_at_def)

lemma dims_fill_in_rest_of_M:
  "rows (fill_in_rest_of_M n M) = rows M" "cols (fill_in_rest_of_M n M) = cols M"
  unfolding fill_in_rest_of_M_def
  by (rule foldl_preserve, rule foldl_preserve, simp add: mirror_body_def)+

lemma dims_normal_equations:
  "rows (fst (normal_equations ar cs itc nc var start end)) = length cs + 1"
  "cols (fst (normal_equations ar cs itc nc var start end)) = length cs + 1"
  "vrows (snd (normal_equations ar cs itc nc var start end)) = length cs + 1"
proof -
  let ?F = "foldl (accumulate ar cs itc nc var)
              (MatrixZero ar (length cs + 1) (length cs + 1), VectorZero ar (length cs + 1))
              (window_pixels start end)"
  have "rows (fst ?F) = length cs + 1"
    by (rule trans [OF foldl_preserve [where g = "\<lambda>MB. rows (fst MB)"]])
       (simp_all add: dims_accumulate MatrixZero_def)
  moreover have "cols (fst ?F) = length cs + 1"
    by (rule trans [OF foldl_preserve [where g = "\<lambda>MB. cols (fst MB)"]])
       (simp_all add: dims_accumulate MatrixZero_def)
  moreover have "vrows (snd ?F) = length cs + 1"
    by (rule trans [OF foldl_preserve [where g = "\<lambda>MB. vrows (snd MB)"]])
       (simp_all add: dims_accumulate VectorZero_def)
  ultimately show
    "rows (fst (normal_equations ar cs itc nc var start end)) = length cs + 1"
    "cols (fst (normal_equations ar cs itc nc var start end)) = length cs + 1"
    "vrows (snd (normal_equations ar cs itc nc var start end)) = length cs + 1"
    by (simp_all add: normal_equations_fold Let_def dims_fill_in_rest_of_M)
qed


lemma small_window_pixels: "window_pixels (1, 1) (3, 2) = [(1, 1), (2, 1)]"
  by (simp add: window_pixels_def upto.simps)

lemma small_window: "window_start k33 = (1, 1)" "window_end k33 img_c0 = (3, 2)"
  by (simp_all add: window_start_def window_end_def k33_def img_c0_def)

text \<open>
  Claim C1. After the walk over the window, in row-major order, with v = 1/variance, nc the
  pixel of the image not to convolve and c_k the pixel of the k-th basis-convolved image:
  for all i \<le> j < N, M(i, j) is the sum over the window of c_i * c_j * v; B(i) is the sum
  of nc * c_i * v; M(i, N) is the sum of c_i * v; B(N) is the sum of nc * v and M(N, N) is
  the sum of v. The products of two pixels are taken in the pixel type and converted to
  double before the weight is applied, as the source does. M(N, N) accumulates
  \<open>1.0 * v\<close>, which is v when multiplying by 1.0 changes nothing.
\<close>

theorem normal_equations_are_sums:
  assumes one: "\<forall>x. d_mul ar (d_one ar) x = x"
  shows "let N = length cs;
             W = window_pixels start end;
             M = fst (normal_equations ar cs itc nc var start end);
             B = snd (normal_equations ar cs itc nc var start end);
             c = convolved_pixel cs;
             v = inverse_variance ar var
         in (\<forall>i j. i \<le> j \<and> j < N \<longrightarrow>
               coeff M (i, j) =
                 row_major_sum ar (\<lambda>p. d_mul ar (d_of_p ar (p_mul ar (c i p) (c j p))) (v p)) W) \<and>
            (\<forall>i. i < N \<longrightarrow>
               vcoeff B i =
                 row_major_sum ar (\<lambda>p. d_mul ar (d_of_p ar (p_mul ar (pixel nc p) (c i p))) (v p)) W) \<and>
            (\<forall>i. i < N \<longrightarrow>
               coeff M (i, N) = row_major_sum ar (\<lambda>p. d_mul ar (d_of_p ar (c i p)) (v p)) W) \<and>
            vcoeff B N = row_major_sum ar (\<lambda>p. d_mul ar (d_of_p ar (pixel nc p)) (v p)) W \<and>
            coeff M (N, N) = row_major_sum ar v W"
proof -
  let ?W = "window_pixels start end"
  let ?wM = "wM (pixel_walk ar cs itc nc var start end)"
  let ?wB = "wB (pixel_walk ar cs itc nc var start end)"
  have upper: "coeff (fst (normal_equations ar cs itc nc var start end)) (i, j) = coeff ?wM (i, j)"
    if "i \<le> j" for i j
    using that by (simp add: fst_normal_equations coeff_fill_in_rest_of_M)
  have 1: "coeff ?wM (i, j) =
      row_major_sum ar (\<lambda>p. d_mul ar (d_of_p ar (p_mul ar (convolved_pixel cs i p)
         (convolved_pixel cs j p))) (inverse_variance ar var p)) ?W"
    if "i \<le> j" "j < length cs" for i j
    by (rule walk_M_entry) (simp add: coeff_accumulate that)
  have 2: "vcoeff ?wB i =
      row_major_sum ar (\<lambda>p. d_mul ar (d_of_p ar (p_mul ar (pixel nc p)
         (convolved_pixel cs i p))) (inverse_variance ar var p)) ?W"
    if "i < length cs" for i
    by (rule walk_B_entry) (simp add: vcoeff_accumulate that)
  have 3: "coeff ?wM (i, length cs) =
      row_major_sum ar (\<lambda>p. d_mul ar (d_of_p ar (convolved_pixel cs i p))
         (inverse_variance ar var p)) ?W"
    if "i < length cs" for i
    by (rule walk_M_entry) (simp add: coeff_accumulate that)
  have 4: "vcoeff ?wB (length cs) =
      row_major_sum ar (\<lambda>p. d_mul ar (d_of_p ar (pixel nc p)) (inverse_variance ar var p)) ?W"
    by (rule walk_B_entry) (simp add: vcoeff_accumulate)
  have 5: "coeff ?wM (length cs, length cs) = row_major_sum ar (inverse_variance ar var) ?W"
    by (rule walk_M_entry) (simp add: coeff_accumulate one)
  show ?thesis
    unfolding Let_def
    using 1 2 3 4 5 by (simp add: upper snd_normal_equations)
qed

lemma exact_one: "\<forall>x. d_mul exact_arith (d_one exact_arith) x = x"
proof
  fix x show "d_mul exact_arith (d_one exact_arith) x = x"
    by (cases x) (simp_all add: exact_arith_def)
qed

theorem normal_equations_are_sums_witness:
  "(\<forall>x. d_mul exact_arith (d_one exact_arith) x = x) \<and>
   coeff (fst (normal_equations exact_arith [img_c0] img_c0 img_nc img_var (1, 1) (3, 2))) (0, 0) = Some 2 \<and>
   coeff (fst (normal_equations exact_arith [img_c0] img_c0 img_nc img_var (1, 1) (3, 2))) (0, 1) = Some 0 \<and>
   coeff (fst (normal_equations exact_arith [img_c0] img_c0 img_nc img_var (1, 1) (3, 2))) (1, 1) = Some 2 \<and>
   vcoeff (snd (normal_equations exact_arith [img_c0] img_c0 img_nc img_var (1, 1) (3, 2))) 0 = Some 2 \<and>
   vcoeff (snd (normal_equations exact_arith [img_c0] img_c0 img_nc img_var (1, 1) (3, 2))) 1 = Some 6"
  using normal_equations_are_sums [OF exact_one, of "[img_c0]" "(1, 1)" "(3, 2)" img_c0 img_nc img_var] exact_one
  by (simp add: Let_def small_window_pixels row_major_sum_def convolved_pixel_def inverse_variance_def
      exact_arith_def img_c0_def img_nc_def img_var_def)

text \<open>
  Claim C2. After the mirroring step the assembled (N+1) by (N+1) matrix is exactly
  symmetric: M(i, j) and M(j, i) are the same value for all i, j, whatever the basis list
  and the images.
\<close>

theorem assembled_M_symmetric:
  "i < length cs + 1 \<Longrightarrow> j < length cs + 1 \<Longrightarrow>
   rows (fst (normal_equations ar cs itc nc var start end)) = length cs + 1 \<and>
   cols (fst (normal_equations ar cs itc nc var start end)) = length cs + 1 \<and>
   coeff (fst (normal_equations ar cs itc nc var start end)) (i, j) =
   coeff (fst (normal_equations ar cs itc nc var start end)) (j, i)"
  by (simp add: dims_normal_equations) (simp add: fst_normal_equations coeff_fill_in_rest_of_M)

theorem assembled_M_symmetric_witness:
  "(0::nat) < length [img_c0] + 1 \<and> (1::nat) < length [img_c0] + 1 \<and>
   coeff (fst (normal_equations exact_arith [img_c0] img_c0 img_nc img_var (1, 1) (3, 2))) (1, 0) =
   coeff (fst (normal_equations exact_arith [img_c0] img_c0 img_nc img_var (1, 1) (3, 2))) (0, 1)"
  using assembled_M_symmetric [of 1 "[img_c0]" 0 exact_arith img_c0 img_nc img_var "(1, 1)" "(3, 2)"]
  by simp

subsection \<open>The window of the walk\<close>

lemma kidxj_body_cong:
  "deref (locs' ! j) = deref (locs ! j) \<Longrightarrow>
   kidxj_body ar locs' iv i cdi M j = kidxj_body ar locs iv i cdi M j"
  by (simp add: kidxj_body_def)

lemma kidxi_body_cong:
  assumes "length locs' = length locs"
    and "\<forall>k<length locs. deref (locs' ! k) = deref (locs ! k)"
    and "i < length locs"
  shows "kidxi_body ar locs' nP ncv iv MB i = kidxi_body ar locs nP ncv iv MB i"
proof -
  have "foldl (kidxj_body ar locs' iv i cdi) M [i ..< length locs] =
        foldl (kidxj_body ar locs iv i cdi) M [i ..< length locs]" for cdi M
  proof (rule foldl_cong [OF refl refl])
    fix a x assume "x \<in> set [i ..< length locs]"
    then have "deref (locs' ! x) = deref (locs ! x)" using assms(2) by simp
    then show "kidxj_body ar locs' iv i cdi a x = kidxj_body ar locs iv i cdi a x"
      by (rule kidxj_body_cong)
  qed
  then show ?thesis
    using assms by (simp add: kidxi_body_def)
qed

lemma accumulate_cong:
  assumes "length cs' = length cs"
    and "\<forall>k<length cs. pixel (cs' ! k) p = pixel (cs ! k) p"
    and "pixel nc' p = pixel nc p"
    and "pixel var' p = pixel var p"
  shows "accumulate ar cs' itc' nc' var' MB p = accumulate ar cs itc nc var MB p"
proof -
  obtain x y where p: "p = (x, y)" by (cases p)
  let ?locs' = "map (\<lambda>c. (c, x, y)) cs'"
  let ?locs = "map (\<lambda>c. (c, x, y)) cs"
  have len: "length ?locs' = length ?locs" using assms(1) by simp
  have der: "\<forall>k<length ?locs. deref (?locs' ! k) = deref (?locs ! k)"
    using assms(1,2) by (simp add: p)
  have "foldl (kidxi_body ar ?locs' nP ncv iv) MB [0 ..< length cs] =
        foldl (kidxi_body ar ?locs nP ncv iv) MB [0 ..< length cs]" for nP ncv iv
  proof (rule foldl_cong [OF refl refl])
    fix a x assume "x \<in> set [0 ..< length cs]"
    then have "x < length ?locs" by simp
    then show "kidxi_body ar ?locs' nP ncv iv a x = kidxi_body ar ?locs nP ncv iv a x"
      by (rule kidxi_body_cong [OF len der])
  qed
  moreover have "pixel nc' (x, y) = pixel nc (x, y)" "pixel var' (x, y) = pixel var (x, y)"
    using assms(3,4) by (simp_all add: p)
  ultimately show ?thesis
    by (simp add: accumulate_def pixel_body_def walk_at_def p Let_def assms(1))
qed

lemma set_window_pixels:
  "set (window_pixels start end) =
     {(x, y). fst start \<le> x \<and> x < fst end \<and> snd start \<le> y \<and> y < snd end}"
  by (auto simp: window_pixels_def)

lemma distinct_window_pixels: "distinct (window_pixels start end)"
proof (cases "fst start < fst end")
  case True
  have inj: "inj_on (\<lambda>row. map (\<lambda>col. (col, row)) [fst start .. fst end - 1]) A" for A
  proof (rule inj_onI)
    fix r r'
    assume "map (\<lambda>col. (col, r)) [fst start .. fst end - 1] =
            map (\<lambda>col. (col, r')) [fst start .. fst end - 1]"
    moreover have "fst start \<in> set [fst start .. fst end - 1]" using True by simp
    ultimately show "r = r'" by (auto simp: map_eq_conv)
  qed
  show ?thesis
    unfolding window_pixels_def
    by (rule distinct_concat) (auto simp: distinct_map inj inj_on_def)
next
  case False
  then have "window_pixels start end = []"
    by (auto simp: window_pixels_def)
  then show ?thesis by simp
qed

lemma normal_equations_frame:
  assumes "length cs' = length cs"
    and "\<forall>p \<in> set (window_pixels start end).
           (\<forall>k<length cs. pixel (cs' ! k) p = pixel (cs ! k) p) \<and>
           pixel nc' p = pixel nc p \<and> pixel var' p = pixel var p"
  shows "normal_equations ar cs' itc' nc' var' start end =
         normal_equations ar cs itc nc var start end"
proof -
  have "foldl (accumulate ar cs' itc' nc' var') MB0 (window_pixels start end) =
        foldl (accumulate ar cs itc nc var) MB0 (window_pixels start end)" for MB0
  proof (rule foldl_cong [OF refl refl])
    fix a p assume "p \<in> set (window_pixels start end)"
    then show "accumulate ar cs' itc' nc' var' a p = accumulate ar cs itc nc var a p"
      using assms by (intro accumulate_cong) auto
  qed
  then show ?thesis
    by (simp add: normal_equations_fold assms(1))
qed

text \<open>
  Claim C3. For a basis kernel of width kw, height kh and centre (cx, cy), the walk covers
  exactly the window of columns cx (inclusive) to width - (kw - cx) + 1 (exclusive) and rows
  cy (inclusive) to height - (kh - cy) + 1 (exclusive): the walk is the fold of the
  per-pixel accumulation over these pixels, each once, in row-major order, and images that
  agree on the window give the same M and B.
\<close>

theorem pixel_walk_covers_exactly_the_window:
  "let start = window_start k; end = window_end k c; W = window_pixels start end
   in set W = {(x, y). getCtrX k \<le> x \<and> x < getWidth c - (kWidth k - getCtrX k) + 1 \<and>
                        getCtrY k \<le> y \<and> y < getHeight c - (kHeight k - getCtrY k) + 1} \<and>
      distinct W \<and>
      (wM (pixel_walk ar cs itc nc var start end), wB (pixel_walk ar cs itc nc var start end)) =
        foldl (accumulate ar cs itc nc var)
          (MatrixZero ar (length cs + 1) (length cs + 1), VectorZero ar (length cs + 1)) W \<and>
      (\<forall>cs' itc' nc' var'.
         length cs' = length cs \<and>
         (\<forall>p \<in> set W. (\<forall>k<length cs. pixel (cs' ! k) p = pixel (cs ! k) p) \<and>
                       pixel nc' p = pixel nc p \<and> pixel var' p = pixel var p) \<longrightarrow>
         normal_equations ar cs' itc' nc' var' start end =
         normal_equations ar cs itc nc var start end)"
proof -
  let ?s = "window_start k" and ?e = "window_end k c"
  have 1: "set (window_pixels ?s ?e) =
      {(x, y). getCtrX k \<le> x \<and> x < getWidth c - (kWidth k - getCtrX k) + 1 \<and>
               getCtrY k \<le> y \<and> y < getHeight c - (kHeight k - getCtrY k) + 1}"
    by (simp add: set_window_pixels window_start_def window_end_def)
  have 2: "\<forall>cs' itc' nc' var'.
         length cs' = length cs \<and>
         (\<forall>p \<in> set (window_pixels ?s ?e).
             (\<forall>k<length cs. pixel (cs' ! k) p = pixel (cs ! k) p) \<and>
             pixel nc' p = pixel nc p \<and> pixel var' p = pixel var p) \<longrightarrow>
         normal_equations ar cs' itc' nc' var' ?s ?e = normal_equations ar cs itc nc var ?s ?e"
    by (intro allI impI, elim conjE, rule normal_equations_frame, assumption+)
  show ?thesis
    unfolding Let_def
    by (intro conjI 1 2 distinct_window_pixels pixel_walk_fold)
qed


theorem pixel_walk_covers_exactly_the_window_witness:
  "window_pixels (window_start k33) (window_end k33 img_c0) = [(1, 1), (2, 1)] \<and>
   pixel img_nc' (0, 0) \<noteq> pixel img_nc (0, 0) \<and>
   normal_equations exact_arith [img_c0] img_c0 img_nc' img_var (1, 1) (3, 2) =
   normal_equations exact_arith [img_c0] img_c0 img_nc img_var (1, 1) (3, 2)"
proof -
  note th = pixel_walk_covers_exactly_the_window
          [of k33 img_c0 exact_arith "[img_c0]" img_c0 img_nc img_var, unfolded Let_def small_window small_window_pixels]
  note frame = th [THEN conjunct2, THEN conjunct2, THEN conjunct2, rule_format,
          of "[img_c0]" img_nc' img_var img_c0]
  have "normal_equations exact_arith [img_c0] img_c0 img_nc' img_var (1, 1) (3, 2) =
        normal_equations exact_arith [img_c0] img_c0 img_nc img_var (1, 1) (3, 2)"
    by (rule frame) (simp add: img_nc'_def img_nc_def)
  then show ?thesis
    by (simp add: small_window_pixels small_window img_nc'_def img_nc_def)
qed

section \<open>The small fit, evaluated\<close>

lemma exact_arith_fields:
  "d_lt exact_arith = nan_lt" "d_mul exact_arith = nan_lift2 (*)"
  "d_isnan exact_arith = (\<lambda>d. d = None)" "d_zero exact_arith = Some 0"
  "d_sqrt exact_arith = nan_sqrt" "d_one exact_arith = Some 1"
  by (simp_all add: exact_arith_def)

lemma small_M:
  "coeff (fst small_equations) (0, 0) = Some 2"
  "coeff (fst small_equations) (0, Suc 0) = Some 0"
  "coeff (fst small_equations) (Suc 0, 0) = Some 0"
  "coeff (fst small_equations) (Suc 0, Suc 0) = Some 2"
  using coeff_walk_upper [of 0 0 "[convolve conv_delta img_c0 k33]" exact_arith img_c0 img_nc img_var "(1, 1)" "(3, 2)"]
    coeff_walk_cross [of 0 "[convolve conv_delta img_c0 k33]" exact_arith img_c0 img_nc img_var "(1, 1)" "(3, 2)"]
    coeff_walk_background [of exact_arith "[convolve conv_delta img_c0 k33]" img_c0 img_nc img_var "(1, 1)" "(3, 2)"]
  by (simp_all add: small_equations_def fst_normal_equations coeff_fill_in_rest_of_M small_window_pixels
      row_major_sum_def convolved_pixel_def inverse_variance_def convolve_def conv_delta_def
      exact_arith_def img_c0_def img_var_def)

lemma small_B:
  "vcoeff (snd small_equations) 0 = Some 2"
  "vcoeff (snd small_equations) (Suc 0) = Some 6"
  using vcoeff_walk_kernel [of 0 "[convolve conv_delta img_c0 k33]" exact_arith img_c0 img_nc img_var "(1, 1)" "(3, 2)"]
    vcoeff_walk_background [of exact_arith "[convolve conv_delta img_c0 k33]" img_c0 img_nc img_var "(1, 1)" "(3, 2)"]
  by (simp_all add: small_equations_def snd_normal_equations small_window_pixels
      row_major_sum_def convolved_pixel_def inverse_variance_def convolve_def conv_delta_def
      exact_arith_def img_c0_def img_nc_def img_var_def)

lemma small_dims:
  "rows (fst small_equations) = 2" "cols (fst small_equations) = 2"
  "vrows (snd small_equations) = 2"
  by (simp_all add: small_equations_def dims_normal_equations)

lemma upt_0_2: "[0 ..< 2] = [0, Suc 0]"
  by (simp add: upt_rec)

lemma small_det: "ex_det (fst small_equations) = Some 4"
  by (simp add: ex_det_def small_M)

lemma small_Soln:
  "ldlt_solve exact_eigen (fst small_equations) (snd small_equations) S =
     (True, ex_mat_vec (ex_inverse (fst small_equations)) (snd small_equations))"
  "vcoeff (ex_mat_vec (ex_inverse (fst small_equations)) (snd small_equations)) 0 = Some 1"
  "vcoeff (ex_mat_vec (ex_inverse (fst small_equations)) (snd small_equations)) (Suc 0) = Some 3"
  by (simp_all add: exact_eigen_def ex_cholesky_solve_def ex_positive_definite_def small_det
      small_M small_B ex_mat_vec_def ex_inverse_def small_dims upt_0_2)

lemma small_Error2:
  "coeff (error_covariance exact_eigen (fst small_equations)) (0, 0) = Some (1 / 4)"
  "coeff (error_covariance exact_eigen (fst small_equations)) (Suc 0, Suc 0) = Some (1 / 4)"
  by (simp_all add: error_covariance_def exact_eigen_def Let_def ex_mat_mul_def ex_inverse_def
      ex_matrixL_def transpose_m_def ex_det_def small_M small_dims upt_0_2)

section \<open>Properties of the solver cascade\<close>

lemma invert_eigenvalues_loop:
  "foldl (invert_eigenvalue ar) ev [0 ..< n] =
     ev\<lparr>vcoeff := (\<lambda>i. if i < n \<and> d_ne ar (vcoeff ev i) (d_zero ar)
                       then d_div ar (d_one ar) (vcoeff ev i)
                       else vcoeff ev i)\<rparr>"
proof (induction n)
  case 0
  then show ?case by simp
next
  case (Suc n)
  show ?case
    by (simp add: Suc.IH) (auto simp: invert_eigenvalue_def fun_eq_iff less_Suc_eq)
qed

lemma invert_eigenvalues_eq: "invert_eigenvalues ar ev = pseudo_inverse_values ar ev"
  by (simp add: invert_eigenvalues_def pseudo_inverse_values_def invert_eigenvalues_loop)

text \<open>
  Claim C4. The solver tries Cholesky LDL^T, then Cholesky LL^T, then LU, then the
  eigen-decomposition, each only when the one before has failed: the result is that of the
  first stage that succeeds and does not depend on the later stages. The last stage leaves
  an eigenvalue equal to zero as it is, inverts every other and returns
  V * diag(1/lambda) * V^T * B; when it raises an exception the fit fails with
  "Unable to determine kernel solution" and nothing else is tried.
\<close>

theorem solver_cascade_order:
  "let Soln0 = VectorZero ar n;
       ldlt = ldlt_solve eg M B Soln0;
       llt = llt_solve eg M B (snd ldlt);
       lu = lu_solve eg M B (snd llt);
       result = solve_cascade ar eg n M B
   in (fst ldlt \<longrightarrow>
         result = ([], Inr (snd ldlt)) \<and>
         (\<forall>eg'. ldlt_solve eg' = ldlt_solve eg \<longrightarrow> solve_cascade ar eg' n M B = result)) \<and>
      (\<not> fst ldlt \<and> fst llt \<longrightarrow>
         result = ([''Unable to determine kernel via Cholesky LDL^T''], Inr (snd llt)) \<and>
         (\<forall>eg'. ldlt_solve eg' = ldlt_solve eg \<and> llt_solve eg' = llt_solve eg \<longrightarrow>
                solve_cascade ar eg' n M B = result)) \<and>
      (\<not> fst ldlt \<and> \<not> fst llt \<and> fst lu \<longrightarrow>
         result = ([''Unable to determine kernel via Cholesky LDL^T'',
                    ''Unable to determine kernel via Cholesky LL^T''], Inr (snd lu)) \<and>
         (\<forall>eg'. ldlt_solve eg' = ldlt_solve eg \<and> llt_solve eg' = llt_solve eg \<and>
                lu_solve eg' = lu_solve eg \<longrightarrow>
                solve_cascade ar eg' n M B = result)) \<and>
      (\<not> fst ldlt \<and> \<not> fst llt \<and> \<not> fst lu \<longrightarrow>
         (case eigensolver eg M of
            Some (V, lambda) \<Rightarrow>
              result = ([''Unable to determine kernel via Cholesky LDL^T'',
                         ''Unable to determine kernel via Cholesky LL^T'',
                         ''Unable to determine kernel via LU''],
                        Inr (mat_vec eg
                               (mat_mul eg
                                  (mat_mul eg V (asDiagonal eg (pseudo_inverse_values ar lambda)))
                                  (transpose_m V))
                               B))
          | None \<Rightarrow>
              result = ([''Unable to determine kernel via Cholesky LDL^T'',
                         ''Unable to determine kernel via Cholesky LL^T'',
                         ''Unable to determine kernel via LU'',
                         ''Unable to determine kernel via eigen-values''],
                        Inl KernelSolutionFailed)))"
  by (simp add: solve_cascade_def Let_def split_beta invert_eigenvalues_eq
      split: option.split)

lemma singular_det: "ex_det singular_M = Some 0"
  by (simp add: ex_det_def singular_M_def)

lemma singular_fails:
  "ldlt_solve exact_eigen singular_M singular_B S = (False, S)"
  "llt_solve exact_eigen singular_M singular_B S = (False, S)"
  "lu_solve exact_eigen singular_M singular_B S = (False, S)"
  by (simp_all add: exact_eigen_def ex_cholesky_solve_def ex_lu_solve_def
      ex_positive_definite_def singular_det)

lemma singular_eigen:
  "eigensolver exact_eigen singular_M =
     Some (\<lparr>rows = 2, cols = 2, coeff = (\<lambda>(i, j). if i = j then Some 1 else Some 0)\<rparr>,
           \<lparr>vrows = 2, vcoeff = (\<lambda>i. coeff singular_M (i, i))\<rparr>)"
  by (simp add: exact_eigen_def ex_eigensolver_def singular_M_def)

theorem solver_cascade_order_witness:
  "fst (ldlt_solve exact_eigen (fst small_equations) (snd small_equations)
         (VectorZero exact_arith 2)) \<and>
   fst (solve_cascade exact_arith exact_eigen 2 (fst small_equations) (snd small_equations)) = [] \<and>
   \<not> fst (ldlt_solve exact_eigen singular_M singular_B (VectorZero exact_arith 2)) \<and>
   \<not> fst (llt_solve exact_eigen singular_M singular_B (VectorZero exact_arith 2)) \<and>
   \<not> fst (lu_solve exact_eigen singular_M singular_B (VectorZero exact_arith 2)) \<and>
   (\<exists>Soln. snd (solve_cascade exact_arith exact_eigen 2 singular_M singular_B) = Inr Soln \<and>
           vcoeff Soln 0 = Some 2 \<and> vcoeff Soln 1 = Some 0)"
  using solver_cascade_order [of exact_arith 2 exact_eigen "fst small_equations" "snd small_equations"]
    solver_cascade_order [of exact_arith 2 exact_eigen singular_M singular_B]
  by (simp add: Let_def small_Soln singular_fails singular_eigen)
     (simp add: exact_eigen_def ex_mat_vec_def ex_mat_mul_def ex_asDiagonal_def transpose_m_def
        pseudo_inverse_values_def exact_arith_def singular_M_def singular_B_def upt_0_2)

section \<open>Properties of checking and storing\<close>

subsection \<open>The loops over the kernel pixels\<close>

lemma nth_update_total:
  "(xs[k := v]) ! i = (if i = k \<and> k < length xs then v else xs ! i)"
  by (cases "k < length xs") (auto simp: nth_list_update list_update_beyond not_less)

lemma translate_body_Inr:
  "translate_body ar Soln E (idx, kv, ke) = Inr s' \<longleftrightarrow>
     entry_ok ar Soln E idx \<and>
     s' = (idx + 1, kv[idx := vcoeff Soln idx], ke[idx := d_sqrt ar (coeff E (idx, idx))])"
  by (auto simp: translate_body_def entry_ok_def)

lemma cols_loop_Inr:
  "for_each xs (\<lambda>col. translate_body ar Soln E) (idx, kv, ke) = Inr (idx', kv', ke') \<Longrightarrow>
   idx' = idx + length xs \<and> length kv' = length kv \<and> length ke' = length ke \<and>
   (\<forall>i. kv' ! i = (if idx \<le> i \<and> i < idx + length xs \<and> i < length kv
                    then vcoeff Soln i else kv ! i)) \<and>
   (\<forall>i. ke' ! i = (if idx \<le> i \<and> i < idx + length xs \<and> i < length ke
                    then d_sqrt ar (coeff E (i, i)) else ke ! i)) \<and>
   (\<forall>i. idx \<le> i \<and> i < idx + length xs \<longrightarrow> entry_ok ar Soln E i)"
proof (induction xs arbitrary: idx kv ke)
  case Nil
  then show ?case by auto
next
  case (Cons x xs)
  from Cons.prems obtain s1 where s1: "translate_body ar Soln E (idx, kv, ke) = Inr s1"
    and rest: "for_each xs (\<lambda>col. translate_body ar Soln E) s1 = Inr (idx', kv', ke')"
    by (auto split: sum.splits)
  from s1 have ok: "entry_ok ar Soln E idx"
    and s1_eq: "s1 = (idx + 1, kv[idx := vcoeff Soln idx], ke[idx := d_sqrt ar (coeff E (idx, idx))])"
    by (simp_all add: translate_body_Inr)
  note IH = Cons.IH [OF rest [unfolded s1_eq]]
  have kv: "kv' ! i = (if idx \<le> i \<and> i < idx + length (x # xs) \<and> i < length kv
                    then vcoeff Soln i else kv ! i)" for i
  proof -
    have "kv' ! i = (if idx + 1 \<le> i \<and> i < idx + 1 + length xs \<and>
                        i < length (kv[idx := vcoeff Soln idx])
                     then vcoeff Soln i else kv[idx := vcoeff Soln idx] ! i)"
      using IH by blast
    then show ?thesis by (auto simp: nth_update_total)
  qed
  have ke: "ke' ! i = (if idx \<le> i \<and> i < idx + length (x # xs) \<and> i < length ke
                    then d_sqrt ar (coeff E (i, i)) else ke ! i)" for i
  proof -
    have "ke' ! i = (if idx + 1 \<le> i \<and> i < idx + 1 + length xs \<and>
                        i < length (ke[idx := d_sqrt ar (coeff E (idx, idx))])
                     then d_sqrt ar (coeff E (i, i))
                     else ke[idx := d_sqrt ar (coeff E (idx, idx))] ! i)"
      using IH by blast
    then show ?thesis by (auto simp: nth_update_total)
  qed
  have okall: "entry_ok ar Soln E i" if "idx \<le> i" "i < idx + length (x # xs)" for i
  proof (cases "i = idx")
    case True
    then show ?thesis using ok by simp
  next
    case False
    then show ?thesis using IH that by simp
  qed
  have "idx' = idx + length (x # xs)" "length kv' = length kv" "length ke' = length ke"
    using IH by simp_all
  then show ?case using kv ke okall by blast
qed

lemma rows_loop_Inr:
  "for_each rs (\<lambda>row. for_each cs (\<lambda>col. translate_body ar Soln E)) (idx, kv, ke) =
     Inr (idx', kv', ke') \<Longrightarrow>
   idx' = idx + length rs * length cs \<and> length kv' = length kv \<and> length ke' = length ke \<and>
   (\<forall>i. kv' ! i = (if idx \<le> i \<and> i < idx + length rs * length cs \<and> i < length kv
                    then vcoeff Soln i else kv ! i)) \<and>
   (\<forall>i. ke' ! i = (if idx \<le> i \<and> i < idx + length rs * length cs \<and> i < length ke
                    then d_sqrt ar (coeff E (i, i)) else ke ! i)) \<and>
   (\<forall>i. idx \<le> i \<and> i < idx + length rs * length cs \<longrightarrow> entry_ok ar Soln E i)"
proof (induction rs arbitrary: idx kv ke)
  case Nil
  then show ?case by auto
next
  case (Cons r rs)
  from Cons.prems obtain idx1 kv1 ke1
    where row: "for_each cs (\<lambda>col. translate_body ar Soln E) (idx, kv, ke) = Inr (idx1, kv1, ke1)"
    and rest: "for_each rs (\<lambda>row. for_each cs (\<lambda>col. translate_body ar Soln E)) (idx1, kv1, ke1) =
                 Inr (idx', kv', ke')"
    by (auto split: sum.splits)
  note R = cols_loop_Inr [OF row]
  note IH = Cons.IH [OF rest]
  have idx1: "idx1 = idx + length cs" using R by simp
  have idx': "idx' = idx + length (r # rs) * length cs" using IH idx1 by simp
  have lens: "length kv' = length kv" "length ke' = length ke" using R IH by simp_all
  have kv: "kv' ! i = (if idx \<le> i \<and> i < idx + length (r # rs) * length cs \<and> i < length kv
                    then vcoeff Soln i else kv ! i)" for i
  proof -
    have "kv' ! i = (if idx1 \<le> i \<and> i < idx1 + length rs * length cs \<and> i < length kv1
                    then vcoeff Soln i else kv1 ! i)" using IH by blast
    moreover have "kv1 ! i = (if idx \<le> i \<and> i < idx + length cs \<and> i < length kv
                    then vcoeff Soln i else kv ! i)" using R by blast
    moreover have "length kv1 = length kv" using R by simp
    ultimately show ?thesis using idx1 by auto
  qed
  have ke: "ke' ! i = (if idx \<le> i \<and> i < idx + length (r # rs) * length cs \<and> i < length ke
                    then d_sqrt ar (coeff E (i, i)) else ke ! i)" for i
  proof -
    have "ke' ! i = (if idx1 \<le> i \<and> i < idx1 + length rs * length cs \<and> i < length ke1
                    then d_sqrt ar (coeff E (i, i)) else ke1 ! i)" using IH by blast
    moreover have "ke1 ! i = (if idx \<le> i \<and> i < idx + length cs \<and> i < length ke
                    then d_sqrt ar (coeff E (i, i)) else ke ! i)" using R by blast
    moreover have "length ke1 = length ke" using R by simp
    ultimately show ?thesis using idx1 by auto
  qed
  have ok: "entry_ok ar Soln E i" if "idx \<le> i" "i < idx + length (r # rs) * length cs" for i
  proof (cases "i < idx1")
    case True
    then show ?thesis using R that idx1 by simp
  next
    case False
    then show ?thesis using IH that idx1 by simp
  qed
  show ?case using idx' lens kv ke ok by blast
qed

lemma translate_Inr:
  assumes "translate ar kCols kRows Soln E = Inr (idx, kValues, kErrValues)"
    and "0 \<le> kCols" "0 \<le> kRows"
  shows "idx = nat (kCols * kRows) \<and>
         kValues = map (vcoeff Soln) [0 ..< nat (kCols * kRows)] \<and>
         kErrValues = map (\<lambda>i. d_sqrt ar (coeff E (i, i))) [0 ..< nat (kCols * kRows)] \<and>
         (\<forall>i < nat (kCols * kRows). entry_ok ar Soln E i)"
proof -
  let ?K = "nat (kCols * kRows)"
  have K: "?K = nat kRows * nat kCols"
    using assms(2,3) by (simp add: nat_mult_distrib mult.commute)
  have nonneg: "\<not> kCols * kRows < 0" using assms(2,3) by (simp add: not_less)
  from assms(1) have loop:
    "for_each [0 ..< nat kRows] (\<lambda>row. for_each [0 ..< nat kCols] (\<lambda>col. translate_body ar Soln E))
       (0, replicate ?K (d_zero ar), replicate ?K (d_zero ar)) = Inr (idx, kValues, kErrValues)"
    using nonneg by (simp add: translate_def)
  note R = rows_loop_Inr [OF loop]
  have 1: "idx = ?K" using R K by simp
  have 2: "kValues = map (vcoeff Soln) [0 ..< ?K]"
  proof (rule nth_equalityI)
    show "length kValues = length (map (vcoeff Soln) [0 ..< ?K])" using R by simp
  next
    fix i assume "i < length kValues"
    then have i: "i < ?K" using R by simp
    have "kValues ! i = vcoeff Soln i" using R i K by simp
    then show "kValues ! i = map (vcoeff Soln) [0 ..< ?K] ! i" using i by simp
  qed
  have 3: "kErrValues = map (\<lambda>i. d_sqrt ar (coeff E (i, i))) [0 ..< ?K]"
  proof (rule nth_equalityI)
    show "length kErrValues = length (map (\<lambda>i. d_sqrt ar (coeff E (i, i))) [0 ..< ?K])"
      using R by simp
  next
    fix i assume "i < length kErrValues"
    then have i: "i < ?K" using R by simp
    have "kErrValues ! i = d_sqrt ar (coeff E (i, i))" using R i K by simp
    then show "kErrValues ! i = map (\<lambda>i. d_sqrt ar (coeff E (i, i))) [0 ..< ?K] ! i"
      using i by simp
  qed
  have 4: "\<forall>i < ?K. entry_ok ar Soln E i" using R K by simp
  show ?thesis using 1 2 3 4 by blast
qed

subsection \<open>Exceptions and what they leave behind\<close>

lemma store_solution_cases:
  "store_solution ar kCols kRows nP Soln E this = (r, this') \<Longrightarrow>
   (case translate ar kCols kRows Soln E of
      Inl e \<Rightarrow> r = Inl e \<and> this' = this
    | Inr (idx, kValues, kErrValues) \<Rightarrow>
        basisList this' = basisList this \<and>
        kernel this' = Some (LinearCombinationKernel (basisList this) kValues) \<and>
        kernelError this' = Some (LinearCombinationKernel (basisList this) kErrValues) \<and>
        (if d_isnan ar (coeff E (nP - 1, nP - 1))
         then r = Inl BackgroundUncertaintyNaN \<and>
              background this' = background this \<and> backgroundError this' = backgroundError this
         else if d_lt ar (coeff E (nP - 1, nP - 1)) (d_zero ar)
         then r = Inl BackgroundUncertaintyNegative \<and>
              background this' = background this \<and> backgroundError this' = backgroundError this
         else r = Inr () \<and> background this' = vcoeff Soln (nP - 1) \<and>
              backgroundError this' = d_sqrt ar (coeff E (nP - 1, nP - 1))))"
  by (auto simp: store_solution_def Let_def split: sum.splits if_splits)

lemma for_each_kernel_exn:
  "for_each xs (\<lambda>col. translate_body ar Soln E) s = Inl e \<Longrightarrow>
   \<exists>idx. e = KernelSolutionNaN idx \<or> e = KernelUncertaintyNaN idx \<or>
         e = KernelUncertaintyNegative idx"
proof (induction xs arbitrary: s)
  case Nil
  then show ?case by simp
next
  case (Cons x xs)
  show ?case
  proof (cases "translate_body ar Soln E s")
    case (Inl e')
    then have "e' = e" using Cons.prems by simp
    then show ?thesis
      using Inl by (cases s) (auto simp: translate_body_def split: if_splits)
  next
    case (Inr s')
    then show ?thesis using Cons by simp
  qed
qed

lemma for_each_rows_kernel_exn:
  "for_each rs (\<lambda>row. for_each cs (\<lambda>col. translate_body ar Soln E)) s = Inl e \<Longrightarrow>
   \<exists>idx. e = KernelSolutionNaN idx \<or> e = KernelUncertaintyNaN idx \<or>
         e = KernelUncertaintyNegative idx"
proof (induction rs arbitrary: s)
  case Nil
  then show ?case by simp
next
  case (Cons r rs)
  show ?case
  proof (cases "for_each cs (\<lambda>col. translate_body ar Soln E) s")
    case (Inl e')
    then have "e' = e" using Cons.prems by simp
    then show ?thesis using Inl for_each_kernel_exn by blast
  next
    case (Inr s')
    then show ?thesis using Cons by simp
  qed
qed

lemma translate_Inl:
  "translate ar kCols kRows Soln E = Inl e \<Longrightarrow>
   e = VectorLength \<or>
   (\<exists>idx. e = KernelSolutionNaN idx \<or> e = KernelUncertaintyNaN idx \<or>
          e = KernelUncertaintyNegative idx)"
  using for_each_rows_kernel_exn
  by (fastforce simp: translate_def split: if_splits)

lemma solve_cascade_Inl:
  "snd (solve_cascade ar eg n M B) = Inl e \<Longrightarrow> e = KernelSolutionFailed"
  by (auto simp: solve_cascade_def Let_def split_beta split: if_splits option.splits)

lemma apply_steps:
  "PsfMatchingFunctor_apply ar eg conv itc nc var pol this =
     (if basisList this = [] then (Inl EmptyBasisList, this)
      else case fit_solution ar eg conv itc nc var (basisList this) of
             Inl e \<Rightarrow> (Inl e, this)
           | Inr Soln \<Rightarrow>
               store_solution ar (kernelCols pol) (kernelRows pol) (length (basisList this) + 1)
                 Soln (fit_covariance ar eg conv itc nc var (basisList this)) this)"
  by (cases "basisList this")
     (simp_all add: PsfMatchingFunctor_apply_def reset_def Let_def split_beta
        fit_solution_def fit_covariance_def fit_equations_def split: sum.split)

subsection \<open>The small fit through the whole of apply\<close>

lemma small_fit_equations:
  "fit_equations exact_arith conv_delta img_c0 img_nc img_var [k33] = small_equations"
  by (simp add: fit_equations_def small_equations_def window_start_def window_end_def
      convolve_def k33_def img_c0_def)

lemma small_fit_solution:
  "fit_solution exact_arith exact_eigen conv_delta img_c0 img_nc img_var [k33] =
     Inr (ex_mat_vec (ex_inverse (fst small_equations)) (snd small_equations))"
  by (simp add: fit_solution_def small_fit_equations solve_cascade_def Let_def small_Soln)

lemma small_fit_covariance:
  "fit_covariance exact_arith exact_eigen conv_delta img_c0 img_nc img_var [k33] =
     error_covariance exact_eigen (fst small_equations)"
  by (simp add: fit_covariance_def small_fit_equations)

lemma sqrt_quarter: "sqrt (1 / 4) = 1 / 2"
  by (simp add: real_sqrt_divide)

lemma small_fit_store:
  "PsfMatchingFunctor_apply exact_arith exact_eigen conv_delta img_c0 img_nc img_var pol11 functor0 =
     store_solution exact_arith 1 1 2
       (ex_mat_vec (ex_inverse (fst small_equations)) (snd small_equations))
       (error_covariance exact_eigen (fst small_equations)) functor0"
proof -
  have bl: "basisList functor0 = [k33]" by (simp add: functor0_def)
  show ?thesis
    by (simp add: apply_steps bl small_fit_solution small_fit_covariance pol11_def
        numeral_2_eq_2)
qed

lemma small_fit_result:
  "PsfMatchingFunctor_apply exact_arith exact_eigen conv_delta img_c0 img_nc img_var pol11 functor0 =
     (Inr (), functor0\<lparr>kernel := Some (LinearCombinationKernel [k33] [Some 1]),
                       kernelError := Some (LinearCombinationKernel [k33] [Some (1 / 2)]),
                       background := Some 3, backgroundError := Some (1 / 2)\<rparr>)"
  unfolding small_fit_store
  by (simp add: store_solution_def translate_def translate_body_def small_Soln small_Error2
      exact_arith_def sqrt_quarter Let_def functor0_def)

section \<open>The uncertainties of a fit\<close>

text \<open>
  Claim C5. The error covariance is not the inverse of M: it is formed as Cov = M^T * M,
  L the lower-triangular Cholesky factor of Cov, and (L^T)^-1 * L^-1; the uncertainty of
  every parameter a fit stores is the square root of the matching diagonal entry.
\<close>

theorem uncertainties_from_error_covariance:
  assumes "PsfMatchingFunctor_apply ar eg conv itc nc var pol this = (Inr (), this')"
    and "0 \<le> kernelCols pol" and "0 \<le> kernelRows pol"
  shows "let M = fst (fit_equations ar conv itc nc var (basisList this));
             Cov = mat_mul eg (transpose_m M) M;
             L = llt_matrixL eg Cov;
             ErrorCovariance = fit_covariance ar eg conv itc nc var (basisList this);
             N = length (basisList this)
         in ErrorCovariance = mat_mul eg (inverse_m eg (transpose_m L)) (inverse_m eg L) \<and>
            kernelError this' =
              Some (LinearCombinationKernel (basisList this)
                      (map (\<lambda>i. d_sqrt ar (coeff ErrorCovariance (i, i)))
                         [0 ..< nat (kernelCols pol * kernelRows pol)])) \<and>
            backgroundError this' = d_sqrt ar (coeff ErrorCovariance (N, N))"
proof -
  let ?E = "fit_covariance ar eg conv itc nc var (basisList this)"
  from assms(1) obtain Soln where
    store: "store_solution ar (kernelCols pol) (kernelRows pol) (length (basisList this) + 1)
              Soln ?E this = (Inr (), this')"
    by (auto simp: apply_steps split: if_splits sum.splits)
  note C = store_solution_cases [OF store]
  from C obtain idx kValues kErrValues where
    tr: "translate ar (kernelCols pol) (kernelRows pol) Soln ?E = Inr (idx, kValues, kErrValues)"
    by (cases "translate ar (kernelCols pol) (kernelRows pol) Soln ?E") auto
  from C tr have ke: "kernelError this' = Some (LinearCombinationKernel (basisList this) kErrValues)"
    and be: "backgroundError this' =
               d_sqrt ar (coeff ?E (length (basisList this), length (basisList this)))"
    by (auto split: if_splits)
  from translate_Inr [OF tr assms(2,3)]
  have "kErrValues = map (\<lambda>i. d_sqrt ar (coeff ?E (i, i)))
                       [0 ..< nat (kernelCols pol * kernelRows pol)]"
    by simp
  with ke be show ?thesis
    by (simp add: Let_def fit_covariance_def error_covariance_def)
qed

lemma exact_sqrt_quarter: "d_sqrt exact_arith (Some (1 / 4)) = Some (1 / 2)"
  by (simp add: exact_arith_def sqrt_quarter)

theorem uncertainties_from_error_covariance_witness:
  "PsfMatchingFunctor_apply exact_arith exact_eigen conv_delta img_c0 img_nc img_var pol11 functor0 =
     (Inr (), functor0\<lparr>kernel := Some (LinearCombinationKernel [k33] [Some 1]),
                       kernelError := Some (LinearCombinationKernel [k33] [Some (1 / 2)]),
                       background := Some 3, backgroundError := Some (1 / 2)\<rparr>) \<and>
   (0::int) \<le> kernelCols pol11 \<and> (0::int) \<le> kernelRows pol11 \<and>
   coeff (fit_covariance exact_arith exact_eigen conv_delta img_c0 img_nc img_var [k33]) (0, 0) =
     Some (1 / 4) \<and>
   coeff (inverse_m exact_eigen
            (fst (fit_equations exact_arith conv_delta img_c0 img_nc img_var [k33]))) (0, 0) =
     Some (1 / 2) \<and>
   Some (LinearCombinationKernel [k33] [Some (1 / 2)]) =
     Some (LinearCombinationKernel [k33]
             [d_sqrt exact_arith
                (coeff (fit_covariance exact_arith exact_eigen conv_delta img_c0 img_nc img_var
                          [k33]) (0, 0))])"
proof -
  have pol: "(0::int) \<le> kernelCols pol11" "(0::int) \<le> kernelRows pol11"
    by (simp_all add: pol11_def)
  have bl: "basisList functor0 = [k33]" by (simp add: functor0_def)
  have K: "[0 ..< nat (kernelCols pol11 * kernelRows pol11)] = [0]"
    by (simp add: pol11_def)
  note th = uncertainties_from_error_covariance [OF small_fit_result pol, unfolded Let_def bl K]
  from th have ke: "Some (LinearCombinationKernel [k33] [Some (1 / 2)]) =
     Some (LinearCombinationKernel [k33]
             [d_sqrt exact_arith
                (coeff (fit_covariance exact_arith exact_eigen conv_delta img_c0 img_nc img_var
                          [k33]) (0, 0))])"
    by simp
  have inv: "coeff (inverse_m exact_eigen (fst small_equations)) (0, 0) = Some (1 / 2)"
    by (simp add: exact_eigen_def ex_inverse_def small_det small_M)
  have cov: "coeff (fit_covariance exact_arith exact_eigen conv_delta img_c0 img_nc img_var [k33])
               (0, 0) = Some (1 / 4)"
    by (simp add: small_fit_covariance small_Error2)
  show ?thesis
    using small_fit_result pol cov inv ke by (simp add: small_fit_equations)
qed

section \<open>Failed fits\<close>

lemma stub_solution:
  "fit_solution exact_arith (stub_eigen Soln E2) conv_delta img_c0 img_nc img_var [k33] = Inr Soln"
  by (simp add: fit_solution_def solve_cascade_def stub_eigen_def Let_def)

lemma stub_covariance:
  "fit_covariance exact_arith (stub_eigen Soln E2) conv_delta img_c0 img_nc img_var [k33] = E2"
  by (simp add: fit_covariance_def error_covariance_def stub_eigen_def Let_def)

lemma stub_store:
  "PsfMatchingFunctor_apply exact_arith (stub_eigen Soln E2) conv_delta img_c0 img_nc img_var
       pol11 functor0 =
     store_solution exact_arith 1 1 2 Soln E2 functor0"
proof -
  have bl: "basisList functor0 = [k33]" by (simp add: functor0_def)
  show ?thesis
    by (simp add: apply_steps bl stub_solution stub_covariance pol11_def numeral_2_eq_2)
qed

lemma stub_negative_background:
  "PsfMatchingFunctor_apply exact_arith (stub_eigen (vec2 (Some 1) (Some 3)) (diag2 (Some (1 / 4)) (Some (- 1))))
       conv_delta img_c0 img_nc img_var pol11 functor0 =
     (Inl BackgroundUncertaintyNegative,
      functor0\<lparr>kernel := Some (LinearCombinationKernel [k33] [Some 1]),
               kernelError := Some (LinearCombinationKernel [k33] [Some (1 / 2)])\<rparr>)"
  unfolding stub_store
  by (simp add: store_solution_def translate_def translate_body_def vec2_def diag2_def
      exact_arith_def sqrt_quarter Let_def functor0_def)

lemma stub_nan_kernel:
  "PsfMatchingFunctor_apply exact_arith (stub_eigen (vec2 None (Some 3)) (diag2 (Some (1 / 4)) (Some (1 / 4))))
       conv_delta img_c0 img_nc img_var pol11 functor0 =
     (Inl (KernelSolutionNaN 0), functor0)"
  unfolding stub_store
  by (simp add: store_solution_def translate_def translate_body_def vec2_def diag2_def
      exact_arith_def Let_def)


text \<open>
  Claim C10. When apply throws because a kernel-indexed solution coefficient is
  not-a-number, or a kernel-indexed diagonal uncertainty is not-a-number or negative, the
  functor is as it was before the call. When it throws at the check of the background
  uncertainty, the kernel and the kernel uncertainty are already those of the new fit,
  while the background and its error are the old ones: a failed fit is not atomic.
\<close>

theorem failed_fit_not_atomic:
  assumes "PsfMatchingFunctor_apply ar eg conv itc nc var pol this = (Inl e, this')"
  shows "((\<exists>idx. e = KernelSolutionNaN idx \<or> e = KernelUncertaintyNaN idx \<or>
                 e = KernelUncertaintyNegative idx) \<longrightarrow> this' = this) \<and>
         ((e = BackgroundUncertaintyNaN \<or> e = BackgroundUncertaintyNegative) \<and>
          0 \<le> kernelCols pol \<and> 0 \<le> kernelRows pol \<longrightarrow>
            (\<exists>Soln. fit_solution ar eg conv itc nc var (basisList this) = Inr Soln \<and>
               kernel this' =
                 Some (LinearCombinationKernel (basisList this)
                         (map (vcoeff Soln) [0 ..< nat (kernelCols pol * kernelRows pol)])) \<and>
               kernelError this' =
                 Some (LinearCombinationKernel (basisList this)
                         (map (\<lambda>i. d_sqrt ar
                                   (coeff (fit_covariance ar eg conv itc nc var (basisList this))
                                      (i, i)))
                            [0 ..< nat (kernelCols pol * kernelRows pol)]))) \<and>
            background this' = background this \<and>
            backgroundError this' = backgroundError this \<and>
            basisList this' = basisList this)"
proof (cases "basisList this = []")
  case True
  then show ?thesis using assms by (auto simp: apply_steps)
next
  case False
  let ?E = "fit_covariance ar eg conv itc nc var (basisList this)"
  show ?thesis
  proof (cases "fit_solution ar eg conv itc nc var (basisList this)")
    case (Inl e')
    then have "e = e'" "this' = this" using assms False by (simp_all add: apply_steps)
    moreover have "e' = KernelSolutionFailed"
      using Inl solve_cascade_Inl by (auto simp: fit_solution_def)
    ultimately show ?thesis by simp
  next
    case (Inr Soln)
    then have store: "store_solution ar (kernelCols pol) (kernelRows pol)
        (length (basisList this) + 1) Soln ?E this = (Inl e, this')"
      using assms False by (simp add: apply_steps)
    note C = store_solution_cases [OF store]
    show ?thesis
    proof (cases "translate ar (kernelCols pol) (kernelRows pol) Soln ?E")
      case (Inl e')
      then have "e = e'" "this' = this" using C by simp_all
      moreover have "e' \<noteq> BackgroundUncertaintyNaN" "e' \<noteq> BackgroundUncertaintyNegative"
        using translate_Inl [OF Inl] by auto
      ultimately show ?thesis by simp
    next
      case tr: (Inr r)
      obtain idx kValues kErrValues where r: "r = (idx, kValues, kErrValues)"
        by (cases r)
      from C tr r have bg: "e = BackgroundUncertaintyNaN \<or> e = BackgroundUncertaintyNegative"
        and frame: "background this' = background this"
          "backgroundError this' = backgroundError this" "basisList this' = basisList this"
        and k: "kernel this' = Some (LinearCombinationKernel (basisList this) kValues)"
        and ke: "kernelError this' = Some (LinearCombinationKernel (basisList this) kErrValues)"
        by (auto split: if_splits)
      have vals: "kValues = map (vcoeff Soln) [0 ..< nat (kernelCols pol * kernelRows pol)] \<and>
            kErrValues = map (\<lambda>i. d_sqrt ar (coeff ?E (i, i)))
                           [0 ..< nat (kernelCols pol * kernelRows pol)]"
        if "0 \<le> kernelCols pol" "0 \<le> kernelRows pol"
        using translate_Inr [OF tr [unfolded r] that] by simp
      show ?thesis
        using bg frame k ke vals Inr by auto
    qed
  qed
qed


theorem failed_fit_not_atomic_witness:
  "PsfMatchingFunctor_apply exact_arith (stub_eigen (vec2 None (Some 3)) (diag2 (Some (1 / 4)) (Some (1 / 4))))
       conv_delta img_c0 img_nc img_var pol11 functor0 =
     (Inl (KernelSolutionNaN 0), functor0) \<and>
   PsfMatchingFunctor_apply exact_arith (stub_eigen (vec2 (Some 1) (Some 3)) (diag2 (Some (1 / 4)) (Some (- 1))))
       conv_delta img_c0 img_nc img_var pol11 functor0 =
     (Inl BackgroundUncertaintyNegative,
      functor0\<lparr>kernel := Some (LinearCombinationKernel [k33] [Some 1]),
               kernelError := Some (LinearCombinationKernel [k33] [Some (1 / 2)])\<rparr>) \<and>
   (0::int) \<le> kernelCols pol11 \<and> (0::int) \<le> kernelRows pol11 \<and>
   functor0\<lparr>kernel := Some (LinearCombinationKernel [k33] [Some 1]),
            kernelError := Some (LinearCombinationKernel [k33] [Some (1 / 2)])\<rparr> \<noteq> functor0 \<and>
   background (functor0\<lparr>kernel := Some (LinearCombinationKernel [k33] [Some 1]),
            kernelError := Some (LinearCombinationKernel [k33] [Some (1 / 2)])\<rparr>) =
     background functor0"
  using failed_fit_not_atomic [OF stub_nan_kernel] failed_fit_not_atomic [OF stub_negative_background]
    stub_nan_kernel stub_negative_background
  by (simp add: pol11_def functor0_def)

text \<open>
  Claim C6, at an input where the code does not do what the claim says. The claim: the fit
  fails whenever any solution coefficient is not-a-number. The loop of lines 321 to 342
  checks the kernel coefficients, but the background coefficient \<open>Soln(nParameters-1)\<close>
  is stored at line 356 unchecked: with the solution (1, not-a-number) and the error
  covariance diag(1/4, 1/4) the fit returns normally and stores a background that is
  not-a-number.
\<close>

theorem nan_background_is_stored:
  "d_isnan exact_arith (vcoeff (vec2 (Some 1) None) 1) \<and>
   PsfMatchingFunctor_apply exact_arith
       (stub_eigen (vec2 (Some 1) None) (diag2 (Some (1 / 4)) (Some (1 / 4))))
       conv_delta img_c0 img_nc img_var pol11 functor0 =
     (Inr (),
      functor0\<lparr>kernel := Some (LinearCombinationKernel [k33] [Some 1]),
               kernelError := Some (LinearCombinationKernel [k33] [Some (1 / 2)]),
               background := None, backgroundError := Some (1 / 2)\<rparr>)"
  unfolding stub_store
  by (simp add: store_solution_def translate_def translate_body_def vec2_def diag2_def
      exact_arith_def sqrt_quarter Let_def functor0_def)

subsection \<open>The checks, exactly\<close>

lemma cols_loop_ok:
  "(\<forall>i. idx \<le> i \<and> i < idx + length xs \<longrightarrow> entry_ok ar Soln E i) \<Longrightarrow>
   \<exists>s'. for_each xs (\<lambda>col. translate_body ar Soln E) (idx, kv, ke) = Inr s'"
proof (induction xs arbitrary: idx kv ke)
  case Nil
  then show ?case by simp
next
  case (Cons x xs)
  then have ok: "entry_ok ar Soln E idx" by simp
  have "\<forall>i. idx + 1 \<le> i \<and> i < idx + 1 + length xs \<longrightarrow> entry_ok ar Soln E i"
    using Cons.prems by simp
  from Cons.IH [OF this] ok show ?case
    by (simp add: translate_body_def entry_ok_def)
qed

lemma rows_loop_ok:
  "(\<forall>i. idx \<le> i \<and> i < idx + length rs * length cs \<longrightarrow> entry_ok ar Soln E i) \<Longrightarrow>
   \<exists>s'. for_each rs (\<lambda>row. for_each cs (\<lambda>col. translate_body ar Soln E)) (idx, kv, ke) = Inr s'"
proof (induction rs arbitrary: idx kv ke)
  case Nil
  then show ?case by simp
next
  case (Cons r rs)
  have "\<forall>i. idx \<le> i \<and> i < idx + length cs \<longrightarrow> entry_ok ar Soln E i"
    using Cons.prems by simp
  from cols_loop_ok [OF this] obtain s1
    where s1: "for_each cs (\<lambda>col. translate_body ar Soln E) (idx, kv, ke) = Inr s1" by blast
  obtain idx1 kv1 ke1 where s1_eq: "s1 = (idx1, kv1, ke1)" by (cases s1)
  have idx1: "idx1 = idx + length cs"
    using cols_loop_Inr [OF s1 [unfolded s1_eq]] by simp
  have "\<forall>i. idx1 \<le> i \<and> i < idx1 + length rs * length cs \<longrightarrow> entry_ok ar Soln E i"
    using Cons.prems idx1 by simp
  from Cons.IH [OF this] show ?case
    by (simp add: s1 s1_eq)
qed

lemma translate_ok:
  assumes "0 \<le> kCols" "0 \<le> kRows" "\<forall>i < nat (kCols * kRows). entry_ok ar Soln E i"
  shows "\<exists>r. translate ar kCols kRows Soln E = Inr r"
proof -
  have K: "nat (kCols * kRows) = nat kRows * nat kCols"
    using assms(1,2) by (simp add: nat_mult_distrib mult.commute)
  have nonneg: "\<not> kCols * kRows < 0" using assms(1,2) by (simp add: not_less)
  have "\<forall>i. 0 \<le> i \<and> i < 0 + length [0 ..< nat kRows] * length [0 ..< nat kCols] \<longrightarrow>
            entry_ok ar Soln E i"
    using assms(3) K by simp
  from rows_loop_ok [OF this] show ?thesis
    using nonneg by (simp add: translate_def)
qed

text \<open>
  Beyond the claims: the checks of lines 319 to 357, exactly. For a kernel grid of
  non-negative dimensions the fit stores its results when every kernel-indexed solution
  coefficient is a number, every kernel-indexed diagonal uncertainty is a number and not
  negative, and the background uncertainty is a number and not negative; it throws in
  every other case. The background coefficient itself takes no part in the decision.
\<close>

theorem checks_of_the_fit:
  assumes "0 \<le> kCols" and "0 \<le> kRows"
  shows "(fst (store_solution ar kCols kRows nP Soln E this) = Inr ()) =
           ((\<forall>i < nat (kCols * kRows). entry_ok ar Soln E i) \<and>
            \<not> d_isnan ar (coeff E (nP - 1, nP - 1)) \<and>
            \<not> d_lt ar (coeff E (nP - 1, nP - 1)) (d_zero ar))"
proof (cases "translate ar kCols kRows Soln E")
  case (Inl e)
  have "\<not> (\<forall>i < nat (kCols * kRows). entry_ok ar Soln E i)"
  proof
    assume "\<forall>i < nat (kCols * kRows). entry_ok ar Soln E i"
    from translate_ok [OF assms this] Inl show False by simp
  qed
  then show ?thesis
    using Inl by (simp add: store_solution_def)
next
  case (Inr r)
  obtain idx kv ke where r: "r = (idx, kv, ke)" by (cases r)
  from translate_Inr [OF Inr [unfolded r] assms]
  have "\<forall>i < nat (kCols * kRows). entry_ok ar Soln E i" by simp
  then show ?thesis
    using Inr r by (simp add: store_solution_def Let_def)
qed

theorem checks_of_the_fit_witness:
  "(0::int) \<le> 1 \<and>
   fst (store_solution exact_arith 1 1 2 (vec2 (Some 1) None) (diag2 (Some (1 / 4)) (Some (1 / 4)))
          functor0) = Inr () \<and>
   entry_ok exact_arith (vec2 (Some 1) None) (diag2 (Some (1 / 4)) (Some (1 / 4))) 0"
proof -
  have one: "(0::int) \<le> 1" by simp
  have e: "entry_ok exact_arith (vec2 (Some 1) None) (diag2 (Some (1 / 4)) (Some (1 / 4))) 0"
    by (simp add: entry_ok_def vec2_def diag2_def exact_arith_fields)
  have "(fst (store_solution exact_arith 1 1 2 (vec2 (Some 1) None)
                (diag2 (Some (1 / 4)) (Some (1 / 4))) functor0) = Inr ()) =
        ((\<forall>i < nat (1 * 1). entry_ok exact_arith (vec2 (Some 1) None)
                                (diag2 (Some (1 / 4)) (Some (1 / 4))) i) \<and>
         \<not> d_isnan exact_arith (coeff (diag2 (Some (1 / 4)) (Some (1 / 4))) (2 - 1, 2 - 1)) \<and>
         \<not> d_lt exact_arith (coeff (diag2 (Some (1 / 4)) (Some (1 / 4))) (2 - 1, 2 - 1))
              (d_zero exact_arith))"
    by (rule checks_of_the_fit [OF one one])
  then show ?thesis
    using e by (simp add: diag2_def exact_arith_fields)
qed

section \<open>Properties of the footprint search\<close>

subsection \<open>One pass\<close>

lemma foldl_or_eq_0:
  "foldl (\<lambda>bits p. bits OR f p) a ps = (0 :: 16 word) \<longleftrightarrow> a = 0 \<and> (\<forall>p \<in> set ps. f p = 0)"
  by (induction ps arbitrary: a) (auto simp: or_eq_0_iff)

lemma FindSetBits_gt_0:
  "FindSetBits msk fp > 0 \<longleftrightarrow> (\<exists>p \<in> set (fpPixels fp). pixel msk p \<noteq> 0)"
  by (simp add: FindSetBits_def word_greater_zero_iff foldl_or_eq_0)

lemma extract_both_iff:
  "extract_both det itc itnc bb \<longleftrightarrow> subImage det itc bb \<noteq> None \<and> subImage det itnc bb \<noteq> None"
  by (auto simp: extract_both_def split: option.splits)

lemma examine_footprint_eq:
  "examine_footprint det (word_of_int (fpNpixMax pol)) (fpGrowPix ar pol) itc itnc fp =
     (if passes_all_checks ar det pol itc itnc fp
      then Inr (growFootprint det fp (fpGrowPix ar pol) False)
      else Inl (if exceeds_max pol fp then TooManyPix
                else if \<not> extracts det itc itnc (growFootprint det fp (fpGrowPix ar pol) False)
                then ExtractionFailed
                else if \<not> unmasked itc (growFootprint det fp (fpGrowPix ar pol) False)
                then BadPixToConvolve else BadPixNotToConvolve))"
  by (auto simp: examine_footprint_def passes_all_checks_def Let_def extracts_def unmasked_def
      extract_both_iff FindSetBits_gt_0 list_all_iff exceeds_max_def)

lemma examine_all_eq:
  "examine_all det (word_of_int (fpNpixMax pol)) (fpGrowPix ar pol) itc itnc fps (out, n) =
     (out @ map (\<lambda>fp. growFootprint det fp (fpGrowPix ar pol) False)
              (filter (passes_all_checks ar det pol itc itnc) fps),
      n + int (length (filter (passes_all_checks ar det pol itc itnc) fps)))"
  by (induction fps arbitrary: out n) (simp_all add: examine_footprint_eq)

lemma one_pass_eq:
  "one_pass ar det pol itc itnc thr =
     (let clean = map (\<lambda>fp. growFootprint det fp (fpGrowPix ar pol) False)
                    (filter (passes_all_checks ar det pol itc itnc)
                       (getFootprints det itc thr (detThresholdType pol)
                          (word_of_int (fpNpixMin pol))))
      in (clean, int (length clean)))"
  by (simp add: one_pass_def examine_all_eq Let_def)

lemma word_less_int:
  assumes "0 \<le> n" "n < 2 ^ 32" "0 \<le> m" "m < 2 ^ 32"
  shows "(word_of_int n :: 32 word) > word_of_int m \<longleftrightarrow> n > m"
proof -
  have "uint (word_of_int n :: 32 word) = n" "uint (word_of_int m :: 32 word) = m"
    using assms by (simp_all add: uint_word_of_int take_bit_int_eq_self)
  then show ?thesis by (simp add: word_less_def)
qed

subsection \<open>The concrete detection library, evaluated\<close>

lemma plane_pixels: "window_pixels (0, 0) (5, 3) =
  [(0,0),(1,0),(2,0),(3,0),(4,0),(0,1),(1,1),(2,1),(3,1),(4,1),(0,2),(1,2),(2,2),(3,2),(4,2)]"
  by (simp add: window_pixels_def upto.simps)

lemma grow_pix_11: "fpGrowPix exact_arith pol11 = 1"
  by (simp add: fpGrowPix_def pol11_def exact_arith_def)

lemma city_block_1: "city_block 1 (x, y) = [(x - 1, y), (x, y - 1), (x, y), (x, y + 1), (x + 1, y)]"
  by (simp add: city_block_def upto.simps)

lemma detected_sources_2:
  "getFootprints exact_detection sources (Some 2) t m =
     [pixel_footprint (4, 0), pixel_footprint (1, 1), pixel_footprint (3, 1)]"
  by (simp add: exact_detection_def ex_getFootprints_def sources_def plane_def plane_pixels)

lemma detected_sources_high:
  "3 \<le> t \<Longrightarrow> getFootprints exact_detection sources (Some t) ty m = []"
  by (simp add: exact_detection_def ex_getFootprints_def sources_def plane_def plane_pixels)

lemma grow_pixel_footprint:
  "growFootprint exact_detection (pixel_footprint (x, y)) 1 False =
     \<lparr>getNpix = 5, getBBox = \<lparr>bbX0 = x - 1, bbY0 = y - 1, bbX1 = x + 1, bbY1 = y + 1\<rparr>,
      fpPixels = [(x - 1, y), (x, y - 1), (x, y), (x, y + 1), (x + 1, y)]\<rparr>"
  by (simp add: exact_detection_def ex_growFootprint_def pixel_footprint_def city_block_1)

lemma pol11_fields:
  "fpNpixMax pol11 = 100" "fpNpixMin pol11 = 1" "minCleanFp pol11 = 1"
  "detThreshold pol11 = Some 8" "detThresholdScaling pol11 = Some (1 / 2)"
  "detThresholdMin pol11 = Some 1" "kernelCols pol11 = 1" "kernelRows pol11 = 1"
  by (simp_all add: pol11_def)

lemma exact_detection_fields:
  "subImage exact_detection = ex_subImage"
  "getNpix (pixel_footprint p) = 1"
  by (simp_all add: exact_detection_def pixel_footprint_def)

lemma checks_sources_masked:
  "\<not> passes_all_checks exact_arith exact_detection pol11 sources masked (pixel_footprint (4, 0))"
  "passes_all_checks exact_arith exact_detection pol11 sources masked (pixel_footprint (1, 1))"
  "\<not> passes_all_checks exact_arith exact_detection pol11 sources masked (pixel_footprint (3, 1))"
  by (simp_all add: passes_all_checks_def grow_pix_11 grow_pixel_footprint Let_def
      extracts_def unmasked_def bbox_shift_def pol11_fields exact_detection_fields exceeds_max_def
      ex_subImage_def sources_def masked_def plane_def)

text \<open>
  Claim C8. In one pass every detected region is discarded when its pixel count exceeds
  fpNpixMax; otherwise it is grown by int(fpGrowKsize * max(kernelCols, kernelRows))
  pixels, not isotropically; the region is skipped, without an error, when the grown
  region cannot be extracted from either image, and rejected when its extent holds a
  masked pixel of either image; the regions that pass are kept, as grown, in the order of
  detection.
\<close>

theorem one_pass_keeps_the_clean_grown_regions:
  "let detected = getFootprints det itc thr (detThresholdType pol) (word_of_int (fpNpixMin pol));
       grow = (\<lambda>fp. growFootprint det fp
                 (int_of_d ar (d_mul ar (fpGrowKsize pol)
                                (d_of_int ar (max (kernelCols pol) (kernelRows pol)))))
                 False);
       kept = filter (\<lambda>fp. \<not> exceeds_max pol fp \<and> extracts det itc itnc (grow fp) \<and>
                            unmasked itc (grow fp) \<and> unmasked itnc (grow fp)) detected
   in one_pass ar det pol itc itnc thr = (map grow kept, int (length kept)) \<and>
      (\<forall>fp. 0 \<le> getNpix fp \<and> getNpix fp < 2 ^ 32 \<and> 0 \<le> fpNpixMax pol \<and> fpNpixMax pol < 2 ^ 32 \<longrightarrow>
            exceeds_max pol fp = (fpNpixMax pol < getNpix fp))"
proof -
  have g: "fpGrowPix ar pol =
      int_of_d ar (d_mul ar (fpGrowKsize pol) (d_of_int ar (max (kernelCols pol) (kernelRows pol))))"
    by (simp add: fpGrowPix_def max_def not_less)
  have p: "passes_all_checks ar det pol itc itnc =
      (\<lambda>fp. \<not> exceeds_max pol fp \<and>
            extracts det itc itnc (growFootprint det fp (fpGrowPix ar pol) False) \<and>
            unmasked itc (growFootprint det fp (fpGrowPix ar pol) False) \<and>
            unmasked itnc (growFootprint det fp (fpGrowPix ar pol) False))"
    by (simp add: passes_all_checks_def fun_eq_iff Let_def)
  show ?thesis
    unfolding Let_def one_pass_eq p g [symmetric]
    by (simp add: exceeds_max_def word_less_int)
qed

lemma one_pass_sources_masked:
  "one_pass exact_arith exact_detection pol11 sources masked (Some 2) =
     ([growFootprint exact_detection (pixel_footprint (1, 1)) 1 False], 1)"
  by (simp add: one_pass_eq detected_sources_2 checks_sources_masked grow_pix_11 Let_def)

theorem one_pass_keeps_the_clean_grown_regions_witness:
  "(0::int) \<le> getNpix (pixel_footprint (1, 1)) \<and> getNpix (pixel_footprint (1, 1)) < 2 ^ 32 \<and>
   (0::int) \<le> fpNpixMax pol11 \<and> fpNpixMax pol11 < 2 ^ 32 \<and>
   \<not> exceeds_max pol11 (pixel_footprint (1, 1)) \<and>
   getFootprints exact_detection sources (Some 2) (detThresholdType pol11)
       (word_of_int (fpNpixMin pol11)) =
     [pixel_footprint (4, 0), pixel_footprint (1, 1), pixel_footprint (3, 1)] \<and>
   one_pass exact_arith exact_detection pol11 sources masked (Some 2) =
     ([\<lparr>getNpix = 5, getBBox = \<lparr>bbX0 = 0, bbY0 = 0, bbX1 = 2, bbY1 = 2\<rparr>,
        fpPixels = [(0, 1), (1, 0), (1, 1), (1, 2), (2, 1)]\<rparr>], 1)"
proof -
  note th = one_pass_keeps_the_clean_grown_regions
              [of exact_detection sources "Some 2" pol11 exact_arith masked, unfolded Let_def]
  have n: "(0::int) \<le> getNpix (pixel_footprint (1, 1)) \<and> getNpix (pixel_footprint (1, 1)) < 2 ^ 32 \<and>
           (0::int) \<le> fpNpixMax pol11 \<and> fpNpixMax pol11 < 2 ^ 32"
    by (simp add: pol11_fields exact_detection_fields)
  from th n have "exceeds_max pol11 (pixel_footprint (1, 1)) =
                    (fpNpixMax pol11 < getNpix (pixel_footprint (1, 1)))"
    by blast
  then have e: "\<not> exceeds_max pol11 (pixel_footprint (1, 1))"
    by (simp add: pol11_fields exact_detection_fields)
  show ?thesis
    using n e by (simp add: detected_sources_2 one_pass_sources_masked grow_pixel_footprint)
qed

subsection \<open>The loop over the thresholds\<close>

lemma threshold_loop_unroll:
  "(\<forall>j<k. loop_cond ar pol ((loop_body ar det pol itc itnc ^^ j) s)) \<Longrightarrow>
   threshold_loop ar det pol itc itnc s =
     threshold_loop ar det pol itc itnc ((loop_body ar det pol itc itnc ^^ k) s)"
proof (induction k)
  case 0
  then show ?case by simp
next
  case (Suc k)
  then have "threshold_loop ar det pol itc itnc s =
      threshold_loop ar det pol itc itnc ((loop_body ar det pol itc itnc ^^ k) s)"
    and c: "loop_cond ar pol ((loop_body ar det pol itc itnc ^^ k) s)"
    by simp_all
  then show ?case
    by (simp add: threshold_loop.simps [of ar det pol itc itnc "(loop_body ar det pol itc itnc ^^ k) s"])
qed

lemma threshold_loop_stops:
  assumes "\<forall>j<k. loop_cond ar pol ((loop_body ar det pol itc itnc ^^ j) s)"
    and "\<not> loop_cond ar pol ((loop_body ar det pol itc itnc ^^ k) s)"
  shows "threshold_loop ar det pol itc itnc s = Some ((loop_body ar det pol itc itnc ^^ k) s)"
  using threshold_loop_unroll [OF assms(1)] assms(2)
  by (simp add: threshold_loop.simps [of ar det pol itc itnc "(loop_body ar det pol itc itnc ^^ k) s"])

lemma first_failure:
  assumes "\<not> P (n::nat)"
  shows "\<exists>k\<le>n. (\<forall>j<k. P j) \<and> \<not> P k"
proof -
  let ?k = "LEAST k. \<not> P k"
  have "\<not> P ?k" using assms by (rule LeastI)
  moreover have "?k \<le> n" using assms by (rule Least_le)
  moreover have "\<forall>j<?k. P j" using not_less_Least by blast
  ultimately show ?thesis by blast
qed

lemma state_after_Suc:
  "state_after ar det pol itc itnc (Suc k) =
     loop_body ar det pol itc itnc (state_after ar det pol itc itnc k)"
  by (simp add: state_after_def)

lemma state_after_threshold:
  "fst (snd (state_after ar det pol itc itnc k)) = threshold_after ar pol k"
proof (induction k)
  case 0
  then show ?case by (simp add: state_after_def threshold_after_def)
next
  case (Suc k)
  then show ?case
    by (simp add: state_after_Suc threshold_after_def loop_body_def split_beta Let_def)
qed

lemma state_after_shape:
  "state_after ar det pol itc itnc k =
     (let out = (if k = 0 then []
                 else fst (one_pass ar det pol itc itnc (threshold_after ar pol (k - 1))))
      in (int (length out), threshold_after ar pol k, out))"
proof (cases k)
  case 0
  then show ?thesis by (simp add: state_after_def threshold_after_def)
next
  case (Suc j)
  have t: "fst (snd (state_after ar det pol itc itnc j)) = threshold_after ar pol j"
    by (rule state_after_threshold)
  have "state_after ar det pol itc itnc (Suc j) =
      (snd (one_pass ar det pol itc itnc (threshold_after ar pol j)),
       d_mul ar (threshold_after ar pol j) (detThresholdScaling pol),
       fst (one_pass ar det pol itc itnc (threshold_after ar pol j)))"
    using t by (simp add: state_after_Suc loop_body_def split_beta Let_def)
  moreover have "snd (one_pass ar det pol itc itnc thr) =
      int (length (fst (one_pass ar det pol itc itnc thr)))" for thr
    by (simp add: one_pass_eq Let_def)
  moreover have "d_mul ar (threshold_after ar pol j) (detThresholdScaling pol) =
      threshold_after ar pol (Suc j)"
    by (simp add: threshold_after_def)
  ultimately show ?thesis using Suc by (simp add: Let_def)
qed

lemma threshold_loop_None:
  fixes ar :: "('p, 'v, 'd) arith"
  assumes "Inv s"
    and "\<And>s. Inv s \<Longrightarrow> loop_cond ar pol s \<and> Inv (loop_body ar det pol itc itnc s)"
  shows "threshold_loop ar det pol itc itnc s = None"
proof -
  define P where "P = (\<lambda>ar' det' pol' itc' itnc' s' (y :: int \<times> 'd \<times> Footprint list).
      ar' = ar \<and> det' = det \<and> pol' = pol \<and> itc' = itc \<and> itnc' = itnc \<longrightarrow> \<not> Inv s')"
  have main: "P ar det pol itc itnc s y" if "threshold_loop ar det pol itc itnc s = Some y" for y
  proof (rule threshold_loop.raw_induct [where P = P, OF _ that])
    fix f ar' det' pol' itc' itnc' s' y'
    assume IH: "\<And>a b c d e g z. f a b c d e g = Some z \<Longrightarrow> P a b c d e g z"
      and eq: "(if loop_cond ar' pol' s'
                then f ar' det' pol' itc' itnc' (loop_body ar' det' pol' itc' itnc' s')
                else Some s') = Some y'"
    show "P ar' det' pol' itc' itnc' s' y'"
      unfolding P_def
    proof (intro impI notI)
      assume par: "ar' = ar \<and> det' = det \<and> pol' = pol \<and> itc' = itc \<and> itnc' = itnc"
        and i: "Inv s'"
      from assms(2) [OF i] have c: "loop_cond ar pol s'"
        and i': "Inv (loop_body ar det pol itc itnc s')" by simp_all
      from eq par c have "f ar det pol itc itnc (loop_body ar det pol itc itnc s') = Some y'"
        by simp
      from IH [OF this] i' show False by (simp add: P_def)
    qed
  qed
  show ?thesis
  proof (cases "threshold_loop ar det pol itc itnc s")
    case None
    then show ?thesis .
  next
    case (Some y)
    from main [OF Some] assms(1) show ?thesis by (simp add: P_def)
  qed
qed

subsection \<open>The search, run by run\<close>

lemma search_result:
  assumes "\<forall>j<k. loop_cond ar pol (state_after ar det pol itc itnc j)"
    and "\<not> loop_cond ar pol (state_after ar det pol itc itnc k)"
  shows "getCollectionOfFootprintsForPsfMatching ar det itc itnc pol =
           Some (let out = snd (snd (state_after ar det pol itc itnc k))
                 in if out = [] then Inl NoFootprints else Inr out)"
proof -
  have "threshold_loop ar det pol itc itnc (0, detThreshold pol, []) =
          Some (state_after ar det pol itc itnc k)"
    using threshold_loop_stops [of k ar pol det itc itnc "(0, detThreshold pol, [])"] assms
    by (simp add: state_after_def)
  then show ?thesis
    by (simp add: getCollectionOfFootprintsForPsfMatching_def split_beta Let_def)
qed

lemma state_after_last_pass:
  "state_after ar det pol itc itnc k =
     (int (length (last_pass ar det pol itc itnc k)), threshold_after ar pol k,
      last_pass ar det pol itc itnc k)"
  by (simp add: state_after_shape [of ar det pol itc itnc k] last_pass_def Let_def)

lemma running_iff:
  "running ar det pol itc itnc k \<longleftrightarrow>
     int (length (last_pass ar det pol itc itnc k)) < minCleanFp pol \<and>
     d_lt ar (detThresholdMin pol) (threshold_after ar pol k)"
  by (simp add: running_def state_after_last_pass [of ar det pol itc itnc k] loop_cond_def)

lemma search_ends:
  assumes "\<forall>j<k. running ar det pol itc itnc j" and "\<not> running ar det pol itc itnc k"
  shows "getCollectionOfFootprintsForPsfMatching ar det itc itnc pol =
           Some (if last_pass ar det pol itc itnc k = [] then Inl NoFootprints
                 else Inr (last_pass ar det pol itc itnc k))"
  using search_result [of k ar pol det itc itnc] assms
  by (simp add: running_def state_after_last_pass [of ar det pol itc itnc k] Let_def)

lemma search_runs_for_ever:
  assumes "\<forall>n. running ar det pol itc itnc n"
  shows "getCollectionOfFootprintsForPsfMatching ar det itc itnc pol = None"
proof -
  have "threshold_loop ar det pol itc itnc (0, detThreshold pol, []) = None"
  proof (rule threshold_loop_None [where Inv = "\<lambda>s. \<exists>n. s = state_after ar det pol itc itnc n"])
    show "\<exists>n. (0, detThreshold pol, []) = state_after ar det pol itc itnc n"
      by (rule exI [of _ 0]) (simp add: state_after_def)
  next
    fix s
    assume "\<exists>n. s = state_after ar det pol itc itnc n"
    then obtain n where s: "s = state_after ar det pol itc itnc n" ..
    have "loop_cond ar pol s" using assms s by (simp add: running_def)
    moreover have "loop_body ar det pol itc itnc s = state_after ar det pol itc itnc (Suc n)"
      using s by (simp add: state_after_Suc)
    ultimately show "loop_cond ar pol s \<and>
        (\<exists>n. loop_body ar det pol itc itnc s = state_after ar det pol itc itnc n)"
      by blast
  qed
  then show ?thesis by (simp add: getCollectionOfFootprintsForPsfMatching_def)
qed

text \<open>
  Claim C7, as amended. After k passes the loop holds the threshold multiplied k times by
  the decay factor and the clean footprints of the latest pass alone, every pass starting
  its list afresh. It makes another pass while the count of these footprints is below
  minCleanFp and the threshold is above the floor. A search that stops after k passes,
  whichever of the two tests ends it, returns the footprints of that last pass, and throws
  "Unable to find any footprints" exactly when there are none; in particular it succeeds
  once a pass has collected minCleanFp footprints and at least one. When n multiplications
  bring the threshold to the floor or below, or when the n-th pass meets the quota, the
  search stops after at most n passes. It returns exactly when the test of the loop fails
  after some number of passes, and never returns otherwise.
\<close>

theorem search_ends_with_the_last_pass:
  "(\<forall>k. state_after ar det pol itc itnc k =
          (int (length (last_pass ar det pol itc itnc k)), threshold_after ar pol k,
           last_pass ar det pol itc itnc k)) \<and>
   (\<forall>k. running ar det pol itc itnc k \<longleftrightarrow>
          int (length (last_pass ar det pol itc itnc k)) < minCleanFp pol \<and>
          d_lt ar (detThresholdMin pol) (threshold_after ar pol k)) \<and>
   (\<forall>k. (\<forall>j<k. running ar det pol itc itnc j) \<and> \<not> running ar det pol itc itnc k \<longrightarrow>
          getCollectionOfFootprintsForPsfMatching ar det itc itnc pol =
            Some (if last_pass ar det pol itc itnc k = [] then Inl NoFootprints
                  else Inr (last_pass ar det pol itc itnc k))) \<and>
   (\<forall>k. (\<forall>j<k. running ar det pol itc itnc j) \<and>
          minCleanFp pol \<le> int (length (last_pass ar det pol itc itnc k)) \<and>
          last_pass ar det pol itc itnc k \<noteq> [] \<longrightarrow>
          getCollectionOfFootprintsForPsfMatching ar det itc itnc pol =
            Some (Inr (last_pass ar det pol itc itnc k))) \<and>
   (\<forall>n. \<not> d_lt ar (detThresholdMin pol) (threshold_after ar pol n) \<or>
          minCleanFp pol \<le> int (length (last_pass ar det pol itc itnc n)) \<longrightarrow>
          (\<exists>k\<le>n. (\<forall>j<k. running ar det pol itc itnc j) \<and>
                  \<not> running ar det pol itc itnc k \<and>
                  getCollectionOfFootprintsForPsfMatching ar det itc itnc pol =
                    Some (if last_pass ar det pol itc itnc k = [] then Inl NoFootprints
                          else Inr (last_pass ar det pol itc itnc k)))) \<and>
   (getCollectionOfFootprintsForPsfMatching ar det itc itnc pol \<noteq> None \<longleftrightarrow>
      (\<exists>n. \<not> running ar det pol itc itnc n))"
proof (intro conjI allI impI)
  fix k
  show "state_after ar det pol itc itnc k =
          (int (length (last_pass ar det pol itc itnc k)), threshold_after ar pol k,
           last_pass ar det pol itc itnc k)"
    by (rule state_after_last_pass)
  show "running ar det pol itc itnc k \<longleftrightarrow>
          int (length (last_pass ar det pol itc itnc k)) < minCleanFp pol \<and>
          d_lt ar (detThresholdMin pol) (threshold_after ar pol k)"
    by (rule running_iff)
next
  fix k
  assume "(\<forall>j<k. running ar det pol itc itnc j) \<and> \<not> running ar det pol itc itnc k"
  then show "getCollectionOfFootprintsForPsfMatching ar det itc itnc pol =
            Some (if last_pass ar det pol itc itnc k = [] then Inl NoFootprints
                  else Inr (last_pass ar det pol itc itnc k))"
    by (simp add: search_ends)
next
  fix k
  assume a: "(\<forall>j<k. running ar det pol itc itnc j) \<and>
          minCleanFp pol \<le> int (length (last_pass ar det pol itc itnc k)) \<and>
          last_pass ar det pol itc itnc k \<noteq> []"
  then have "\<not> running ar det pol itc itnc k"
    by (simp add: running_iff [of ar det pol itc itnc k])
  moreover from a have "\<forall>j<k. running ar det pol itc itnc j" by blast
  ultimately have "getCollectionOfFootprintsForPsfMatching ar det itc itnc pol =
            Some (if last_pass ar det pol itc itnc k = [] then Inl NoFootprints
                  else Inr (last_pass ar det pol itc itnc k))"
    using search_ends [of k ar det pol itc itnc] by blast
  with a show "getCollectionOfFootprintsForPsfMatching ar det itc itnc pol =
            Some (Inr (last_pass ar det pol itc itnc k))"
    by simp
next
  fix n
  assume "\<not> d_lt ar (detThresholdMin pol) (threshold_after ar pol n) \<or>
          minCleanFp pol \<le> int (length (last_pass ar det pol itc itnc n))"
  then have "\<not> running ar det pol itc itnc n"
    by (auto simp: running_iff [of ar det pol itc itnc n])
  from first_failure [of "running ar det pol itc itnc" n, OF this]
  obtain k where k: "k \<le> n" "\<forall>j<k. running ar det pol itc itnc j"
    "\<not> running ar det pol itc itnc k"
    by blast
  from search_ends [OF k(2,3)] k
  show "\<exists>k\<le>n. (\<forall>j<k. running ar det pol itc itnc j) \<and>
                  \<not> running ar det pol itc itnc k \<and>
                  getCollectionOfFootprintsForPsfMatching ar det itc itnc pol =
                    Some (if last_pass ar det pol itc itnc k = [] then Inl NoFootprints
                          else Inr (last_pass ar det pol itc itnc k))"
    by blast
next
  show "getCollectionOfFootprintsForPsfMatching ar det itc itnc pol \<noteq> None \<longleftrightarrow>
      (\<exists>n. \<not> running ar det pol itc itnc n)"
  proof
    assume returns: "getCollectionOfFootprintsForPsfMatching ar det itc itnc pol \<noteq> None"
    show "\<exists>n. \<not> running ar det pol itc itnc n"
    proof (rule ccontr)
      assume "\<not> (\<exists>n. \<not> running ar det pol itc itnc n)"
      then have "\<forall>n. running ar det pol itc itnc n" by simp
      from search_runs_for_ever [OF this] returns show False by simp
    qed
  next
    assume "\<exists>n. \<not> running ar det pol itc itnc n"
    then obtain n where "\<not> running ar det pol itc itnc n" ..
    from first_failure [of "running ar det pol itc itnc" n, OF this]
    obtain k where "\<forall>j<k. running ar det pol itc itnc j" "\<not> running ar det pol itc itnc k"
      by blast
    from search_ends [OF this]
    show "getCollectionOfFootprintsForPsfMatching ar det itc itnc pol \<noteq> None" by simp
  qed
qed

lemma pol_no_decay_fields:
  "minCleanFp pol_no_decay = 1" "detThreshold pol_no_decay = Some 8"
  "detThresholdScaling pol_no_decay = Some 1" "detThresholdMin pol_no_decay = Some 1"
  by (simp_all add: pol_no_decay_def pol11_def)

lemma one_pass_blank:
  "one_pass exact_arith exact_detection pol_no_decay blank blank (Some 8) = ([], 0)"
  by (simp add: one_pass_eq Let_def exact_detection_def ex_getFootprints_def blank_def
      plane_def plane_pixels)

text \<open>
  Claim C7 as it is written says that the loop always ends. With a decay factor of 1, a
  quota of one clean footprint and a blank image, the threshold stays at 8, above the floor
  of 1, no footprint is ever found and the search never returns.
\<close>

theorem search_never_returns_counterexample:
  "getCollectionOfFootprintsForPsfMatching exact_arith exact_detection blank blank pol_no_decay =
     None"
proof -
  have "threshold_loop exact_arith exact_detection pol_no_decay blank blank (0, Some 8, []) = None"
  proof (rule threshold_loop_None [where Inv = "\<lambda>s. s = (0, Some 8, [])"])
    show "(0, Some 8, []) = (0 :: int, Some (8 :: real), [] :: Footprint list)" by simp
  next
    fix s :: "int \<times> real option \<times> Footprint list"
    assume "s = (0, Some 8, [])"
    then show "loop_cond exact_arith pol_no_decay s \<and>
               loop_body exact_arith exact_detection pol_no_decay blank blank s = (0, Some 8, [])"
      by (simp add: loop_cond_def loop_body_def one_pass_blank pol_no_decay_fields
          exact_arith_fields)
  qed
  then show ?thesis
    by (simp add: getCollectionOfFootprintsForPsfMatching_def pol_no_decay_fields)
qed

subsection \<open>Three searches: ended by the floor, by the quota, and without a pass\<close>

lemma thresholds_pol11:
  "threshold_after exact_arith pol11 0 = Some 8"
  "threshold_after exact_arith pol11 (Suc 0) = Some 4"
  "threshold_after exact_arith pol11 (Suc (Suc 0)) = Some 2"
  "threshold_after exact_arith pol11 (Suc (Suc (Suc 0))) = Some 1"
  by (simp_all add: threshold_after_def pol11_fields exact_arith_fields)

lemma one_pass_sources_high:
  "3 \<le> t \<Longrightarrow> one_pass exact_arith exact_detection pol11 sources masked (Some t) = ([], 0)"
  by (simp add: one_pass_eq Let_def detected_sources_high)

lemma last_pass_pol11:
  "last_pass exact_arith exact_detection pol11 sources masked 0 = []"
  "last_pass exact_arith exact_detection pol11 sources masked (Suc 0) = []"
  "last_pass exact_arith exact_detection pol11 sources masked (Suc (Suc 0)) = []"
  "last_pass exact_arith exact_detection pol11 sources masked (Suc (Suc (Suc 0))) =
     [growFootprint exact_detection (pixel_footprint (1, 1)) 1 False]"
  by (simp_all add: last_pass_def thresholds_pol11 one_pass_sources_high
      one_pass_sources_masked)

lemma running_pol11:
  "running exact_arith exact_detection pol11 sources masked 0"
  "running exact_arith exact_detection pol11 sources masked (Suc 0)"
  "running exact_arith exact_detection pol11 sources masked (Suc (Suc 0))"
  "\<not> running exact_arith exact_detection pol11 sources masked (Suc (Suc (Suc 0)))"
  by (simp_all add: running_iff last_pass_pol11 thresholds_pol11 pol11_fields
      exact_arith_fields)

lemma pol_quota_fields:
  "minCleanFp pol_quota = 1" "detThreshold pol_quota = Some 2"
  "detThresholdScaling pol_quota = Some 1" "detThresholdMin pol_quota = Some 1"
  by (simp_all add: pol_quota_def pol11_def)

lemma thresholds_pol_quota:
  "threshold_after exact_arith pol_quota n = Some 2"
  by (induction n) (simp_all add: threshold_after_def pol_quota_fields exact_arith_fields)

lemma one_pass_pol_quota:
  "one_pass exact_arith exact_detection pol_quota itc itnc t =
     one_pass exact_arith exact_detection pol11 itc itnc t"
  by (simp add: one_pass_def fpGrowPix_def pol_quota_def)

lemma last_pass_pol_quota:
  "last_pass exact_arith exact_detection pol_quota sources masked 0 = []"
  "last_pass exact_arith exact_detection pol_quota sources masked (Suc 0) =
     [growFootprint exact_detection (pixel_footprint (1, 1)) 1 False]"
  by (simp_all add: last_pass_def thresholds_pol_quota one_pass_pol_quota
      one_pass_sources_masked)

lemma running_pol_quota:
  "running exact_arith exact_detection pol_quota sources masked 0"
  "\<not> running exact_arith exact_detection pol_quota sources masked (Suc 0)"
  by (simp_all add: running_iff last_pass_pol_quota thresholds_pol_quota pol_quota_fields
      exact_arith_fields)

lemma running_pol_zero_quota:
  "\<not> running exact_arith exact_detection pol_zero_quota sources masked 0"
  by (simp add: running_iff last_pass_def pol_zero_quota_def)

theorem search_ends_with_the_last_pass_witness:
  "running exact_arith exact_detection pol11 sources masked 0 \<and>
   running exact_arith exact_detection pol11 sources masked 1 \<and>
   running exact_arith exact_detection pol11 sources masked 2 \<and>
   \<not> running exact_arith exact_detection pol11 sources masked 3 \<and>
   \<not> d_lt exact_arith (detThresholdMin pol11) (threshold_after exact_arith pol11 3) \<and>
   getCollectionOfFootprintsForPsfMatching exact_arith exact_detection sources masked pol11 =
     Some (Inr [\<lparr>getNpix = 5, getBBox = \<lparr>bbX0 = 0, bbY0 = 0, bbX1 = 2, bbY1 = 2\<rparr>,
                 fpPixels = [(0, 1), (1, 0), (1, 1), (1, 2), (2, 1)]\<rparr>]) \<and>
   running exact_arith exact_detection pol_quota sources masked 0 \<and>
   minCleanFp pol_quota \<le>
     int (length (last_pass exact_arith exact_detection pol_quota sources masked 1)) \<and>
   d_lt exact_arith (detThresholdMin pol_quota) (threshold_after exact_arith pol_quota 1) \<and>
   getCollectionOfFootprintsForPsfMatching exact_arith exact_detection sources masked pol_quota =
     Some (Inr [\<lparr>getNpix = 5, getBBox = \<lparr>bbX0 = 0, bbY0 = 0, bbX1 = 2, bbY1 = 2\<rparr>,
                 fpPixels = [(0, 1), (1, 0), (1, 1), (1, 2), (2, 1)]\<rparr>]) \<and>
   \<not> running exact_arith exact_detection pol_zero_quota sources masked 0 \<and>
   getCollectionOfFootprintsForPsfMatching exact_arith exact_detection sources masked
       pol_zero_quota = Some (Inl NoFootprints)"
proof -
  have three: "(3::nat) = Suc (Suc (Suc 0))" by simp
  have below_3: "running exact_arith exact_detection pol11 sources masked j" if "j < 3" for j
  proof -
    from that consider "j = 0" | "j = Suc 0" | "j = Suc (Suc 0)" by linarith
    then show ?thesis by cases (simp_all add: running_pol11)
  qed
  note floor_run = search_ends_with_the_last_pass
    [of exact_arith exact_detection pol11 sources masked]
  note quota_run = search_ends_with_the_last_pass
    [of exact_arith exact_detection pol_quota sources masked]
  note no_run = search_ends_with_the_last_pass
    [of exact_arith exact_detection pol_zero_quota sources masked]
  have "getCollectionOfFootprintsForPsfMatching exact_arith exact_detection sources masked pol11 =
      Some (if last_pass exact_arith exact_detection pol11 sources masked 3 = []
            then Inl NoFootprints
            else Inr (last_pass exact_arith exact_detection pol11 sources masked 3))"
  proof -
    have "\<forall>j<3. running exact_arith exact_detection pol11 sources masked j"
      using below_3 by blast
    moreover have "\<not> running exact_arith exact_detection pol11 sources masked 3"
      by (simp add: three running_pol11)
    ultimately show ?thesis using floor_run by blast
  qed
  then have r1: "getCollectionOfFootprintsForPsfMatching exact_arith exact_detection sources
        masked pol11 =
      Some (Inr [\<lparr>getNpix = 5, getBBox = \<lparr>bbX0 = 0, bbY0 = 0, bbX1 = 2, bbY1 = 2\<rparr>,
                  fpPixels = [(0, 1), (1, 0), (1, 1), (1, 2), (2, 1)]\<rparr>])"
    by (simp add: three last_pass_pol11 grow_pixel_footprint)
  have below_1: "running exact_arith exact_detection pol_quota sources masked j" if "j < 1" for j
    using that by (simp add: running_pol_quota)
  have q: "minCleanFp pol_quota \<le>
      int (length (last_pass exact_arith exact_detection pol_quota sources masked 1))"
    "last_pass exact_arith exact_detection pol_quota sources masked 1 \<noteq> []"
    by (simp_all add: last_pass_pol_quota pol_quota_fields)
  have "getCollectionOfFootprintsForPsfMatching exact_arith exact_detection sources masked
        pol_quota =
      Some (Inr (last_pass exact_arith exact_detection pol_quota sources masked 1))"
  proof -
    have "\<forall>j<1. running exact_arith exact_detection pol_quota sources masked j"
      using below_1 by blast
    then show ?thesis using quota_run q by blast
  qed
  then have r2: "getCollectionOfFootprintsForPsfMatching exact_arith exact_detection sources
        masked pol_quota =
      Some (Inr [\<lparr>getNpix = 5, getBBox = \<lparr>bbX0 = 0, bbY0 = 0, bbX1 = 2, bbY1 = 2\<rparr>,
                  fpPixels = [(0, 1), (1, 0), (1, 1), (1, 2), (2, 1)]\<rparr>])"
    by (simp add: last_pass_pol_quota grow_pixel_footprint)
  have "getCollectionOfFootprintsForPsfMatching exact_arith exact_detection sources masked
        pol_zero_quota =
      Some (if last_pass exact_arith exact_detection pol_zero_quota sources masked 0 = []
            then Inl NoFootprints
            else Inr (last_pass exact_arith exact_detection pol_zero_quota sources masked 0))"
  proof -
    have "\<forall>j<0. running exact_arith exact_detection pol_zero_quota sources masked j"
      by simp
    then show ?thesis using no_run running_pol_zero_quota by blast
  qed
  then have r3: "getCollectionOfFootprintsForPsfMatching exact_arith exact_detection sources
        masked pol_zero_quota = Some (Inl NoFootprints)"
    by (simp add: last_pass_def)
  have t: "\<not> d_lt exact_arith (detThresholdMin pol11) (threshold_after exact_arith pol11 3)"
    "d_lt exact_arith (detThresholdMin pol_quota) (threshold_after exact_arith pol_quota 1)"
    by (simp_all add: three thresholds_pol11 thresholds_pol_quota pol11_fields pol_quota_fields
        exact_arith_fields)
  have n: "(1::nat) = Suc 0" "(2::nat) = Suc (Suc 0)" by simp_all
  show ?thesis
    using r1 r2 r3 t q(1) running_pol11 running_pol_quota running_pol_zero_quota
    by (simp add: three n)
qed

section \<open>Properties of convolveAndSubtract\<close>

lemma xPos_at_next: "0 \<le> x \<Longrightarrow> d_add ar (xPos_at ar x) (d_one ar) = xPos_at ar (x + 1)"
  by (simp add: xPos_at_def nat_add_distrib)

lemma image_pixel_eqI:
  assumes "\<And>p. g p = pixel a p"
  shows "a\<lparr>pixel := g\<rparr> = a"
proof -
  have "g = pixel a" using assms by (simp add: fun_eq_iff)
  then show ?thesis by simp
qed

lemma image_pixel_cong:
  assumes "\<And>p. g p = h p"
  shows "a\<lparr>pixel := g\<rparr> = a\<lparr>pixel := h\<rparr>"
proof -
  have "g = h" using assms by (simp add: fun_eq_iff)
  then show ?thesis by simp
qed

lemma add_function_pixels:
  "- 1 \<le> j \<Longrightarrow>
   foldl (add_function_pixel ar f y yPos) (xPos_at ar 0, img) [0 .. j] =
     (xPos_at ar (j + 1),
      img\<lparr>pixel := (\<lambda>p. if snd p = y \<and> 0 \<le> fst p \<and> fst p \<le> j
                         then p_of_d ar (d_add ar (d_of_p ar (pixel img p))
                                           (f (xPos_at ar (fst p)) yPos))
                         else pixel img p)\<rparr>)"
proof (induction "nat (j + 1)" arbitrary: j)
  case 0
  then have j: "j = - 1" by simp
  have "img\<lparr>pixel := (\<lambda>p. if snd p = y \<and> 0 \<le> fst p \<and> fst p \<le> j
                         then p_of_d ar (d_add ar (d_of_p ar (pixel img p))
                                           (f (xPos_at ar (fst p)) yPos))
                         else pixel img p)\<rparr> = img"
    by (rule image_pixel_eqI) (use j in auto)
  then show ?case using j by simp
next
  case (Suc n)
  then have j: "0 \<le> j" and n: "n = nat ((j - 1) + 1)" and j1: "- 1 \<le> j - 1" by auto
  have up: "[0 .. j] = [0 .. j - 1] @ [j]" using j by (simp add: upto_rec2)
  show ?case
    unfolding up foldl_append Suc.hyps(1) [OF n j1]
    using j by (auto simp: add_function_pixel_def xPos_at_next intro!: image_pixel_cong)
qed

lemma add_function_row_eq:
  "add_function_row ar f img y =
     img\<lparr>pixel := (\<lambda>p. if snd p = y \<and> 0 \<le> fst p \<and> fst p < getWidth img
                        then p_of_d ar (d_add ar (d_of_p ar (pixel img p))
                                          (f (xPos_at ar (fst p)) (positionToIndex ar y)))
                        else pixel img p)\<rparr>"
proof (cases "0 \<le> getWidth img")
  case True
  have x0: "positionToIndex ar 0 = xPos_at ar 0" by (simp add: xPos_at_def)
  show ?thesis
    using True
    by (auto simp: add_function_row_def Let_def x0 add_function_pixels intro!: image_pixel_cong)
next
  case False
  then have "add_function_row ar f img y = img"
    by (simp add: add_function_row_def Let_def)
  moreover have "img\<lparr>pixel := (\<lambda>p. if snd p = y \<and> 0 \<le> fst p \<and> fst p < getWidth img
                        then p_of_d ar (d_add ar (d_of_p ar (pixel img p))
                                          (f (xPos_at ar (fst p)) (positionToIndex ar y)))
                        else pixel img p)\<rparr> = img"
    by (rule image_pixel_eqI) (use False in auto)
  ultimately show ?thesis by simp
qed

lemma add_function_rows:
  "- 1 \<le> j \<Longrightarrow>
   foldl (add_function_row ar f) img [0 .. j] =
     img\<lparr>pixel := (\<lambda>p. if 0 \<le> snd p \<and> snd p \<le> j \<and> 0 \<le> fst p \<and> fst p < getWidth img
                        then p_of_d ar (d_add ar (d_of_p ar (pixel img p))
                                          (f (xPos_at ar (fst p)) (positionToIndex ar (snd p))))
                        else pixel img p)\<rparr>"
proof (induction "nat (j + 1)" arbitrary: j)
  case 0
  then have j: "j = - 1" by simp
  have "img\<lparr>pixel := (\<lambda>p. if 0 \<le> snd p \<and> snd p \<le> j \<and> 0 \<le> fst p \<and> fst p < getWidth img
                        then p_of_d ar (d_add ar (d_of_p ar (pixel img p))
                                          (f (xPos_at ar (fst p)) (positionToIndex ar (snd p))))
                        else pixel img p)\<rparr> = img"
    by (rule image_pixel_eqI) (use j in auto)
  then show ?case using j by simp
next
  case (Suc n)
  then have j: "0 \<le> j" and n: "n = nat ((j - 1) + 1)" and j1: "- 1 \<le> j - 1" by auto
  have up: "[0 .. j] = [0 .. j - 1] @ [j]" using j by (simp add: upto_rec2)
  show ?case
    unfolding up foldl_append Suc.hyps(1) [OF n j1]
    using j by (auto simp: add_function_row_eq intro!: image_pixel_cong)
qed

lemma addSomethingToImage_Function:
  "addSomethingToImage ar img (Function f) =
     img\<lparr>pixel := (\<lambda>p. plus_background ar (Function f) (getWidth img) (getHeight img)
                          (pixel img p) p)\<rparr>"
proof (cases "0 \<le> getHeight img")
  case True
  then show ?thesis
    by (auto simp: add_function_rows intro!: image_pixel_cong)
next
  case False
  then have "addSomethingToImage ar img (Function f) = img" by simp
  moreover have "img\<lparr>pixel := (\<lambda>p. plus_background ar (Function f) (getWidth img) (getHeight img)
                          (pixel img p) p)\<rparr> = img"
    by (rule image_pixel_eqI) (use False in auto)
  ultimately show ?thesis by simp
qed

lemma dims_addSomethingToImage:
  "getWidth (addSomethingToImage ar img bg) = getWidth img"
  "getHeight (addSomethingToImage ar img bg) = getHeight img"
  "getX0 (addSomethingToImage ar img bg) = getX0 img"
  "getY0 (addSomethingToImage ar img bg) = getY0 img"
  by (cases bg; simp add: addSomethingToImage_Function image_plus_def del: addSomethingToImage.simps(1))+

lemma pixel_addSomethingToImage:
  assumes "zero_background_adds_nothing ar bg"
  shows "pixel (addSomethingToImage ar img bg) p =
           plus_background ar bg (getWidth img) (getHeight img) (pixel img p) p"
proof (cases bg)
  case (Scalar v)
  then show ?thesis using assms by (auto simp: image_plus_def)
next
  case (Function f)
  then show ?thesis
    by (simp add: addSomethingToImage_Function del: addSomethingToImage.simps(1))
qed

text \<open>
  Claim C9. On a plain Image template the result of convolveAndSubtract has, as image
  plane, the template convolved with the kernel, plus the background, minus the science
  image, multiplied by -1 exactly when the invert flag is set; its mask and variance planes
  are those of the science image, whatever the flag. The images have the same dimensions
  (the image library throws otherwise), and a scalar background that compares equal to
  zero, which the source does not add, is one whose addition changes nothing.
\<close>

theorem difference_image_planes:
  assumes "same_dimensions template (getImage science_image)"
    and "same_dimensions template (getMask science_image)"
    and "same_dimensions template (getVariance science_image)"
    and "zero_background_adds_nothing ar bg"
  shows "\<exists>D. convolveAndSubtract ar conv template science_image k bg invert = Inr D \<and>
             pixel (getImage D) = difference_pixel ar conv template science_image k bg invert \<and>
             pixel (getMask D) = pixel (getMask science_image) \<and>
             pixel (getVariance D) = pixel (getVariance science_image) \<and>
             same_dimensions (getImage D) template \<and>
             getX0 (getImage D) = getX0 template \<and> getY0 (getImage D) = getY0 template"
proof -
  let ?c = "new_MaskedImage ar (getWidth template) (getHeight template)
              (getX0 template) (getY0 template) :: ('a, 'b) MaskedImage"
  let ?img1 = "(getImage ?c)\<lparr>pixel := conv template k\<rparr>"
  let ?img2 = "addSomethingToImage ar ?img1 bg"
  have d1: "getWidth ?img1 = getWidth template" "getHeight ?img1 = getHeight template"
    "getX0 ?img1 = getX0 template" "getY0 ?img1 = getY0 template"
    by (simp_all add: new_MaskedImage_def)
  have s: "getWidth (getImage science_image) = getWidth template"
    "getHeight (getImage science_image) = getHeight template"
    "getWidth (getMask science_image) = getWidth template"
    "getHeight (getMask science_image) = getHeight template"
    "getWidth (getVariance science_image) = getWidth template"
    "getHeight (getVariance science_image) = getHeight template"
    using assms(1,2,3) by (simp_all add: same_dimensions_def)
  have d2: "same_dimensions ?img2 (getImage science_image)"
    by (simp add: same_dimensions_def dims_addSomethingToImage d1 s)
  have dm: "same_dimensions (getMask ?c) (getMask science_image)"
    by (simp add: same_dimensions_def new_MaskedImage_def s)
  have dv: "same_dimensions (getVariance ?c) (getVariance science_image)"
    by (simp add: same_dimensions_def new_MaskedImage_def s)
  have p2: "pixel ?img2 p =
      plus_background ar bg (getWidth template) (getHeight template) (conv template k p) p" for p
    using pixel_addSomethingToImage [OF assms(4), of ?img1 p] by (simp add: d1)
  have m: "image_minus ar ?img2 (getImage science_image) =
      Inr (?img2\<lparr>pixel := (\<lambda>p. p_sub ar (pixel ?img2 p) (pixel (getImage science_image) p))\<rparr>)"
    using d2 by (simp add: image_minus_def)
  have am: "image_assign (getMask ?c) (getMask science_image) =
      Inr ((getMask ?c)\<lparr>pixel := pixel (getMask science_image)\<rparr>)"
    using dm by (simp add: image_assign_def)
  have av: "image_assign (getVariance ?c) (getVariance science_image) =
      Inr ((getVariance ?c)\<lparr>pixel := pixel (getVariance science_image)\<rparr>)"
    using dv by (simp add: image_assign_def)
  show ?thesis
    unfolding convolveAndSubtract_def Let_def m am av
    by (cases invert)
       (simp_all add: image_times_def difference_pixel_def p2 fun_eq_iff same_dimensions_def
          dims_addSomethingToImage d1 Let_def)
qed


lemma science_dimensions:
  "same_dimensions img_c0 (getImage science)" "same_dimensions img_c0 (getMask science)"
  "same_dimensions img_c0 (getVariance science)"
  by (simp_all add: same_dimensions_def science_def img_c0_def img_nc_def img_var_def)

theorem difference_image_planes_witness:
  "same_dimensions img_c0 (getImage science) \<and> same_dimensions img_c0 (getMask science) \<and>
   same_dimensions img_c0 (getVariance science) \<and>
   zero_background_adds_nothing exact_arith (Scalar (Some 5)) \<and>
   (\<exists>D. convolveAndSubtract exact_arith conv_delta img_c0 science k33 (Scalar (Some 5)) True =
           Inr D \<and>
        pixel (getImage D) (1, 1) = Some (- 2) \<and> pixel (getMask D) (0, 0) = 1 \<and>
        pixel (getVariance D) (1, 1) = Some 1)"
proof -
  have z: "zero_background_adds_nothing exact_arith (Scalar (Some 5))"
    by (simp add: exact_arith_def)
  from difference_image_planes [OF science_dimensions z, of conv_delta k33 True]
  obtain D where D: "convolveAndSubtract exact_arith conv_delta img_c0 science k33
                       (Scalar (Some 5)) True = Inr D"
    and img: "pixel (getImage D) =
                difference_pixel exact_arith conv_delta img_c0 science k33 (Scalar (Some 5)) True"
    and msk: "pixel (getMask D) = pixel (getMask science)"
    and var: "pixel (getVariance D) = pixel (getVariance science)"
    by blast
  have "pixel (getImage D) (1, 1) = Some (- 2)"
    by (simp add: img difference_pixel_def Let_def conv_delta_def img_c0_def science_def
        img_nc_def exact_arith_def)
  moreover have "pixel (getMask D) (0, 0) = 1" by (simp add: msk science_def)
  moreover have "pixel (getVariance D) (1, 1) = Some 1" by (simp add: var science_def img_var_def)
  ultimately show ?thesis using D z science_dimensions by blast
qed

section \<open>The basis sets\<close>

lemma foldl_push:
  "foldl (\<lambda>l x. l @ [f x]) acc xs = acc @ map f xs"
  by (induction xs arbitrary: acc) simp_all

lemma push_delta_row_eq:
  "push_delta_row newDelta width height l row =
     l @ map (\<lambda>col. newDelta width height (col, row)) [0 .. sint width - 1]"
  by (simp add: push_delta_row_def foldl_push)

lemma foldl_push_rows:
  "foldl (push_delta_row newDelta width height) acc rs =
     acc @ concat (map (\<lambda>row. map (\<lambda>col. newDelta width height (col, row))
                                [0 .. sint width - 1]) rs)"
  by (induction rs arbitrary: acc) (simp_all add: push_delta_row_eq)

lemma map_window_pixels:
  "map f (window_pixels start end) =
     concat (map (\<lambda>row. map (\<lambda>col. f (col, row)) [fst start .. fst end - 1])
               [snd start .. snd end - 1])"
  by (simp add: window_pixels_def map_concat comp_def)

lemma length_concat_const:
  "(\<And>x. x \<in> set xs \<Longrightarrow> length (f x) = n) \<Longrightarrow> length (concat (map f xs)) = length xs * n"
  by (induction xs) simp_all

lemma length_window_pixels:
  "length (window_pixels start end) =
     nat (snd end - snd start) * nat (fst end - fst start)"
  unfolding window_pixels_def
  by (subst length_concat_const [where n = "nat (fst end - fst start)"]) simp_all

text \<open>
  Beyond the claims: the delta-function basis. For a width and a height of at least 1 (and
  below 2^31, so that the cast to \<open>int\<close> keeps them) the set holds width * height
  kernels, one per pixel of the kernel grid in row-major order; a width or height of 0 is
  refused.
\<close>

theorem delta_function_basis:
  "(0 < sint width \<and> 0 < sint height \<longrightarrow>
      generateDeltaFunctionKernelSet newDelta width height =
        Inr (map (newDelta width height) (window_pixels (0, 0) (sint width, sint height))) \<and>
      length (window_pixels (0, 0) (sint width, sint height)) =
        nat (sint width) * nat (sint height)) \<and>
   (width = 0 \<or> height = 0 \<longrightarrow>
      generateDeltaFunctionKernelSet newDelta width height = Inl NotPositive)"
proof (intro conjI impI)
  assume pos: "0 < sint width \<and> 0 < sint height"
  then have "width \<noteq> 0" "height \<noteq> 0" by auto
  then have "\<not> (width < 1 \<or> height < 1)"
    by simp
  then show "generateDeltaFunctionKernelSet newDelta width height =
        Inr (map (newDelta width height) (window_pixels (0, 0) (sint width, sint height)))"
    by (simp add: generateDeltaFunctionKernelSet_def foldl_push_rows map_window_pixels)
  show "length (window_pixels (0, 0) (sint width, sint height)) =
        nat (sint width) * nat (sint height)"
    by (simp add: length_window_pixels mult.commute)
next
  assume "width = 0 \<or> height = 0"
  then have "width < 1 \<or> height < 1" by auto
  then show "generateDeltaFunctionKernelSet newDelta width height = Inl NotPositive"
    by (simp add: generateDeltaFunctionKernelSet_def)
qed


theorem delta_function_basis_witness:
  "(0::int) < sint (2 :: 32 word) \<and> (0::int) < sint (1 :: 32 word) \<and>
   generateDeltaFunctionKernelSet delta11 2 1 = Inr [delta11 2 1 (0, 0), delta11 2 1 (1, 0)] \<and>
   generateDeltaFunctionKernelSet delta11 0 1 = Inl NotPositive"
  using delta_function_basis [of 2 1 delta11] delta_function_basis [of 0 1 delta11]
  by (simp add: window_pixels_def upto.simps)

text \<open>Beyond the claims: the Alard-Lupton basis is not implemented, every call throws.\<close>

theorem alard_lupton_always_fails:
  "generateAlardLuptonKernelSet nRows nCols sigGauss degGauss = Inl NotPositive \<or>
   generateAlardLuptonKernelSet nRows nCols sigGauss degGauss = Inl NotImplemented"
  by (simp add: generateAlardLuptonKernelSet_def)

end
